(* ===== verification/Prelude.thy ===== *)
theory Prelude
  imports Main "HOL-Library.AList"
begin

text \<open>
  Shared vocabulary of the UniFi presence node server model
  (\<^verbatim>\<open>src/unifi-presence-poly.py\<close>): the Python exceptions the code can raise, the
  JSON values of the controller's client table, Python dictionaries, the messages the
  node server sends to Polyglot, and the string helpers \<^verbatim>\<open>str.lower\<close>,
  \<^verbatim>\<open>str.replace\<close> and \<^verbatim>\<open>str.find\<close> that \<^verbatim>\<open>discover\<close> uses. The collection
  \<open>model_simps\<close> gathers the unfolding rules of the handlers; the component theories
  add to it and use it in their proofs.
\<close>

named_theorems model_simps "unfolding rules of the modelled handlers"

section \<open>Python exceptions\<close>

text \<open>
  Every exception the modelled code can raise is a constructor. \<open>OutOfModel\<close> is not a
  Python exception: it marks a regular expression outside the fragment of Python's
  \<^verbatim>\<open>re\<close> syntax that the model parses (see theory \<open>ReParse\<close>); no theorem about the
  program's behaviour is stated for inputs that reach it except as such.
\<close>

datatype py_error =
    LoggedInException string
  | KeyError string
  | NameError string
  | TypeError string
  | AttributeError string
  | ReError string
  | OverflowError string
  | ConnectionError
  | JSONDecodeError
  | OutOfModel string

section \<open>JSON values and dictionaries\<close>

text \<open>
  A record of the controller's client table is a JSON object decoded by
  \<^verbatim>\<open>r.json()\<close>: a Python \<open>dict\<close> from strings to JSON values. Only the value kinds
  the code distinguishes are kept: strings, and everything else (numbers, booleans,
  null, nested values), on which \<^verbatim>\<open>re.fullmatch\<close> raises \<open>TypeError\<close>.
\<close>

datatype jval = JStr string | JInt int | JBool bool | JNull | JOther

type_synonym pydict = "string \<Rightarrow> jval option"

definition dict_get :: "pydict \<Rightarrow> string \<Rightarrow> py_error + jval" where
  "dict_get d k = (case d k of None \<Rightarrow> Inl (KeyError k) | Some v \<Rightarrow> Inr v)"

section \<open>Messages to Polyglot\<close>

text \<open>
  The reporting sink. \<open>Status a drv v\<close> is a driver report of node \<open>a\<close>
  (\<^verbatim>\<open>setDriver\<close>, \<^verbatim>\<open>reportDrivers\<close>), \<open>Cmd a c v\<close> a command report
  (\<^verbatim>\<open>reportCmd\<close>, the heartbeat), \<open>AddNodeMsg a name\<close> the request to create a
  node, \<open>NoticeAdd\<close>, \<open>NoticeRemove key\<close> and \<open>NoticesClear\<close> the notice
  operations and
  \<open>InstallProfile\<close> the profile upload.
\<close>

datatype msg =
    Status string string int
  | Cmd string string "int option"
  | AddNodeMsg string string
  | NoticeAdd string
  | NoticeRemove string
  | NoticesClear
  | InstallProfile

section \<open>String helpers\<close>

text \<open>
  \<^verbatim>\<open>str.lower\<close> on the ASCII letters (Isabelle's \<open>char\<close> is a byte, so
  non-ASCII letters, which Python would also lower, are left as they are),
  \<^verbatim>\<open>key.replace(':', '')\<close> and \<^verbatim>\<open>key.find(':') != -1\<close>.
\<close>

definition is_upper :: "char \<Rightarrow> bool" where
  "is_upper c \<longleftrightarrow> (65::nat) \<le> of_char c \<and> of_char c \<le> (90::nat)"

definition lower_char :: "char \<Rightarrow> char" where
  "lower_char c = (if is_upper c then char_of (of_char c + (32::nat)) else c)"

definition py_lower :: "string \<Rightarrow> string" where
  "py_lower s = map lower_char s"

definition py_remove_colons :: "string \<Rightarrow> string" where
  "py_remove_colons s = filter (\<lambda>c. c \<noteq> CHR '':'') s"

definition py_has_colon :: "string \<Rightarrow> bool" where
  "py_has_colon s \<longleftrightarrow> CHR '':'' \<in> set s"

section \<open>Generic lemmas\<close>

lemma lower_char_not_upper [simp]: "\<not> is_upper (lower_char c)"
proof (cases "is_upper c")
  case True
  then have "of_char c + (32::nat) < 256" by (simp add: is_upper_def)
  with True show ?thesis by (simp add: lower_char_def is_upper_def)
next
  case False
  then show ?thesis by (simp add: lower_char_def)
qed

lemma lower_char_id: "\<not> is_upper c \<Longrightarrow> lower_char c = c"
  by (simp add: lower_char_def)

lemma py_lower_idem [simp]: "py_lower (py_lower s) = py_lower s"
  by (simp add: py_lower_def lower_char_id)

lemma py_has_colon_remove [simp]: "\<not> py_has_colon (py_remove_colons s)"
  by (simp add: py_has_colon_def py_remove_colons_def)

lemma dict_get_Inr [simp]: "dict_get d k = Inr v \<longleftrightarrow> d k = Some v"
  by (simp add: dict_get_def split: option.splits)

lemma dict_get_Inl [simp]: "dict_get d k = Inl e \<longleftrightarrow> d k = None \<and> e = KeyError k"
  by (auto simp: dict_get_def split: option.splits)

text \<open>Association lists keep Python's dict order: \<open>AList.update\<close> overwrites in place.\<close>

lemma alist_update_keys_distinct [intro]:
  "distinct (map fst al) \<Longrightarrow> distinct (map fst (AList.update k v al))"
  by (rule distinct_update)

lemma alist_update_map_of [simp]: "map_of (AList.update k v al) = (map_of al)(k \<mapsto> v)"
  by (rule update_conv')

lemma py_lower_fixed_no_upper: "py_lower s = s \<Longrightarrow> ch \<in> set s \<Longrightarrow> \<not> is_upper ch"
proof -
  assume l: "py_lower s = s" and ch: "ch \<in> set s"
  have "map lower_char s = map id s" using l by (simp add: py_lower_def)
  then have "\<forall>x \<in> set s. lower_char x = id x" by (simp only: map_eq_conv)
  then have "lower_char ch = ch" using ch by simp
  then show "\<not> is_upper ch" using lower_char_not_upper [of ch] by simp
qed

lemma length_dropWhile_Cons:
  "dropWhile P s = c # s' \<Longrightarrow> length s' < length s"
  using length_dropWhile_le [of P s] by simp

end
