(* ===== verification/PyRegex.thy ===== *)
theory PyRegex
  imports Prelude
begin

text \<open>
  The regular expressions of Python's \<^verbatim>\<open>re\<close> module that \<^verbatim>\<open>Unifi_API.list_clients\<close>
  uses (\<^verbatim>\<open>src/unifi-presence-poly.py\<close>, line 193, \<^verbatim>\<open>re.fullmatch(value_re, x[term])\<close>).
  The library is not part of the repository, so it is modelled from the Python
  documentation:
  \<^item> \<open>regex\<close> is the syntax the parser (theory \<open>ReParse\<close>) builds: the empty language,
    the empty string, a literal, \<open>.\<close> (any character but a newline), concatenation,
    alternation, repetition and a character set \<open>Cls neg items\<close> of literals and
    ranges, negated when \<open>neg\<close> (\<^verbatim>\<open>[^...]\<close>, which also matches a newline);
  \<^item> \<open>rmatch\<close> is the matching semantics as an inductive relation: \<^verbatim>\<open>fullmatch\<close>
    succeeds on a string exactly when some way of matching the whole string exists,
    which CPython's backtracking finds (theory \<open>SreMatch\<close>);
  \<^item> \<open>re_fullmatch\<close> is an executable matcher (Brzozowski derivatives), proved equal to
    the semantics (\<open>re_fullmatch_correct\<close>).
\<close>

section \<open>Syntax and semantics\<close>

text \<open>The items of a character set, as \<^verbatim>\<open>sre_parse\<close> builds them: \<^verbatim>\<open>LITERAL\<close> and \<^verbatim>\<open>RANGE\<close>.\<close>

datatype set_item = SLit char | SRange char char

fun in_item :: "char \<Rightarrow> set_item \<Rightarrow> bool" where
  "in_item c (SLit d) \<longleftrightarrow> c = d"
| "in_item c (SRange lo hi) \<longleftrightarrow> (of_char lo :: nat) \<le> of_char c \<and> (of_char c :: nat) \<le> of_char hi"

definition in_class :: "bool \<Rightarrow> set_item list \<Rightarrow> char \<Rightarrow> bool" where
  "in_class neg its c \<longleftrightarrow> list_ex (in_item c) its \<noteq> neg"

datatype regex =
    Zero
  | One
  | Lit char
  | AnyNL
  | Times regex regex
  | Plus regex regex
  | Star regex
  | Cls bool "set_item list"

definition newline :: char where
  "newline = CHR 0x0A"

inductive rmatch :: "regex \<Rightarrow> string \<Rightarrow> bool" where
  one: "rmatch One []"
| lit: "rmatch (Lit c) [c]"
| any: "c \<noteq> newline \<Longrightarrow> rmatch AnyNL [c]"
| plus1: "rmatch r s \<Longrightarrow> rmatch (Plus r t) s"
| plus2: "rmatch t s \<Longrightarrow> rmatch (Plus r t) s"
| times: "rmatch r u \<Longrightarrow> rmatch t v \<Longrightarrow> rmatch (Times r t) (u @ v)"
| star_nil: "rmatch (Star r) []"
| star_app: "rmatch r u \<Longrightarrow> rmatch (Star r) v \<Longrightarrow> rmatch (Star r) (u @ v)"
| cls: "in_class neg its c \<Longrightarrow> rmatch (Cls neg its) [c]"

inductive_simps rmatch_Zero [simp]: "rmatch Zero s"
inductive_simps rmatch_One [simp]: "rmatch One s"
inductive_simps rmatch_Lit [simp]: "rmatch (Lit c) s"
inductive_simps rmatch_AnyNL [simp]: "rmatch AnyNL s"
inductive_simps rmatch_Plus [simp]: "rmatch (Plus r t) s"
inductive_simps rmatch_Cls [simp]: "rmatch (Cls neg its) s"
inductive_simps rmatch_Times: "rmatch (Times r t) s"
inductive_cases rmatch_StarE: "rmatch (Star r) s"

section \<open>The derivative matcher\<close>

primrec nullable :: "regex \<Rightarrow> bool" where
  "nullable Zero = False"
| "nullable One = True"
| "nullable (Lit c) = False"
| "nullable AnyNL = False"
| "nullable (Times r t) = (nullable r \<and> nullable t)"
| "nullable (Plus r t) = (nullable r \<or> nullable t)"
| "nullable (Star r) = True"
| "nullable (Cls neg its) = False"

primrec deriv :: "char \<Rightarrow> regex \<Rightarrow> regex" where
  "deriv c Zero = Zero"
| "deriv c One = Zero"
| "deriv c (Lit d) = (if c = d then One else Zero)"
| "deriv c AnyNL = (if c = newline then Zero else One)"
| "deriv c (Times r t) =
     (if nullable r then Plus (Times (deriv c r) t) (deriv c t) else Times (deriv c r) t)"
| "deriv c (Plus r t) = Plus (deriv c r) (deriv c t)"
| "deriv c (Star r) = Times (deriv c r) (Star r)"
| "deriv c (Cls neg its) = (if in_class neg its c then One else Zero)"

fun derivs :: "string \<Rightarrow> regex \<Rightarrow> regex" where
  "derivs [] r = r"
| "derivs (c # s) r = derivs s (deriv c r)"

definition re_fullmatch :: "regex \<Rightarrow> string \<Rightarrow> bool" where
  "re_fullmatch r s = nullable (derivs s r)"

section \<open>Correctness of the matcher\<close>


lemma rmatch_Times_Nil: "rmatch (Times r t) [] \<longleftrightarrow> rmatch r [] \<and> rmatch t []"
  by (auto simp: rmatch_Times intro: rmatch.times [where u = "[]" and v = "[]", simplified])

lemma rmatch_Star_Nil [simp]: "rmatch (Star r) []"
  by (rule rmatch.star_nil)

lemma nullable_iff: "nullable r \<longleftrightarrow> rmatch r []"
  by (induction r) (simp_all add: rmatch_Times_Nil)

lemma rmatch_Times_Cons:
  "rmatch (Times r t) (c # s) \<longleftrightarrow>
     (\<exists>u v. s = u @ v \<and> rmatch r (c # u) \<and> rmatch t v) \<or> (rmatch r [] \<and> rmatch t (c # s))"
  by (auto simp: rmatch_Times Cons_eq_append_conv)

lemma rmatch_Star_Cons_aux:
  "rmatch x w \<Longrightarrow> x = Star r \<Longrightarrow> w = c # s \<Longrightarrow>
     \<exists>u v. s = u @ v \<and> rmatch r (c # u) \<and> rmatch (Star r) v"
proof (induction arbitrary: s rule: rmatch.induct)
  case (star_app r' u v)
  show ?case
  proof (cases u)
    case Nil
    with star_app show ?thesis by simp
  next
    case (Cons d u')
    with star_app show ?thesis by auto
  qed
qed auto

lemma rmatch_Star_Cons:
  "rmatch (Star r) (c # s) \<longleftrightarrow> (\<exists>u v. s = u @ v \<and> rmatch r (c # u) \<and> rmatch (Star r) v)"
proof
  assume "rmatch (Star r) (c # s)"
  then show "\<exists>u v. s = u @ v \<and> rmatch r (c # u) \<and> rmatch (Star r) v"
    by (rule rmatch_Star_Cons_aux) simp_all
next
  assume "\<exists>u v. s = u @ v \<and> rmatch r (c # u) \<and> rmatch (Star r) v"
  then obtain u v where "s = u @ v" "rmatch r (c # u)" "rmatch (Star r) v" by blast
  then show "rmatch (Star r) (c # s)" using rmatch.star_app [of r "c # u" v] by simp
qed

lemma rmatch_deriv: "rmatch (deriv c r) s \<longleftrightarrow> rmatch r (c # s)"
proof (induction r arbitrary: s)
  case (Times r t)
  have "rmatch (Times (deriv c r) t) s \<longleftrightarrow> (\<exists>u v. s = u @ v \<and> rmatch r (c # u) \<and> rmatch t v)"
    by (auto simp: rmatch_Times Times.IH)
  then show ?case
    using rmatch_Times_Cons [of r t c s] by (auto simp: nullable_iff Times.IH)
next
  case (Star r)
  then show ?case
    by (auto simp: rmatch_Times rmatch_Star_Cons)
qed (auto simp: newline_def)

lemma rmatch_derivs: "rmatch (derivs s r) t \<longleftrightarrow> rmatch r (s @ t)"
  by (induction s arbitrary: r) (simp_all add: rmatch_deriv)

lemma nullable_derivs: "nullable (derivs s r) \<longleftrightarrow> rmatch r s"
  using rmatch_derivs [of s r "[]"] by (simp add: nullable_iff)

text \<open>
  C4. The executable matcher \<open>re_fullmatch\<close> used for \<^verbatim>\<open>re.fullmatch\<close> accepts a
  string exactly when the pattern's matching semantics admits a match of the whole
  string: the derivative matcher refines the semantics of full matching.
\<close>

theorem re_fullmatch_correct: "re_fullmatch r s \<longleftrightarrow> rmatch r s"
  using rmatch_derivs [of s r "[]"] by (simp add: re_fullmatch_def nullable_iff)

end
