(* ===== verification/ReParse.thy ===== *)
theory ReParse
  imports PyRegex
begin

text \<open>
  \<^verbatim>\<open>re.compile(value)\<close> of a filter string (\<^verbatim>\<open>Unifi_API.list_clients\<close>, line 192),
  modelled on \<^verbatim>\<open>sre_parse._parse\<close> and \<^verbatim>\<open>_parse_sub\<close> of Python 3.7 to 3.10 (the
  library is not part of the repository). The scanner \<open>re_scan\<close> reads the pattern
  one token at a time and keeps the finished branches and the items of the current
  branch (both in reverse), whether the last item is a repetition, and a stack of
  the enclosing groups. It parses literal characters, \<open>.\<close>, escaped punctuation,
  alternation \<open>|\<close>, groups \<open>(...)\<close> and \<open>(?:...)\<close>, character sets \<open>[...]\<close> with
  ranges and negation, and the repetitions \<open>* + ? {m} {m,} {,n} {m,n}\<close>, greedy or
  lazy, with the errors \<^verbatim>\<open>sre_parse\<close> raises there. Anchors, the other \<open>(?\<close>
  extensions and letter or digit escapes (character classes such as \<open>\d\<close>, octal
  and hexadecimal escapes) give \<open>OutOfModel\<close>. Python 3.11 reads \<open>*+\<close>, \<open>++\<close>,
  \<open>?+\<close> as possessive repetitions; the versions modelled raise "multiple repeat".
  Lazy repetitions have the language of the greedy ones, which is all a full match
  depends on, so the syntax keeps no lazy flag.
\<close>

section \<open>Repetition\<close>

text \<open>
  \<^verbatim>\<open>_sre.MAXREPEAT\<close>: a repeat count at or above it is an \<^verbatim>\<open>OverflowError\<close>, and an
  omitted upper bound means no bound. \<open>rep_of m n r\<close> is \<open>r{m,n}\<close>: \<open>m\<close> copies of
  \<open>r\<close> followed by \<open>r*\<close>, or by up to \<open>n - m\<close> optional copies.
\<close>

definition sre_maxrepeat :: nat where
  "sre_maxrepeat = 4294967295"

definition pow_of :: "nat \<Rightarrow> regex \<Rightarrow> regex" where
  "pow_of m r = foldr Times (replicate m r) One"

fun opt_pow :: "nat \<Rightarrow> regex \<Rightarrow> regex" where
  "opt_pow 0 r = One"
| "opt_pow (Suc k) r = Plus One (Times r (opt_pow k r))"

definition rep_of :: "nat \<Rightarrow> nat option \<Rightarrow> regex \<Rightarrow> regex" where
  "rep_of m n r = Times (pow_of m r) (case n of None \<Rightarrow> Star r | Some k \<Rightarrow> opt_pow (k - m) r)"

definition quant_bounds :: "char \<Rightarrow> nat \<times> nat option" where
  "quant_bounds q =
     (if q = CHR ''*'' then (0, None) else if q = CHR ''+'' then (1, None) else (0, Some 1))"

text \<open>
  Whether the last item is a repetition: \<open>RepOpen\<close> right after a quantifier (a
  following \<open>?\<close> makes it lazy), \<open>RepClosed\<close> after the lazy mark. A repetition of
  nothing is "nothing to repeat", of a repetition "multiple repeat".
\<close>

datatype rep_state = NoRep | RepOpen | RepClosed

definition repeat_item :: "nat \<times> nat option \<Rightarrow> regex list \<Rightarrow> rep_state \<Rightarrow> py_error + regex list" where
  "repeat_item b items rs =
     (case items of
        [] \<Rightarrow> Inl (ReError ''nothing to repeat'')
      | r # ris \<Rightarrow>
          (if rs \<noteq> NoRep then Inl (ReError ''multiple repeat'')
           else Inr (rep_of (fst b) (snd b) r # ris)))"

section \<open>Tokens\<close>

definition is_alnum :: "char \<Rightarrow> bool" where
  "is_alnum c \<longleftrightarrow> c \<in> set (''0123456789'' @ ''abcdefghijklmnopqrstuvwxyz''
                              @ ''ABCDEFGHIJKLMNOPQRSTUVWXYZ'')"

definition is_quant :: "char \<Rightarrow> bool" where
  "is_quant c \<longleftrightarrow> c = CHR ''*'' \<or> c = CHR ''+'' \<or> c = CHR ''?''"

definition out_of_fragment :: "char \<Rightarrow> bool" where
  "out_of_fragment c \<longleftrightarrow> c \<in> set ''^$''"

definition is_digit :: "char \<Rightarrow> bool" where
  "is_digit c \<longleftrightarrow> 48 \<le> (of_char c :: nat) \<and> (of_char c :: nat) \<le> 57"

text \<open>\<^verbatim>\<open>int(lo)\<close> of a string of decimal digits.\<close>

definition dec_val :: "string \<Rightarrow> nat" where
  "dec_val ds = foldl (\<lambda>n d. 10 * n + (of_char d - 48)) 0 ds"

text \<open>
  The braces after \<open>{\<close>: digits, optionally a comma and digits, then \<open>}\<close>; the
  digit strings and the rest of the pattern, or \<open>None\<close> when the text is not a
  repetition (then \<^verbatim>\<open>sre_parse\<close> reads \<open>{\<close> as a literal). Without a comma the upper
  bound is the lower one.
\<close>

definition brace_scan :: "string \<Rightarrow> (string \<times> string \<times> string) option" where
  "brace_scan cs =
     (let lo = takeWhile is_digit cs; r1 = dropWhile is_digit cs in
      case r1 of
        [] \<Rightarrow> None
      | d # r2 \<Rightarrow>
          (if d = CHR ''}'' then Some (lo, lo, r2)
           else if d = CHR '','' then
             (let hi = takeWhile is_digit r2; r3 = dropWhile is_digit r2 in
              case r3 of
                [] \<Rightarrow> None
              | e # r4 \<Rightarrow> (if e = CHR ''}'' then Some (lo, hi, r4) else None))
           else None))"

definition brace_bounds :: "string \<Rightarrow> string \<Rightarrow> py_error + nat \<times> nat option" where
  "brace_bounds lo hi =
     (let m = (if lo = [] then 0 else dec_val lo) in
      if sre_maxrepeat \<le> m then Inl (OverflowError ''the repetition number is too large'')
      else if hi = [] then Inr (m, None)
      else if sre_maxrepeat \<le> dec_val hi then Inl (OverflowError ''the repetition number is too large'')
      else if dec_val hi < m then Inl (ReError ''min repeat greater than max repeat'')
      else Inr (m, Some (dec_val hi)))"

text \<open>
  One member of a character set (\<^verbatim>\<open>_class_escape\<close> for an escape): the character,
  its source text (for the error message of a bad range) and the rest.
\<close>

definition cls_atom :: "char \<Rightarrow> string \<Rightarrow> py_error + char \<times> string \<times> string" where
  "cls_atom c cs =
     (if c = CHR 0x5C then
        (case cs of
           [] \<Rightarrow> Inl (ReError ''bad escape (end of pattern)'')
         | d # ds \<Rightarrow> (if is_alnum d then Inl (OutOfModel [c, d]) else Inr (d, [c, d], ds)))
      else Inr (c, [c], cs))"

definition cls_start :: "string \<Rightarrow> bool \<times> string" where
  "cls_start cs = (case cs of d # ds \<Rightarrow> (if d = CHR ''^'' then (True, ds) else (False, cs)) | [] \<Rightarrow> (False, cs))"

text \<open>
  One member of a set after its first character \<open>c\<close> (the body of the loop of
  \<^verbatim>\<open>sre_parse\<close> over a set): the items it adds (newest first), whether it also
  closed the set, and the rest. \<open>a-b\<close> is a range; \<open>-\<close> before the closing bracket
  is a member, and that bracket closes the set.
\<close>

definition cls_member :: "char \<Rightarrow> string \<Rightarrow> py_error + set_item list \<times> bool \<times> string" where
  "cls_member c cs =
     (case cls_atom c cs of
        Inl e \<Rightarrow> Inl e
      | Inr (lo, t1, r1) \<Rightarrow>
          (case r1 of
             [] \<Rightarrow> Inr ([SLit lo], False, r1)
           | d # r2 \<Rightarrow>
               (if d \<noteq> CHR ''-'' then Inr ([SLit lo], False, r1)
                else
                  (case r2 of
                     [] \<Rightarrow> Inl (ReError ''unterminated character set'')
                   | e # r3 \<Rightarrow>
                       (if e = CHR '']'' then Inr ([SLit CHR ''-'', SLit lo], True, r3)
                        else
                          (case cls_atom e r3 of
                             Inl err \<Rightarrow> Inl err
                           | Inr (hi, t2, r4) \<Rightarrow>
                               (if (of_char hi :: nat) < of_char lo
                                then Inl (ReError (''bad character range '' @ t1 @ ''-'' @ t2))
                                else Inr ([SRange lo hi], False, r4))))))))"

text \<open>The members of a set up to its closing \<open>]\<close>; a \<open>]\<close> first in the set is a member.\<close>

function cls_scan :: "set_item list \<Rightarrow> string \<Rightarrow> py_error + set_item list \<times> string" where
  "cls_scan its [] = Inl (ReError ''unterminated character set'')"
| "cls_scan its (c # cs) =
     (if c = CHR '']'' \<and> its \<noteq> [] then Inr (rev its, cs)
      else
        (case cls_member c cs of
           Inl e \<Rightarrow> Inl e
         | Inr (new, closed, rest) \<Rightarrow>
             (if closed then Inr (rev (new @ its), rest) else cls_scan (new @ its) rest)))"
  by pat_completeness auto

lemma cls_atom_shorter: "cls_atom c cs = Inr (x, t, r) \<Longrightarrow> length r \<le> length cs"
  by (auto simp: cls_atom_def split: if_splits list.splits)

lemma cls_member_shorter: "cls_member c cs = Inr (new, cl, r) \<Longrightarrow> length r \<le> length cs"
  by (auto simp: cls_member_def split: sum.splits prod.splits list.splits if_splits
      dest!: cls_atom_shorter)

termination cls_scan
  by (relation "measure (\<lambda>(its, s). length s)") (auto dest!: cls_member_shorter)

lemma cls_scan_shorter: "cls_scan its s = Inr (its', r) \<Longrightarrow> length r < length s"
proof (induction its s rule: cls_scan.induct)
  case (2 its c cs)
  show ?case
  proof (cases "c = CHR '']'' \<and> its \<noteq> []")
    case True
    with "2.prems" show ?thesis by simp
  next
    case nc: False
    with "2.prems" obtain new cl rest where m: "cls_member c cs = Inr (new, cl, rest)"
      by (auto split: sum.splits)
    have le: "length rest \<le> length cs" using cls_member_shorter [OF m] .
    show ?thesis
    proof (cases cl)
      case True
      with "2.prems" nc m le show ?thesis by simp
    next
      case False
      with "2.prems" nc m have "cls_scan (new @ its) rest = Inr (its', r)" by simp
      with "2.IH" [OF nc m refl refl False] le show ?thesis by simp
    qed
  qed
qed simp

lemma brace_scan_shorter: "brace_scan cs = Some (lo, hi, r) \<Longrightarrow> length r < length cs"
  by (auto simp: brace_scan_def Let_def split: list.splits if_splits
      dest!: length_dropWhile_Cons)

lemma cls_start_shorter: "cls_start cs = (neg, ds) \<Longrightarrow> length ds \<le> length cs"
  by (auto simp: cls_start_def split: list.splits if_splits)

section \<open>The scanner\<close>

definition seq_of :: "regex list \<Rightarrow> regex" where
  "seq_of items = foldr Times items One"

fun alt_of :: "regex list \<Rightarrow> regex" where
  "alt_of [] = Zero"
| "alt_of [r] = r"
| "alt_of (r # rs) = Plus r (alt_of rs)"

text \<open>
  A group frame holds the branches and items of the enclosing subpattern while the
  group is read; \<open>)\<close> closes the group into one item of the enclosing branch.
\<close>

type_synonym re_frame = "regex list list \<times> regex list"

function re_scan :: "re_frame list \<Rightarrow> regex list list \<Rightarrow> regex list \<Rightarrow> rep_state \<Rightarrow> string \<Rightarrow>
                     py_error + regex list list" where
  "re_scan [] bs items rs [] = Inr (rev (rev items # bs))"
| "re_scan (f # fs) bs items rs [] = Inl (ReError ''missing ), unterminated subpattern'')"
| "re_scan fs bs items rs (c # cs) =
     (if c = CHR ''|'' then re_scan fs (rev items # bs) [] NoRep cs
      else if c = CHR ''('' then
        (case cs of
           d # ds \<Rightarrow>
             (if d \<noteq> CHR ''?'' then re_scan ((bs, items) # fs) [] [] NoRep cs
              else (case ds of
                      e # es \<Rightarrow>
                        (if e = CHR '':'' then re_scan ((bs, items) # fs) [] [] NoRep es
                         else Inl (OutOfModel ''(?''))
                    | [] \<Rightarrow> Inl (OutOfModel ''(?'')))
         | [] \<Rightarrow> re_scan ((bs, items) # fs) [] [] NoRep cs)
      else if c = CHR '')'' then
        (case fs of
           [] \<Rightarrow> Inl (ReError ''unbalanced parenthesis'')
         | (pbs, pitems) # fs' \<Rightarrow>
             re_scan fs' pbs (alt_of (map seq_of (rev (rev items # bs))) # pitems) NoRep cs)
      else if is_quant c then
        (if rs = RepOpen \<and> c = CHR ''?'' then re_scan fs bs items RepClosed cs
         else
           (case repeat_item (quant_bounds c) items rs of
              Inl e \<Rightarrow> Inl e
            | Inr items' \<Rightarrow> re_scan fs bs items' RepOpen cs))
      else if c = CHR ''{'' then
        (if take 1 cs = ''}'' then re_scan fs bs (Lit c # items) NoRep cs
         else
           (case brace_scan cs of
              None \<Rightarrow> re_scan fs bs (Lit c # items) NoRep cs
            | Some (lo, hi, ds) \<Rightarrow>
                (case brace_bounds lo hi of
                   Inl e \<Rightarrow> Inl e
                 | Inr b \<Rightarrow>
                     (case repeat_item b items rs of
                        Inl e \<Rightarrow> Inl e
                      | Inr items' \<Rightarrow> re_scan fs bs items' RepOpen ds))))
      else if c = CHR ''['' then
        (case cls_start cs of
           (neg, ds) \<Rightarrow>
             (case cls_scan [] ds of
                Inl e \<Rightarrow> Inl e
              | Inr (its, es) \<Rightarrow> re_scan fs bs (Cls neg its # items) NoRep es))
      else if c = CHR ''.'' then re_scan fs bs (AnyNL # items) NoRep cs
      else if out_of_fragment c then Inl (OutOfModel [c])
      else if c = CHR 0x5C then
        (case cs of
           [] \<Rightarrow> Inl (ReError ''bad escape (end of pattern)'')
         | d # ds \<Rightarrow>
             (if is_alnum d then Inl (OutOfModel [c, d])
              else re_scan fs bs (Lit d # items) NoRep ds))
      else re_scan fs bs (Lit c # items) NoRep cs)"
  by pat_completeness auto

termination re_scan
  by (relation "measure (\<lambda>(fs, bs, items, rs, s). length s)")
     (auto dest!: brace_scan_shorter cls_scan_shorter cls_start_shorter [OF sym])

definition re_compile :: "string \<Rightarrow> py_error + regex" where
  "re_compile p = (case re_scan [] [] [] NoRep p of
                     Inl e \<Rightarrow> Inl e
                   | Inr bs \<Rightarrow> Inr (alt_of (map seq_of bs)))"

text \<open>The literal pattern of a string: what \<open>re_compile\<close> builds from plain text.\<close>

definition lit_regex :: "string \<Rightarrow> regex" where
  "lit_regex s = seq_of (map Lit s)"

definition re_plain :: "string \<Rightarrow> bool" where
  "re_plain s \<longleftrightarrow> (\<forall>c \<in> set s. c \<notin> set ''.^$*+?{}[]|()'' \<and> c \<noteq> CHR 0x5C)"

text \<open>Python's \<^verbatim>\<open>str(n)\<close>, used to write repeat counts in patterns.\<close>

fun dec_str :: "nat \<Rightarrow> string" where
  "dec_str n = (if n < 10 then [char_of (48 + n)] else dec_str (n div 10) @ [char_of (48 + n mod 10)])"

declare dec_str.simps [simp del]

section \<open>Plain patterns\<close>

lemma re_plain_Cons: "re_plain (c # s) \<longleftrightarrow> re_plain [c] \<and> re_plain s"
  by (simp add: re_plain_def)

lemma re_scan_plain_Cons:
  "re_plain [c] \<Longrightarrow> re_scan fs bs items rs (c # s) = re_scan fs bs (Lit c # items) NoRep s"
  by (simp add: re_plain_def is_quant_def out_of_fragment_def)

lemma re_scan_plain_app:
  "re_plain p \<Longrightarrow>
     re_scan fs bs items rs (p @ s) = re_scan fs bs (rev (map Lit p) @ items) (if p = [] then rs else NoRep) s"
proof (induction p arbitrary: items rs)
  case (Cons c p)
  then have "re_plain [c]" "re_plain p" by (simp_all add: re_plain_Cons [of c p])
  then show ?case using Cons.IH by (simp add: re_scan_plain_Cons del: re_scan.simps)
qed simp

lemma re_scan_plain:
  "re_plain s \<Longrightarrow> re_scan [] bs items rs s = Inr (rev ((rev items @ map Lit s) # bs))"
  using re_scan_plain_app [of s "[]" bs items rs "[]"] by simp

lemma re_compile_plain: "re_plain p \<Longrightarrow> re_compile p = Inr (lit_regex p)"
  by (simp add: re_compile_def re_scan_plain lit_regex_def)

lemma rmatch_lit_regex: "rmatch (lit_regex p) s \<longleftrightarrow> s = p"
  by (induction p arbitrary: s) (auto simp: lit_regex_def seq_of_def rmatch_Times)

lemma re_fullmatch_lit_regex: "re_fullmatch (lit_regex p) s \<longleftrightarrow> s = p"
  by (simp add: re_fullmatch_def nullable_derivs rmatch_lit_regex)

lemma rmatch_seq_of_append:
  "rmatch (seq_of (xs @ ys)) s \<longleftrightarrow> (\<exists>u v. s = u @ v \<and> rmatch (seq_of xs) u \<and> rmatch (seq_of ys) v)"
proof (induction xs arbitrary: s)
  case Nil
  then show ?case by (simp add: seq_of_def)
next
  case (Cons x xs)
  then show ?case
    by (simp add: seq_of_def rmatch_Times) (metis append.assoc)
qed

lemma rmatch_seq_of_Lit: "rmatch (seq_of (map Lit w)) u \<longleftrightarrow> u = w"
  using rmatch_lit_regex [of w u] by (simp add: lit_regex_def)

lemma rmatch_seq_of_Cons: "rmatch (seq_of (x # xs)) s \<longleftrightarrow> rmatch (Times x (seq_of xs)) s"
  by (simp add: seq_of_def)

text \<open>
  C4. A filter value without regular-expression metacharacters (a MAC address such as
  \<open>aa:bb:cc:dd:ee:ff\<close>) compiles, and the compiled pattern fully matches exactly
  that string: matching is full-string equality, not substring search.
\<close>

theorem re_plain_fullmatch_exact:
  assumes "re_plain p"
  shows "\<exists>r. re_compile p = Inr r \<and> (\<forall>s. re_fullmatch r s \<longleftrightarrow> s = p)"
  using assms by (simp add: re_compile_plain re_fullmatch_lit_regex)

section \<open>Metacharacters\<close>

text \<open>
  C32. A filter value is compiled as a pattern, not escaped (\<^verbatim>\<open>list_clients\<close>
  does not call \<^verbatim>\<open>re.escape\<close>): a dot in a configured address matches any one
  character but a newline, so the address \<open>aa:bb:cc:dd:ee:f.\<close> selects both
  \<open>aa:bb:cc:dd:ee:fe\<close> and \<open>aa:bb:cc:dd:ee:ff\<close>.
\<close>

theorem re_dot_matches_any:
  assumes "re_plain p" and "re_plain q"
  shows "\<exists>r. re_compile (p @ CHR ''.'' # q) = Inr r
           \<and> (\<forall>s. re_fullmatch r s \<longleftrightarrow> (\<exists>c. c \<noteq> newline \<and> s = p @ c # q))"
proof -
  have "re_scan [] [] [] NoRep (p @ CHR ''.'' # q) = Inr [map Lit p @ AnyNL # map Lit q]"
    using assms by (simp add: re_scan_plain_app re_scan_plain is_quant_def)
  then have "re_compile (p @ CHR ''.'' # q) = Inr (seq_of (map Lit p @ [AnyNL] @ map Lit q))"
    by (simp add: re_compile_def)
  moreover have "rmatch (seq_of (map Lit p @ [AnyNL] @ map Lit q)) s \<longleftrightarrow> (\<exists>c. c \<noteq> newline \<and> s = p @ c # q)" for s
  proof -
    have a: "rmatch (seq_of [AnyNL]) v \<longleftrightarrow> (\<exists>c. c \<noteq> newline \<and> v = [c])" for v
      by (auto simp: seq_of_def rmatch_Times)
    show ?thesis by (auto simp: rmatch_seq_of_append rmatch_seq_of_Lit a simp del: append.simps)
  qed
  ultimately show ?thesis by (simp add: re_fullmatch_def nullable_derivs)
qed

section \<open>Parse errors\<close>

text \<open>
  C19. As \<^verbatim>\<open>sre_parse\<close> does, a pattern that starts with a quantifier raises
  "nothing to repeat", and a quantifier right after another one (other than the lazy
  mark) raises "multiple repeat"; in \<^verbatim>\<open>list_clients\<close> either error escapes the
  poll.
\<close>

theorem re_compile_repeat_errors:
  assumes "is_quant q1" and "re_plain [c]" and "q2 = CHR ''*'' \<or> q2 = CHR ''+''"
  shows "re_compile (q1 # p) = Inl (ReError ''nothing to repeat'')
         \<and> re_compile (c # q1 # q2 # p) = Inl (ReError ''multiple repeat'')"
proof -
  have q: "q1 \<noteq> CHR ''|''" "q1 \<noteq> CHR ''(''" "q1 \<noteq> CHR '')''"
    using assms(1) by (auto simp: is_quant_def)
  have q2: "is_quant q2" "q2 \<noteq> CHR ''|''" "q2 \<noteq> CHR ''?''" "q2 \<noteq> CHR ''(''" "q2 \<noteq> CHR '')''"
    using assms(3) by (auto simp: is_quant_def)
  show ?thesis
    using assms(1) q q2 re_scan_plain_Cons [OF assms(2)]
    by (simp add: re_compile_def repeat_item_def)
qed

section \<open>Repetition counts\<close>

lemma rmatch_seq_of_single: "rmatch (seq_of [x]) s \<longleftrightarrow> rmatch x s"
  by (auto simp: seq_of_def rmatch_Times)

lemma rmatch_Star_concat_aux:
  "rmatch x s \<Longrightarrow> x = Star r \<Longrightarrow> \<exists>ws. list_all (rmatch r) ws \<and> s = concat ws"
proof (induction rule: rmatch.induct)
  case (star_nil r')
  then show ?case by (intro exI [of _ "[]"]) simp
next
  case (star_app r' u v)
  then obtain ws where "list_all (rmatch r) ws" "v = concat ws" by blast
  with star_app show ?case by (intro exI [of _ "u # ws"]) simp
qed auto

lemma rmatch_Star_concat: "rmatch (Star r) s \<longleftrightarrow> (\<exists>ws. list_all (rmatch r) ws \<and> s = concat ws)"
proof
  assume "\<exists>ws. list_all (rmatch r) ws \<and> s = concat ws"
  then obtain ws where "list_all (rmatch r) ws" "s = concat ws" by blast
  then show "rmatch (Star r) s"
    by (induction ws arbitrary: s) (auto intro: rmatch.star_app)
qed (rule rmatch_Star_concat_aux [OF _ refl])

lemma rmatch_pow_of:
  "rmatch (pow_of m r) s \<longleftrightarrow> (\<exists>ws. length ws = m \<and> list_all (rmatch r) ws \<and> s = concat ws)"
proof (induction m arbitrary: s)
  case 0
  then show ?case by (simp add: pow_of_def)
next
  case (Suc m)
  have "rmatch (pow_of (Suc m) r) s \<longleftrightarrow> (\<exists>u v. s = u @ v \<and> rmatch r u \<and> rmatch (pow_of m r) v)"
    by (simp add: pow_of_def rmatch_Times)
  also have "\<dots> \<longleftrightarrow> (\<exists>ws. length ws = Suc m \<and> list_all (rmatch r) ws \<and> s = concat ws)"
  proof
    assume "\<exists>u v. s = u @ v \<and> rmatch r u \<and> rmatch (pow_of m r) v"
    then obtain u v ws where "s = u @ v" "rmatch r u" "length ws = m" "list_all (rmatch r) ws" "v = concat ws"
      using Suc.IH by blast
    then show "\<exists>ws. length ws = Suc m \<and> list_all (rmatch r) ws \<and> s = concat ws"
      by (intro exI [of _ "u # ws"]) simp
  next
    assume "\<exists>ws. length ws = Suc m \<and> list_all (rmatch r) ws \<and> s = concat ws"
    then obtain u ws where "length ws = m" "rmatch r u" "list_all (rmatch r) ws" "s = u @ concat ws"
      by (auto simp: length_Suc_conv)
    then show "\<exists>u v. s = u @ v \<and> rmatch r u \<and> rmatch (pow_of m r) v"
      using Suc.IH by blast
  qed
  finally show ?case .
qed

lemma rmatch_opt_pow:
  "rmatch (opt_pow j r) s \<longleftrightarrow> (\<exists>ws. length ws \<le> j \<and> list_all (rmatch r) ws \<and> s = concat ws)"
proof (induction j arbitrary: s)
  case 0
  then show ?case by simp
next
  case (Suc j)
  show ?case
  proof
    assume "rmatch (opt_pow (Suc j) r) s"
    then consider "s = []" | u v where "s = u @ v" "rmatch r u" "rmatch (opt_pow j r) v"
      by (auto simp: rmatch_Times)
    then show "\<exists>ws. length ws \<le> Suc j \<and> list_all (rmatch r) ws \<and> s = concat ws"
    proof cases
      case 2
      then obtain ws where "length ws \<le> j" "list_all (rmatch r) ws" "v = concat ws"
        using Suc.IH by blast
      with 2 show ?thesis by (intro exI [of _ "u # ws"]) simp
    qed (intro exI [of _ "[]"], simp)
  next
    assume "\<exists>ws. length ws \<le> Suc j \<and> list_all (rmatch r) ws \<and> s = concat ws"
    then obtain ws where ws: "length ws \<le> Suc j" "list_all (rmatch r) ws" "s = concat ws" by blast
    show "rmatch (opt_pow (Suc j) r) s"
    proof (cases ws)
      case (Cons u us)
      with ws Suc.IH [of "concat us"] have "rmatch (opt_pow j r) (concat us)" by auto
      with ws Cons show ?thesis using rmatch.times [of r u "opt_pow j r" "concat us"] by simp
    qed (use ws in simp)
  qed
qed

lemma concat_take_drop: "concat ws = concat (take m ws) @ concat (drop m ws)"
  by (simp flip: concat_append)

lemma rmatch_rep_of_Some:
  assumes "m \<le> n"
  shows "rmatch (rep_of m (Some n) r) s \<longleftrightarrow>
           (\<exists>ws. m \<le> length ws \<and> length ws \<le> n \<and> list_all (rmatch r) ws \<and> s = concat ws)"
proof
  assume "rmatch (rep_of m (Some n) r) s"
  then obtain u v ws1 ws2 where "s = u @ v" "length ws1 = m" "list_all (rmatch r) ws1" "u = concat ws1"
      "length ws2 \<le> n - m" "list_all (rmatch r) ws2" "v = concat ws2"
    by (auto simp: rep_of_def rmatch_Times rmatch_pow_of rmatch_opt_pow)
  then show "\<exists>ws. m \<le> length ws \<and> length ws \<le> n \<and> list_all (rmatch r) ws \<and> s = concat ws"
    using assms by (intro exI [of _ "ws1 @ ws2"]) simp
next
  assume "\<exists>ws. m \<le> length ws \<and> length ws \<le> n \<and> list_all (rmatch r) ws \<and> s = concat ws"
  then obtain ws where ws: "m \<le> length ws" "length ws \<le> n" "list_all (rmatch r) ws" "s = concat ws"
    by blast
  have "rmatch (pow_of m r) (concat (take m ws))"
    unfolding rmatch_pow_of using ws
    by (intro exI [of _ "take m ws"]) (auto simp: list_all_iff dest: in_set_takeD)
  moreover have "rmatch (opt_pow (n - m) r) (concat (drop m ws))"
    unfolding rmatch_opt_pow using ws
    by (intro exI [of _ "drop m ws"]) (auto simp: list_all_iff dest: in_set_dropD)
  ultimately show "rmatch (rep_of m (Some n) r) s"
    using ws(4) concat_take_drop [of ws m] by (auto simp: rep_of_def intro: rmatch.times)
qed

lemma list_all_rmatch_Lit: "list_all (rmatch (Lit c)) ws \<longleftrightarrow> ws = replicate (length ws) [c]"
  by (induction ws) auto

lemma concat_replicate_single: "concat (replicate k [c]) = replicate k c"
  by (induction k) auto

lemma rmatch_rep_of_Lit:
  assumes "m \<le> n"
  shows "rmatch (rep_of m (Some n) (Lit c)) s \<longleftrightarrow> (\<exists>k. m \<le> k \<and> k \<le> n \<and> s = replicate k c)"
proof
  assume "rmatch (rep_of m (Some n) (Lit c)) s"
  then obtain ws where "m \<le> length ws" "length ws \<le> n" "ws = replicate (length ws) [c]" "s = concat ws"
    by (auto simp: rmatch_rep_of_Some [OF assms] list_all_rmatch_Lit)
  then show "\<exists>k. m \<le> k \<and> k \<le> n \<and> s = replicate k c"
    by (metis concat_replicate_single)
next
  assume "\<exists>k. m \<le> k \<and> k \<le> n \<and> s = replicate k c"
  then obtain k where "m \<le> k" "k \<le> n" "s = replicate k c" by blast
  then show "rmatch (rep_of m (Some n) (Lit c)) s"
    unfolding rmatch_rep_of_Some [OF assms]
    by (intro exI [of _ "replicate k [c]"]) (simp add: list_all_iff concat_replicate_single)
qed

section \<open>Decimal repeat counts\<close>

lemma is_digit_char_of: "d < (10::nat) \<Longrightarrow> is_digit (char_of (48 + d))"
  by (simp add: is_digit_def of_char_of)

lemma dec_str_digits: "list_all is_digit (dec_str n)"
proof (induction n rule: dec_str.induct)
  case (1 n)
  then show ?case by (subst dec_str.simps) (simp add: is_digit_char_of)
qed

lemma dec_str_ne: "dec_str n \<noteq> []"
  by (subst dec_str.simps) simp

lemma dec_val_snoc: "dec_val (xs @ [d]) = 10 * dec_val xs + (of_char d - 48)"
  by (simp add: dec_val_def)

lemma dec_val_dec_str: "dec_val (dec_str n) = n"
proof (induction n rule: dec_str.induct)
  case (1 n)
  show ?case
  proof (cases "n < 10")
    case True
    then show ?thesis by (subst dec_str.simps) (simp add: dec_val_def of_char_of)
  next
    case False
    then have "dec_val (dec_str n) = 10 * (n div 10) + ((48 + n mod 10) mod 256 - 48)"
      using "1.IH" by (subst dec_str.simps) (simp add: dec_val_snoc of_char_of)
    then show ?thesis by simp
  qed
qed

lemma not_digit_brace: "\<not> is_digit CHR '',''" "\<not> is_digit CHR ''}''"
  by (simp_all add: is_digit_def)

lemma dec_str_scan:
  "takeWhile is_digit (dec_str m @ d # t) = (if is_digit d then dec_str m @ takeWhile is_digit (d # t) else dec_str m)"
  "dropWhile is_digit (dec_str m @ d # t) = (if is_digit d then dropWhile is_digit (d # t) else d # t)"
  using dec_str_digits [of m] by (simp_all add: takeWhile_append2 dropWhile_append2 list_all_iff)

lemma brace_scan_dec:
  "brace_scan (dec_str m @ CHR '','' # dec_str n @ [CHR ''}'']) = Some (dec_str m, dec_str n, [])"
  "brace_scan (dec_str k @ [CHR ''}'']) = Some (dec_str k, dec_str k, [])"
  by (simp_all add: brace_scan_def dec_str_scan not_digit_brace Let_def)

lemma take1_dec_str: "take 1 (dec_str m @ t) \<noteq> ''}''"
proof -
  obtain d ds where "dec_str m = d # ds" using dec_str_ne [of m] by (cases "dec_str m") auto
  moreover have "is_digit d" using dec_str_digits [of m] calculation by simp
  ultimately show ?thesis using not_digit_brace(2) by auto
qed

lemma brace_bounds_dec:
  "m \<le> n \<Longrightarrow> n < sre_maxrepeat \<Longrightarrow> brace_bounds (dec_str m) (dec_str n) = Inr (m, Some n)"
  "n < m \<Longrightarrow> m < sre_maxrepeat \<Longrightarrow>
     brace_bounds (dec_str m) (dec_str n) = Inl (ReError ''min repeat greater than max repeat'')"
  "sre_maxrepeat \<le> k \<Longrightarrow>
     brace_bounds (dec_str k) (dec_str k) = Inl (OverflowError ''the repetition number is too large'')"
  by (simp_all add: brace_bounds_def dec_val_dec_str dec_str_ne Let_def)

lemma re_scan_brace:
  "take 1 cs \<noteq> ''}'' \<Longrightarrow> brace_scan cs = Some (lo, hi, ds) \<Longrightarrow>
     re_scan fs bs items rs (CHR ''{'' # cs) =
       (case brace_bounds lo hi of
          Inl e \<Rightarrow> Inl e
        | Inr b \<Rightarrow> (case repeat_item b items rs of Inl e \<Rightarrow> Inl e | Inr items' \<Rightarrow> re_scan fs bs items' RepOpen ds))"
  by (simp add: is_quant_def)

text \<open>
  C17. A repetition in braces counts: \<open>c{m,n}\<close> for a plain character \<open>c\<close> and bounds
  \<open>m \<le> n\<close> below \<^verbatim>\<open>MAXREPEAT\<close> compiles, and fully matches exactly the strings of
  \<open>m\<close> to \<open>n\<close> copies of \<open>c\<close>.
\<close>

theorem re_brace_repeat:
  assumes "re_plain [c]" and "m \<le> n" and "n < sre_maxrepeat"
  shows "\<exists>r. re_compile (c # CHR ''{'' # dec_str m @ CHR '','' # dec_str n @ [CHR ''}'']) = Inr r
           \<and> (\<forall>s. re_fullmatch r s \<longleftrightarrow> (\<exists>k. m \<le> k \<and> k \<le> n \<and> s = replicate k c))"
proof -
  have "re_compile (c # CHR ''{'' # dec_str m @ CHR '','' # dec_str n @ [CHR ''}'']) =
          Inr (seq_of [rep_of m (Some n) (Lit c)])"
    using assms take1_dec_str [of m]
    by (simp add: re_compile_def re_scan_plain_Cons re_scan_brace brace_scan_dec brace_bounds_dec
        repeat_item_def del: re_scan.simps(3))
  then show ?thesis
    by (simp add: re_fullmatch_def nullable_derivs rmatch_seq_of_single rmatch_rep_of_Lit assms(2))
qed

section \<open>Character sets\<close>

lemma cls_scan_range:
  assumes "lo \<noteq> CHR 0x5C" and "hi \<noteq> CHR 0x5C" and "hi \<noteq> CHR '']''"
  shows "cls_scan [] [lo, CHR ''-'', hi, CHR '']''] =
           (if (of_char hi :: nat) < of_char lo then Inl (ReError (''bad character range '' @ [lo, CHR ''-'', hi]))
            else Inr ([SRange lo hi], []))"
  using assms by (simp add: cls_member_def cls_atom_def)

text \<open>
  C18. A character set with one range, \<open>[lo-hi]\<close>, raises "bad character range" when
  \<open>hi\<close> comes before \<open>lo\<close>, and otherwise compiles to a pattern that fully matches
  exactly the single characters from \<open>lo\<close> to \<open>hi\<close> by code point (an address
  filter such as \<open>aa:bb:cc:dd:ee:[0-9a-f]\<close> is built from such sets).
\<close>

theorem re_class_range:
  assumes "lo \<noteq> CHR 0x5C" and "lo \<noteq> CHR ''^''" and "hi \<noteq> CHR 0x5C" and "hi \<noteq> CHR '']''"
  shows "((of_char hi :: nat) < of_char lo \<longrightarrow>
            re_compile [CHR ''['', lo, CHR ''-'', hi, CHR '']''] = Inl (ReError (''bad character range '' @ [lo, CHR ''-'', hi])))
       \<and> ((of_char lo :: nat) \<le> of_char hi \<longrightarrow>
            (\<exists>r. re_compile [CHR ''['', lo, CHR ''-'', hi, CHR '']''] = Inr r
               \<and> (\<forall>s. re_fullmatch r s \<longleftrightarrow>
                        (\<exists>c. s = [c] \<and> (of_char lo :: nat) \<le> of_char c \<and> (of_char c :: nat) \<le> of_char hi))))"
proof -
  have st: "cls_start [lo, CHR ''-'', hi, CHR '']''] = (False, [lo, CHR ''-'', hi, CHR '']''])"
    using assms(2) by (simp add: cls_start_def)
  have c: "re_compile [CHR ''['', lo, CHR ''-'', hi, CHR '']''] =
             (if (of_char hi :: nat) < of_char lo then Inl (ReError (''bad character range '' @ [lo, CHR ''-'', hi]))
              else Inr (seq_of [Cls False [SRange lo hi]]))"
    using cls_scan_range [OF assms(1,3,4)] by (simp add: re_compile_def st is_quant_def del: cls_scan.simps)
  have "rmatch (seq_of [Cls False [SRange lo hi]]) s \<longleftrightarrow>
          (\<exists>c. s = [c] \<and> (of_char lo :: nat) \<le> of_char c \<and> (of_char c :: nat) \<le> of_char hi)" for s
    by (simp add: rmatch_seq_of_single in_class_def)
  with c show ?thesis by (simp add: re_fullmatch_def nullable_derivs)
qed

section \<open>Groups\<close>

lemma re_scan_open:
  "take 1 cs \<noteq> ''?'' \<Longrightarrow> re_scan fs bs items rs (CHR ''('' # cs) = re_scan ((bs, items) # fs) [] [] NoRep cs"
  by (cases cs) auto

lemma re_plain_take1: "re_plain p \<Longrightarrow> c \<noteq> CHR ''?'' \<Longrightarrow> take 1 (p @ c # t) \<noteq> ''?''"
  by (cases p) (auto simp: re_plain_def)

text \<open>
  C14. A group delimits an alternation: \<open>(p|q)t\<close> for plain \<open>p\<close>, \<open>q\<close>, \<open>t\<close>
  compiles, and fully matches exactly \<open>pt\<close> and \<open>qt\<close>; without the group,
  \<open>p|qt\<close> would match \<open>p\<close> and \<open>qt\<close>.
\<close>

theorem re_group_alternation:
  assumes "re_plain p" and "re_plain q" and "re_plain t"
  shows "\<exists>r. re_compile (CHR ''('' # p @ CHR ''|'' # q @ CHR '')'' # t) = Inr r
           \<and> (\<forall>s. re_fullmatch r s \<longleftrightarrow> s = p @ t \<or> s = q @ t)"
proof -
  let ?g = "Plus (seq_of (map Lit p)) (seq_of (map Lit q))"
  have "re_scan [] [] [] NoRep (CHR ''('' # p @ CHR ''|'' # q @ CHR '')'' # t) =
          Inr [?g # map Lit t]"
    using assms re_plain_take1 [OF assms(1), of "CHR ''|''"]
    by (simp add: re_scan_open re_scan_plain_app re_scan_plain del: re_scan.simps(3))
       (simp add: re_scan_plain_app re_scan_plain)
  then have "re_compile (CHR ''('' # p @ CHR ''|'' # q @ CHR '')'' # t) = Inr (seq_of (?g # map Lit t))"
    by (simp add: re_compile_def)
  moreover have "rmatch (seq_of (?g # map Lit t)) s \<longleftrightarrow> s = p @ t \<or> s = q @ t" for s
    by (auto simp: rmatch_seq_of_Cons rmatch_Times rmatch_seq_of_Lit)
  ultimately show ?thesis by (simp add: re_fullmatch_def nullable_derivs)
qed

section \<open>Errors of sets, groups and braces\<close>

lemma cls_scan_unterminated:
  "re_plain p \<Longrightarrow> CHR ''-'' \<notin> set p \<Longrightarrow> cls_scan its p = Inl (ReError ''unterminated character set'')"
proof (induction p arbitrary: its)
  case (Cons c p)
  then have c: "c \<noteq> CHR '']''" "c \<noteq> CHR 0x5C" and p: "re_plain p" "CHR ''-'' \<notin> set p"
    by (simp_all add: re_plain_def)
  have m: "cls_member c p = Inr ([SLit c], False, p)"
    using c p(2) by (cases p) (auto simp: cls_member_def cls_atom_def)
  show ?case using c m Cons.IH [OF p] by simp
qed simp

lemma re_plain_take1_nil: "re_plain p \<Longrightarrow> take 1 p \<noteq> ''?''"
  by (cases p) (auto simp: re_plain_def)

text \<open>
  C31. The errors \<^verbatim>\<open>sre_parse\<close> raises for the structure of a pattern: a set that is
  not closed ("unterminated character set"), a group that is not closed ("missing ),
  unterminated subpattern"), a closing parenthesis without a group ("unbalanced
  parenthesis"), braces whose bounds are reversed ("min repeat greater than max
  repeat") and a count at or above \<^verbatim>\<open>MAXREPEAT\<close> (an \<^verbatim>\<open>OverflowError\<close>).
\<close>

theorem re_compile_structure_errors:
  assumes "re_plain p" and "CHR ''-'' \<notin> set p" and "re_plain [c]"
    and "n < m" and "m < sre_maxrepeat" and "sre_maxrepeat \<le> k"
  shows "re_compile (CHR ''['' # p) = Inl (ReError ''unterminated character set'')
       \<and> re_compile (CHR ''('' # p) = Inl (ReError ''missing ), unterminated subpattern'')
       \<and> re_compile (p @ [CHR '')'']) = Inl (ReError ''unbalanced parenthesis'')
       \<and> re_compile (c # CHR ''{'' # dec_str m @ CHR '','' # dec_str n @ [CHR ''}''])
           = Inl (ReError ''min repeat greater than max repeat'')
       \<and> re_compile (c # CHR ''{'' # dec_str k @ [CHR ''}''])
           = Inl (OverflowError ''the repetition number is too large'')"
proof (intro conjI)
  have "cls_start p = (False, p)" using assms(1) by (cases p) (auto simp: cls_start_def re_plain_def)
  then show "re_compile (CHR ''['' # p) = Inl (ReError ''unterminated character set'')"
    using cls_scan_unterminated [OF assms(1,2), of "[]"]
    by (simp add: re_compile_def is_quant_def del: cls_scan.simps)
  show "re_compile (CHR ''('' # p) = Inl (ReError ''missing ), unterminated subpattern'')"
    using re_scan_plain_app [OF assms(1), of "[([], [])]" "[]" "[]" NoRep "[]"]
    by (simp add: re_compile_def re_scan_open [OF re_plain_take1_nil [OF assms(1)]] del: re_scan.simps(3))
  show "re_compile (p @ [CHR '')'']) = Inl (ReError ''unbalanced parenthesis'')"
    using re_scan_plain_app [OF assms(1), of "[]" "[]" "[]" NoRep "[CHR '')'']"]
    by (simp add: re_compile_def)
  show "re_compile (c # CHR ''{'' # dec_str m @ CHR '','' # dec_str n @ [CHR ''}''])
          = Inl (ReError ''min repeat greater than max repeat'')"
    using assms(3-5) take1_dec_str [of m]
    by (simp add: re_compile_def re_scan_plain_Cons re_scan_brace brace_scan_dec brace_bounds_dec
        del: re_scan.simps(3))
  show "re_compile (c # CHR ''{'' # dec_str k @ [CHR ''}''])
          = Inl (OverflowError ''the repetition number is too large'')"
    using assms(3,6) take1_dec_str [of k]
    by (simp add: re_compile_def re_scan_plain_Cons re_scan_brace brace_scan_dec brace_bounds_dec
        del: re_scan.simps(3))
qed

section \<open>Witnesses\<close>

theorem re_plain_fullmatch_exact_witness:
  "re_plain ''aa:bb:cc:dd:ee:ff'' \<and>
   (\<exists>r. re_compile ''aa:bb:cc:dd:ee:ff'' = Inr r \<and>
        (\<forall>s. re_fullmatch r s \<longleftrightarrow> s = ''aa:bb:cc:dd:ee:ff''))"
proof -
  have p: "re_plain ''aa:bb:cc:dd:ee:ff''" by (simp add: re_plain_def)
  show ?thesis using p re_plain_fullmatch_exact [OF p] by simp
qed

theorem re_compile_repeat_errors_witness:
  "re_compile ''*aa:bb'' = Inl (ReError ''nothing to repeat'')
   \<and> re_compile ''a?+b'' = Inl (ReError ''multiple repeat'')"
  using re_compile_repeat_errors [of "CHR ''*''" "CHR ''a''" "CHR ''+''" "''aa:bb''"]
    re_compile_repeat_errors [of "CHR ''?''" "CHR ''a''" "CHR ''+''" "''b''"]
  by (simp add: is_quant_def re_plain_def)

theorem re_dot_matches_any_witness:
  "\<exists>r. re_compile ''aa:bb:cc:dd:ee:f.'' = Inr r
       \<and> re_fullmatch r ''aa:bb:cc:dd:ee:fe'' \<and> re_fullmatch r ''aa:bb:cc:dd:ee:ff''"
proof -
  obtain r where "re_compile (''aa:bb:cc:dd:ee:f'' @ CHR ''.'' # []) = Inr r"
      and m: "\<forall>s. re_fullmatch r s \<longleftrightarrow> (\<exists>c. c \<noteq> newline \<and> s = ''aa:bb:cc:dd:ee:f'' @ c # [])"
    using re_dot_matches_any [of "''aa:bb:cc:dd:ee:f''" "[]"] by (auto simp: re_plain_def)
  then show ?thesis by (auto simp: newline_def)
qed

lemma dec_str_small: "dec_str 1 = ''1''" "dec_str 2 = ''2''" "dec_str 3 = ''3''"
  by (subst dec_str.simps, code_simp)+

theorem re_brace_repeat_witness:
  "\<exists>r. re_compile ''a{1,3}'' = Inr r \<and> re_fullmatch r ''aa'' \<and> \<not> re_fullmatch r ''aaaa''"
proof -
  obtain r where r: "re_compile (CHR ''a'' # CHR ''{'' # dec_str 1 @ CHR '','' # dec_str 3 @ [CHR ''}'']) = Inr r"
      and m: "\<forall>s. re_fullmatch r s \<longleftrightarrow> (\<exists>k. 1 \<le> k \<and> k \<le> 3 \<and> s = replicate k (CHR ''a''))"
    using re_brace_repeat [of "CHR ''a''" 1 3] by (auto simp: re_plain_def sre_maxrepeat_def)
  have "''aa'' = replicate 2 (CHR ''a'')" by (simp add: numeral_2_eq_2)
  then have "re_fullmatch r ''aa''" using m by fastforce
  moreover have "\<not> re_fullmatch r ''aaaa''"
    using m by (auto dest: arg_cong [of _ _ length])
  moreover have "re_compile ''a{1,3}'' = Inr r" using r unfolding dec_str_small by simp
  ultimately show ?thesis by blast
qed

theorem re_class_range_witness:
  "re_compile ''[z-a]'' = Inl (ReError ''bad character range z-a'')
   \<and> (\<exists>r. re_compile ''[0-9]'' = Inr r \<and> re_fullmatch r ''7'' \<and> \<not> re_fullmatch r ''a'')"
  using re_class_range [of "CHR ''z''" "CHR ''a''"] re_class_range [of "CHR ''0''" "CHR ''9''"]
  by auto

theorem re_group_alternation_witness:
  "\<exists>r. re_compile ''(ab|cd)ef'' = Inr r \<and> re_fullmatch r ''abef'' \<and> re_fullmatch r ''cdef''
       \<and> \<not> re_fullmatch r ''ab''"
proof -
  have "re_plain ''ab''" "re_plain ''cd''" "re_plain ''ef''" by (simp_all add: re_plain_def)
  from re_group_alternation [OF this] obtain r
    where "re_compile (CHR ''('' # ''ab'' @ CHR ''|'' # ''cd'' @ CHR '')'' # ''ef'') = Inr r"
      and m: "\<forall>s. re_fullmatch r s \<longleftrightarrow> s = ''ab'' @ ''ef'' \<or> s = ''cd'' @ ''ef''"
    by blast
  moreover have "CHR ''('' # ''ab'' @ CHR ''|'' # ''cd'' @ CHR '')'' # ''ef'' = ''(ab|cd)ef''" by simp
  ultimately show ?thesis using m by auto
qed

theorem re_compile_structure_errors_witness:
  "re_compile ''[ab'' = Inl (ReError ''unterminated character set'')
   \<and> re_compile ''(ab'' = Inl (ReError ''missing ), unterminated subpattern'')
   \<and> re_compile ''ab)'' = Inl (ReError ''unbalanced parenthesis'')
   \<and> re_compile ''a{3,1}'' = Inl (ReError ''min repeat greater than max repeat'')
   \<and> re_compile (CHR ''a'' # CHR ''{'' # dec_str sre_maxrepeat @ [CHR ''}''])
       = Inl (OverflowError ''the repetition number is too large'')"
proof -
  have h: "re_plain ''ab''" "CHR ''-'' \<notin> set ''ab''" "re_plain [CHR ''a'']" "(1::nat) < 3"
    "(3::nat) < sre_maxrepeat" "sre_maxrepeat \<le> sre_maxrepeat"
    by (simp_all add: re_plain_def sre_maxrepeat_def)
  have e: "CHR ''a'' # CHR ''{'' # dec_str 3 @ CHR '','' # dec_str 1 @ [CHR ''}''] = ''a{3,1}''"
    by (simp only: dec_str_small) simp
  show ?thesis
    using re_compile_structure_errors [of "''ab''" "CHR ''a''" 1 3 sre_maxrepeat] h
    unfolding e by simp
qed

end
