(* ===== verification/PyJson.thy ===== *)
theory PyJson
  imports Prelude
begin

text \<open>
  The part of Python's \<^verbatim>\<open>json\<close> module the program uses: \<^verbatim>\<open>Unifi_API.login\<close>
  (line 176) sends \<^verbatim>\<open>json.dumps(self._login_data)\<close>, a dictionary of two strings,
  as the body of the login request. The library is not part of the repository; the
  encoder follows \<^verbatim>\<open>json.encoder\<close> with its default arguments: separators
  \<^verbatim>\<open>', '\<close> and \<^verbatim>\<open>': '\<close>, keys in insertion order, and \<^verbatim>\<open>ensure_ascii=True\<close>,
  so that \<^verbatim>\<open>ESCAPE_ASCII\<close> (quote, backslash and everything outside space..tilde)
  is written with the short escapes of \<^verbatim>\<open>ESCAPE_DCT\<close> or as \<^verbatim>\<open>\\u00xx\<close> in
  lower-case hexadecimal. Characters are Isabelle's, code points 0--255; the
  surrogate pairs of larger code points do not arise.

  The decoder is the controller's side of the exchange: the JSON grammar (RFC 8259)
  for an object whose values are strings, with whitespace between tokens, written as
  parsers that return the input they did not consume. The object parser is a
  \<open>function\<close> whose termination rests on every string parse consuming input.
  The round trip \<open>json_loads_dumps\<close> says the controller reads back exactly the
  credentials that were sent, whatever characters they contain.
\<close>

section \<open>Encoder\<close>

definition hex_digit :: "nat \<Rightarrow> char" where
  "hex_digit d = (if d < 10 then char_of (48 + d) else char_of (87 + d))"

definition json_u_escape :: "char \<Rightarrow> string" where
  "json_u_escape c =
     [CHR 0x5C, CHR ''u'', CHR ''0'', CHR ''0'', hex_digit (of_char c div 16), hex_digit (of_char c mod 16)]"

definition json_esc_char :: "char \<Rightarrow> string" where
  "json_esc_char c =
     (if c = CHR 0x22 then [CHR 0x5C, CHR 0x22]
      else if c = CHR 0x5C then [CHR 0x5C, CHR 0x5C]
      else if c = CHR 0x08 then [CHR 0x5C, CHR ''b'']
      else if c = CHR 0x0C then [CHR 0x5C, CHR ''f'']
      else if c = CHR 0x0A then [CHR 0x5C, CHR ''n'']
      else if c = CHR 0x0D then [CHR 0x5C, CHR ''r'']
      else if c = CHR 0x09 then [CHR 0x5C, CHR ''t'']
      else if of_char c < (32::nat) \<or> (127::nat) \<le> of_char c then json_u_escape c
      else [c])"

definition json_dumps_str :: "string \<Rightarrow> string" where
  "json_dumps_str s = CHR 0x22 # concat (map json_esc_char s) @ [CHR 0x22]"

fun json_items :: "(string \<times> string) list \<Rightarrow> string" where
  "json_items [] = []"
| "json_items [(k, v)] = json_dumps_str k @ '': '' @ json_dumps_str v"
| "json_items ((k, v) # kv # kvs) = json_dumps_str k @ '': '' @ json_dumps_str v @ '', '' @ json_items (kv # kvs)"

definition json_dumps_obj :: "(string \<times> string) list \<Rightarrow> string" where
  "json_dumps_obj kvs = ''{'' @ json_items kvs @ ''}''"

section \<open>Decoder\<close>

text \<open>A hexadecimal digit of a \<^verbatim>\<open>\\u\<close> escape, either case.\<close>

definition hex_val :: "char \<Rightarrow> nat option" where
  "hex_val c =
     (let n = of_char c :: nat in
      if 48 \<le> n \<and> n \<le> 57 then Some (n - 48)
      else if 97 \<le> n \<and> n \<le> 102 then Some (n - 87)
      else if 65 \<le> n \<and> n \<le> 70 then Some (n - 55) else None)"

definition json_unescape :: "char \<Rightarrow> char option" where
  "json_unescape e =
     (if e = CHR 0x22 then Some (CHR 0x22) else if e = CHR 0x5C then Some (CHR 0x5C)
      else if e = CHR ''/'' then Some (CHR ''/'') else if e = CHR ''b'' then Some (CHR 0x08)
      else if e = CHR ''f'' then Some (CHR 0x0C) else if e = CHR ''n'' then Some (CHR 0x0A)
      else if e = CHR ''r'' then Some (CHR 0x0D) else if e = CHR ''t'' then Some (CHR 0x09)
      else None)"

fun json_str_body :: "string \<Rightarrow> (string \<times> string) option" where
  "json_str_body [] = None"
| "json_str_body (c # cs) =
     (if c = CHR 0x22 then Some ([], cs)
      else if c = CHR 0x5C then
        (case cs of
           [] \<Rightarrow> None
         | e # cs' \<Rightarrow>
             (if e = CHR ''u'' then
                (case cs' of
                   h1 # h2 # h3 # h4 # r \<Rightarrow>
                     (case (hex_val h1, hex_val h2, hex_val h3, hex_val h4) of
                        (Some a, Some b, Some d, Some f) \<Rightarrow>
                          (let n = ((a * 16 + b) * 16 + d) * 16 + f in
                           if n < 256 then map_option (apfst (Cons (char_of n))) (json_str_body r) else None)
                      | _ \<Rightarrow> None)
                 | _ \<Rightarrow> None)
              else (case json_unescape e of
                      Some d \<Rightarrow> map_option (apfst (Cons d)) (json_str_body cs')
                    | None \<Rightarrow> None)))
      else if of_char c < (32::nat) then None
      else map_option (apfst (Cons c)) (json_str_body cs))"

text \<open>Whitespace between JSON tokens.\<close>

definition json_ws :: "char \<Rightarrow> bool" where
  "json_ws c \<longleftrightarrow> c = CHR '' '' \<or> c = CHR 0x09 \<or> c = CHR 0x0A \<or> c = CHR 0x0D"

text \<open>
  The members of an object after its \<^verbatim>\<open>{\<close>: string, colon, string, then a comma
  and more members or the closing brace; the rest of the input is returned.
\<close>

function json_members :: "string \<Rightarrow> ((string \<times> string) list \<times> string) option" where
  "json_members s =
     (case dropWhile json_ws s of
        [] \<Rightarrow> None
      | c # s1 \<Rightarrow>
          (if c \<noteq> CHR 0x22 then None else
           case json_str_body s1 of
             None \<Rightarrow> None
           | Some (k, s2) \<Rightarrow>
               (case dropWhile json_ws s2 of
                  [] \<Rightarrow> None
                | d # s3 \<Rightarrow>
                    (if d \<noteq> CHR '':'' then None else
                     case dropWhile json_ws s3 of
                       [] \<Rightarrow> None
                     | e # s4 \<Rightarrow>
                         (if e \<noteq> CHR 0x22 then None else
                          case json_str_body s4 of
                            None \<Rightarrow> None
                          | Some (v, s5) \<Rightarrow>
                              (case dropWhile json_ws s5 of
                                 [] \<Rightarrow> None
                               | f # s6 \<Rightarrow>
                                   (if f = CHR ''}'' then Some ([(k, v)], s6)
                                    else if f = CHR '','' then map_option (apfst (Cons (k, v))) (json_members s6)
                                    else None)))))))"
  by pat_completeness auto

text \<open>A whole JSON text that is an object of strings (\<^verbatim>\<open>json.loads\<close> on it).\<close>

definition json_loads_obj :: "string \<Rightarrow> (string \<times> string) list option" where
  "json_loads_obj s =
     (case dropWhile json_ws s of
        [] \<Rightarrow> None
      | c # s1 \<Rightarrow>
          (if c \<noteq> CHR ''{'' then None else
           case dropWhile json_ws s1 of
             [] \<Rightarrow> None
           | d # s2 \<Rightarrow>
               (if d = CHR ''}'' then (if dropWhile json_ws s2 = [] then Some [] else None)
                else case json_members s1 of
                       None \<Rightarrow> None
                     | Some (kvs, r) \<Rightarrow> if dropWhile json_ws r = [] then Some kvs else None)))"

section \<open>Termination of the object parser\<close>

lemma json_str_body_shorter:
  "json_str_body s = Some (x, r) \<Longrightarrow> length r < length s"
proof (induction s arbitrary: x rule: json_str_body.induct)
  case 1
  then show ?case by simp
next
  case (2 c cs)
  then show ?case
    by (auto simp: Let_def split: if_splits list.splits option.splits prod.splits; force)
qed

termination json_members
  by (relation "measure length")
     (fastforce dest!: length_dropWhile_Cons json_str_body_shorter)+

section \<open>Round trip\<close>

lemma hex_val_hex_digit: "d < 16 \<Longrightarrow> hex_val (hex_digit d) = Some d"
  by (simp add: hex_val_def hex_digit_def Let_def)

lemma json_str_body_esc:
  "json_str_body (json_esc_char c @ r) = map_option (apfst (Cons c)) (json_str_body r)"
proof -
  consider "c = CHR 0x22" | "c = CHR 0x5C" | "c = CHR 0x08" | "c = CHR 0x0C" | "c = CHR 0x0A"
    | "c = CHR 0x0D" | "c = CHR 0x09"
    | "c \<notin> {CHR 0x22, CHR 0x5C, CHR 0x08, CHR 0x0C, CHR 0x0A, CHR 0x0D, CHR 0x09}"
      "of_char c < (32::nat) \<or> (127::nat) \<le> of_char c"
    | "c \<notin> {CHR 0x22, CHR 0x5C, CHR 0x08, CHR 0x0C, CHR 0x0A, CHR 0x0D, CHR 0x09}"
      "\<not> (of_char c < (32::nat) \<or> (127::nat) \<le> of_char c)"
    by blast
  then show ?thesis
  proof cases
    case 8
    have n: "of_char c < (256::nat)" by (rule nat_of_char_less_256)
    have h: "hex_val (hex_digit (of_char c div 16)) = Some (of_char c div 16)"
            "hex_val (hex_digit (of_char c mod 16)) = Some (of_char c mod 16)"
      using n by (simp_all add: hex_val_hex_digit less_mult_imp_div_less)
    have "((0 * 16 + 0) * 16 + of_char c div 16) * 16 + of_char c mod 16 = (of_char c :: nat)"
      by simp
    then show ?thesis using 8 h n
      by (simp add: json_esc_char_def json_u_escape_def hex_val_def Let_def)
  next
    case 9
    then show ?thesis by (simp add: json_esc_char_def)
  qed (simp_all add: json_esc_char_def json_unescape_def)
qed

lemma json_str_body_dumps:
  "json_str_body (concat (map json_esc_char s) @ CHR 0x22 # r) = Some (s, r)"
  by (induction s) (simp_all add: json_str_body_esc)

lemma json_dumps_str_Cons: "json_dumps_str s @ r = CHR 0x22 # concat (map json_esc_char s) @ CHR 0x22 # r"
  by (simp add: json_dumps_str_def)

lemma json_ws_simps [simp]:
  "\<not> json_ws CHR 0x22" "\<not> json_ws CHR '':''" "\<not> json_ws CHR '',''" "\<not> json_ws CHR ''}''"
  "\<not> json_ws CHR ''{''" "json_ws CHR '' ''"
  by (simp_all add: json_ws_def)

lemma json_members_items:
  "kvs \<noteq> [] \<Longrightarrow> json_members (json_items kvs @ CHR ''}'' # r) = Some (kvs, r)"
proof (induction kvs rule: json_items.induct)
  case 1
  then show ?case by simp
next
  case (2 k v)
  show ?case
    by (simp add: json_dumps_str_Cons json_str_body_dumps)
next
  case (3 k v kv kvs)
  then show ?case
    by (simp add: json_dumps_str_Cons json_str_body_dumps)
qed

lemma json_items_quote: "kvs \<noteq> [] \<Longrightarrow> \<exists>t. json_items kvs = CHR 0x22 # t"
  by (cases kvs rule: json_items.cases) (simp_all add: json_dumps_str_def)

theorem json_loads_dumps: "json_loads_obj (json_dumps_obj kvs) = Some kvs"
proof (cases "kvs = []")
  case True
  then show ?thesis by (simp add: json_loads_obj_def json_dumps_obj_def)
next
  case False
  then obtain t where t: "json_items kvs = CHR 0x22 # t" using json_items_quote by blast
  have "json_members (json_items kvs @ ''}'') = Some (kvs, [])"
    using json_members_items [OF False, of "[]"] by simp
  then show ?thesis using t
    by (simp add: json_loads_obj_def json_dumps_obj_def del: json_members.simps)
qed

end
