(* ===== verification/UnifiAPI.thy ===== *)
theory UnifiAPI
  imports ReParse PyJson
begin

text \<open>
  The controller API client, class \<^verbatim>\<open>Unifi_API\<close> of
  \<^verbatim>\<open>src/unifi-presence-poly.py\<close> (lines 156--194), over an explicit model of the
  network. The \<^verbatim>\<open>requests.Session\<close> and the controller are the record \<open>net\<close>: the
  answers the controller will give, in order (a script, so that every interleaving of
  successes, error statuses and failures is an input), the requests sent so far, and
  the number of controller-side login sessions that are open. A response is an HTTP
  status with a body, or \<open>NetFail\<close> when \<^verbatim>\<open>requests\<close> raises (connection error,
  timeout, TLS verification failure). The API object is the record \<open>api\<close>; each
  method takes it with the network and returns the result (an exception as \<open>Inl\<close>),
  the updated object and the updated network.
\<close>

section \<open>The network\<close>

datatype http_method = HGet | HPost

datatype req_body = NoBody | RawBody string

record request =
  rq_method :: http_method
  rq_url :: string
  rq_body :: req_body
  rq_verify :: bool

datatype resp_body = NotJson | JsonNoData | JsonData "pydict list"

datatype response = Response int resp_body | NetFail

record net =
  responses :: "response list"
  sent :: "request list"
  live_sessions :: nat

text \<open>
  One request: the next scripted answer is consumed (none left is a failure) and the
  request is logged.
\<close>

definition http_send :: "request \<Rightarrow> net \<Rightarrow> response \<times> net" where
  "http_send rq n =
     (case responses n of
        [] \<Rightarrow> (NetFail, n\<lparr>sent := sent n @ [rq]\<rparr>)
      | r # rs \<Rightarrow> (r, n\<lparr>responses := rs, sent := sent n @ [rq]\<rparr>))"

section \<open>The API object\<close>

text \<open>
  Fields of \<^verbatim>\<open>Unifi_API\<close>: the user name and password of the class-level
  \<^verbatim>\<open>_login_data\<close> dictionary as this instance's constructor left it (the dictionary is
  shared by all instances and each constructor overwrites both keys; the program never
  uses an instance after constructing another, and theory \<open>ApiStore\<close> models the
  sharing and proves this view exact for that use), \<^verbatim>\<open>_site\<close>,
  \<^verbatim>\<open>_verify_ssl\<close>, \<^verbatim>\<open>_baseurl\<close>, \<^verbatim>\<open>_current_status_code\<close>; \<open>authed\<close> records
  whether the session's cookie holds a controller-side login, \<open>closed\<close> whether
  \<^verbatim>\<open>Session.close()\<close> ran.
\<close>

record api =
  login_username :: string
  login_password :: string
  site :: string
  verify_ssl :: bool
  baseurl :: string
  current_status_code :: "int option"
  authed :: bool
  closed :: bool

definition unifi_api_init :: "string \<Rightarrow> string \<Rightarrow> string \<Rightarrow> string \<Rightarrow> api" where
  "unifi_api_init username password site_id url =
     \<lparr>login_username = username, login_password = password, site = site_id,
      verify_ssl = False, baseurl = url, current_status_code = None,
      authed = False, closed = False\<rparr>"

text \<open>
  \<^verbatim>\<open>login\<close>: POST of \<^verbatim>\<open>json.dumps(self._login_data)\<close> with \<^verbatim>\<open>verify=self._verify_ssl\<close>. Only
  status 400 raises; a 200 answer opens a controller session. \<open>api_post_login\<close> is the
  method's body for a given login dictionary, \<open>login_data\<close> the dictionary as the last
  constructor left it (\<^verbatim>\<open>username\<close>, then \<^verbatim>\<open>password\<close>); theory \<open>ApiStore\<close> runs the
  same body on the class-level dictionary of a store of several instances.
\<close>

definition login_data :: "api \<Rightarrow> (string \<times> string) list" where
  "login_data a = [(''username'', login_username a), (''password'', login_password a)]"

definition api_post_login :: "(string \<times> string) list \<Rightarrow> api \<Rightarrow> net \<Rightarrow> (py_error + unit) \<times> api \<times> net" where
  "api_post_login ld a n =
     (case http_send \<lparr>rq_method = HPost, rq_url = baseurl a @ ''/api/login'',
                      rq_body = RawBody (json_dumps_obj ld),
                      rq_verify = verify_ssl a\<rparr> n of
        (NetFail, n') \<Rightarrow> (Inl ConnectionError, a, n')
      | (Response st _, n') \<Rightarrow>
          (let opens = (st = 200 \<and> \<not> authed a);
               a' = a\<lparr>current_status_code := Some st, authed := (authed a \<or> st = 200)\<rparr>;
               n'' = (if opens then n'\<lparr>live_sessions := Suc (live_sessions n')\<rparr> else n')
           in if st = 400
              then (Inl (LoggedInException ''Failed to log in to api with provided credentials''), a', n'')
              else (Inr (), a', n'')))"

definition api_login :: "api \<Rightarrow> net \<Rightarrow> (py_error + unit) \<times> api \<times> net" where
  "api_login a n = api_post_login (login_data a) a n"

text \<open>
  \<^verbatim>\<open>logout\<close>: GET of \<^verbatim>\<open>/logout\<close> with the session's default certificate check
  (no \<^verbatim>\<open>verify\<close> argument), then \<^verbatim>\<open>Session.close()\<close>. A failing GET raises before
  the close; any answer ends the controller session.
\<close>

definition api_logout :: "api \<Rightarrow> net \<Rightarrow> (py_error + unit) \<times> api \<times> net" where
  "api_logout a n =
     (case http_send \<lparr>rq_method = HGet, rq_url = baseurl a @ ''/logout'',
                      rq_body = NoBody, rq_verify = True\<rparr> n of
        (NetFail, n') \<Rightarrow> (Inl ConnectionError, a, n')
      | (Response _ _, n') \<Rightarrow>
          (Inr (), a\<lparr>authed := False, closed := True\<rparr>,
           if authed a then n'\<lparr>live_sessions := live_sessions n' - 1\<rparr> else n'))"

section \<open>Filtering the client table\<close>

text \<open>
  A filter value is a string, compiled with \<^verbatim>\<open>re.compile\<close>, or an already compiled
  pattern. One filter term keeps the records that have the field and whose field
  value fully matches; a field value that is not a string makes \<^verbatim>\<open>re.fullmatch\<close>
  raise \<open>TypeError\<close>.
\<close>

datatype fval = FStr string | FPat regex

definition fval_compile :: "fval \<Rightarrow> py_error + regex" where
  "fval_compile v = (case v of FStr s \<Rightarrow> re_compile s | FPat r \<Rightarrow> Inr r)"

fun filter_term :: "string \<Rightarrow> regex \<Rightarrow> pydict list \<Rightarrow> py_error + pydict list" where
  "filter_term t r [] = Inr []"
| "filter_term t r (x # xs) =
     (case x t of
        None \<Rightarrow> filter_term t r xs
      | Some (JStr s) \<Rightarrow>
          (case filter_term t r xs of
             Inl e \<Rightarrow> Inl e
           | Inr ys \<Rightarrow> Inr (if re_fullmatch r s then x # ys else ys))
      | Some _ \<Rightarrow> Inl (TypeError ''expected string or bytes-like object''))"

fun apply_filters :: "(string \<times> fval) list \<Rightarrow> pydict list \<Rightarrow> py_error + pydict list" where
  "apply_filters [] d = Inr d"
| "apply_filters ((t, v) # fs) d =
     (case fval_compile v of
        Inl e \<Rightarrow> Inl e
      | Inr r \<Rightarrow> (case filter_term t r d of Inl e \<Rightarrow> Inl e | Inr d' \<Rightarrow> apply_filters fs d'))"

text \<open>
  Whether a record's field is absent or a string (so that \<^verbatim>\<open>re.fullmatch\<close> does not
  raise on it), and whether it is present and fully matches.
\<close>

definition field_is_str :: "string \<Rightarrow> pydict \<Rightarrow> bool" where
  "field_is_str t x = (case x t of None \<Rightarrow> True | Some (JStr _) \<Rightarrow> True | Some _ \<Rightarrow> False)"

definition field_matches :: "string \<Rightarrow> regex \<Rightarrow> pydict \<Rightarrow> bool" where
  "field_matches t r x = (case x t of Some (JStr s) \<Rightarrow> re_fullmatch r s | _ \<Rightarrow> False)"

text \<open>
  \<^verbatim>\<open>list_clients\<close>: GET of \<^verbatim>\<open>/api/s/<site>/stat/sta\<close>. The source passes
  \<^verbatim>\<open>verify=self._verify_ssl\<close> to \<^verbatim>\<open>str.format\<close> instead of to \<^verbatim>\<open>get\<close>, so the
  request runs with the session's default \<^verbatim>\<open>verify=True\<close>. Status 401 raises; the
  body must be JSON with a \<^verbatim>\<open>data\<close> field; then the filters apply in order.
\<close>

definition api_list_clients ::
  "(string \<times> fval) list \<Rightarrow> api \<Rightarrow> net \<Rightarrow> (py_error + pydict list) \<times> api \<times> net" where
  "api_list_clients filters a n =
     (case http_send \<lparr>rq_method = HGet, rq_url = baseurl a @ ''/api/s/'' @ site a @ ''/stat/sta'',
                      rq_body = RawBody ''json={}'', rq_verify = True\<rparr> n of
        (NetFail, n') \<Rightarrow> (Inl ConnectionError, a, n')
      | (Response st b, n') \<Rightarrow>
          (let a' = a\<lparr>current_status_code := Some st\<rparr>
           in if st = 401 then (Inl (LoggedInException ''Invalid login, or login has expired''), a', n')
              else (case b of
                      NotJson \<Rightarrow> (Inl JSONDecodeError, a', n')
                    | JsonNoData \<Rightarrow> (Inl (KeyError ''data''), a', n')
                    | JsonData d \<Rightarrow> (apply_filters filters d, a', n'))))"

text \<open>
  The context-manager protocol (\<^verbatim>\<open>__enter__\<close> logs in, \<^verbatim>\<open>__exit__\<close> logs out),
  which the node's \<^verbatim>\<open>update\<close> does not use: \<open>api_with\<close> runs a body between them
  and logs out on the body's error path too, as a \<^verbatim>\<open>with\<close> block does.
\<close>

definition api_with ::
  "(api \<Rightarrow> net \<Rightarrow> (py_error + 'a) \<times> api \<times> net) \<Rightarrow> api \<Rightarrow> net \<Rightarrow> (py_error + 'a) \<times> api \<times> net" where
  "api_with body a n =
     (case api_login a n of
        (Inl e, a1, n1) \<Rightarrow> (Inl e, a1, n1)
      | (Inr _, a1, n1) \<Rightarrow>
          (case body a1 n1 of
             (r, a2, n2) \<Rightarrow>
               (case api_logout a2 n2 of
                  (Inl e, a3, n3) \<Rightarrow> (Inl e, a3, n3)
                | (Inr _, a3, n3) \<Rightarrow> (r, a3, n3))))"

section \<open>Example data\<close>

text \<open>
  A client table with a phone that is associated with an access point and a laptop
  whose address differs from the phone's in the last character, used by the witnesses.
\<close>

definition example_phone :: pydict where
  "example_phone = [''mac'' \<mapsto> JStr ''aa:bb:cc:dd:ee:ff'', ''hostname'' \<mapsto> JStr ''phone'',
                    ''ap_mac'' \<mapsto> JStr ''f0:9f:c2:00:00:01'']"

definition example_near_miss :: pydict where
  "example_near_miss = [''mac'' \<mapsto> JStr ''aa:bb:cc:dd:ee:fe'', ''hostname'' \<mapsto> JStr ''laptop'',
                        ''ap_mac'' \<mapsto> JStr ''f0:9f:c2:00:00:01'']"

definition example_api :: api where
  "example_api = unifi_api_init ''admin'' ''secret'' ''default'' ''https://10.0.0.1:8443''"

section \<open>Lemmas\<close>

lemma field_is_str_None [simp]: "x t = None \<Longrightarrow> field_is_str t x \<and> \<not> field_matches t r x"
  by (simp add: field_is_str_def field_matches_def)

lemma field_is_str_JStr [simp]:
  "x t = Some (JStr s) \<Longrightarrow> field_is_str t x \<and> (field_matches t r x \<longleftrightarrow> re_fullmatch r s)"
  by (simp add: field_is_str_def field_matches_def)

lemma field_is_str_other [simp]: "x t = Some v \<Longrightarrow> \<forall>s. v \<noteq> JStr s \<Longrightarrow> \<not> field_is_str t x"
  by (cases v) (simp_all add: field_is_str_def)

lemma filter_term_eq:
  "filter_term t r d =
     (if list_all (field_is_str t) d then Inr (filter (field_matches t r) d)
      else Inl (TypeError ''expected string or bytes-like object''))"
proof (induction d)
  case (Cons x xs)
  show ?case
  proof (cases "x t")
    case (Some v)
    then show ?thesis using Cons.IH by (cases v) auto
  qed (simp add: Cons.IH)
qed simp

lemma http_send_live [simp]: "live_sessions (snd (http_send rq n)) = live_sessions n"
  by (simp add: http_send_def split: list.splits)

lemma http_send_Cons [simp]:
  "responses n = r # rs \<Longrightarrow> http_send rq n = (r, n\<lparr>responses := rs, sent := sent n @ [rq]\<rparr>)"
  by (simp add: http_send_def)

lemma http_send_Nil [simp]:
  "responses n = [] \<Longrightarrow> http_send rq n = (NetFail, n\<lparr>sent := sent n @ [rq]\<rparr>)"
  by (simp add: http_send_def)

lemma apply_filters_plain:
  assumes "re_plain m" and "list_all (field_is_str t) d"
  shows "apply_filters [(t, FStr m)] d = Inr (filter (\<lambda>x. x t = Some (JStr m)) d)"
proof -
  have "field_matches t (lit_regex m) = (\<lambda>x. x t = Some (JStr m))"
    by (auto simp: field_matches_def re_fullmatch_lit_regex fun_eq_iff
             split: option.splits jval.splits)
  with assms show ?thesis by (simp add: fval_compile_def filter_term_eq re_compile_plain)
qed

lemma api_list_clients_Inr:
  "api_list_clients f a n = (Inr dl, a', n') \<Longrightarrow> \<exists>d. apply_filters f d = Inr dl"
  by (auto simp: api_list_clients_def Let_def split: prod.splits response.splits resp_body.splits if_splits)

lemma apply_filters_field_present:
  "apply_filters [(t, v)] d = Inr dl \<Longrightarrow> x \<in> set dl \<Longrightarrow> x t \<noteq> None"
  by (auto simp: fval_compile_def filter_term_eq field_matches_def
      split: sum.splits if_splits option.splits jval.splits)

lemma api_login_sessions:
  "api_login a nt = (r, a1, nt1) \<Longrightarrow> \<not> authed a \<Longrightarrow>
   (live_sessions nt1 = live_sessions nt \<and> \<not> authed a1)
   \<or> (live_sessions nt1 = Suc (live_sessions nt) \<and> authed a1 \<and> r = Inr ())"
  by (auto simp: api_login_def api_post_login_def http_send_def Let_def
      split: list.splits response.splits if_splits)

lemma api_list_clients_sessions:
  "api_list_clients f a nt = (r, a1, nt1) \<Longrightarrow> live_sessions nt1 = live_sessions nt \<and> authed a1 = authed a"
  by (auto simp: api_list_clients_def http_send_def Let_def
      split: list.splits response.splits if_splits resp_body.splits)

lemma api_logout_sessions:
  "api_logout a nt = (r, a1, nt1) \<Longrightarrow>
   (r = Inr () \<and> live_sessions nt1 = live_sessions nt - (if authed a then 1 else 0))
   \<or> ((\<exists>e. r = Inl e) \<and> live_sessions nt1 = live_sessions nt)"
  by (auto simp: api_logout_def http_send_def split: list.splits response.splits)

text \<open>
  C3. \<^verbatim>\<open>list_clients\<close> with the filter \<open>{'mac': m}\<close>, for a hardware address
  \<open>m\<close> without metacharacters, on an accepted answer returns exactly the records of
  the client table whose \<open>mac\<close> equals \<open>m\<close>, in the controller's order: near-miss
  addresses are dropped (full-string matching, not substring search).
\<close>

theorem list_clients_mac_exact:
  assumes "responses n = Response st (JsonData d) # rs" and "st \<noteq> 401"
    and "re_plain m" and "list_all (field_is_str ''mac'') d"
  shows "fst (api_list_clients [(''mac'', FStr m)] a n) = Inr (filter (\<lambda>x. x ''mac'' = Some (JStr m)) d)"
  using assms apply_filters_plain [OF assms(3,4)]
  by (simp add: api_list_clients_def del: apply_filters.simps)

text \<open>
  C12. \<^verbatim>\<open>login\<close> raises only on status 400; every other answer of the controller
  (including 401, 403 or 500) is accepted silently.
\<close>

theorem api_login_status:
  "responses n = Response st b # rs \<Longrightarrow>
   fst (api_login a n) =
     (if st = 400 then Inl (LoggedInException ''Failed to log in to api with provided credentials'') else Inr ())"
  by (simp add: api_login_def api_post_login_def login_data_def Let_def)

text \<open>
  C16. The context manager that \<^verbatim>\<open>update\<close> does not use would close the session:
  run around \<^verbatim>\<open>list_clients\<close>, an expired session (401) after a successful login
  still raises, but \<^verbatim>\<open>__exit__\<close> logs out, so no controller session stays open.
\<close>

theorem api_with_closes_on_error:
  assumes "responses n = Response 200 b1 # Response 401 b2 # Response st3 b3 # rs"
  shows "\<exists>a' n'. api_with (api_list_clients f) (unifi_api_init u p s url) n =
            (Inl (LoggedInException ''Invalid login, or login has expired''), a', n')
          \<and> live_sessions n' = live_sessions n \<and> closed a'"
  using assms
  by (simp add: api_with_def api_login_def api_post_login_def login_data_def api_list_clients_def api_logout_def unifi_api_init_def)

text \<open>
  C20. Whatever characters the credentials contain (quotes, backslashes, control or
  non-ASCII characters), \<^verbatim>\<open>login\<close> sends one POST to \<^verbatim>\<open>/api/login\<close> without
  certificate verification whose body the controller decodes as the JSON object
  \<open>{"username": u, "password": p}\<close>, in that order: the credentials arrive unchanged.
\<close>

theorem login_sends_credentials:
  "\<exists>b. sent (snd (snd (api_login (unifi_api_init u p s url) n))) =
         sent n @ [\<lparr>rq_method = HPost, rq_url = url @ ''/api/login'', rq_body = RawBody b, rq_verify = False\<rparr>]
       \<and> json_loads_obj b = Some [(''username'', u), (''password'', p)]"
  by (simp add: api_login_def api_post_login_def login_data_def unifi_api_init_def http_send_def json_loads_dumps Let_def
      split: list.splits response.splits)

text \<open>
  C25. The filter loop of \<^verbatim>\<open>list_clients\<close>, which narrows the client list one
  filter term after the other, keeps exactly the records that satisfy every term at
  once (the field is present and fully matches the term's pattern), in the
  controller's order: when every term compiles and the filtered fields are strings,
  the loop equals a single pass with the conjunction of the terms.
\<close>

theorem apply_filters_conj:
  assumes "map (\<lambda>(t, v). fval_compile v) fs = map Inr rs"
    and "\<forall>x \<in> set d. \<forall>t \<in> set (map fst fs). field_is_str t x"
  shows "apply_filters fs d = Inr (filter (\<lambda>x. list_all (\<lambda>(t, r). field_matches t r x) (zip (map fst fs) rs)) d)"
  using assms
proof (induction fs arbitrary: rs d)
  case Nil
  then show ?case by simp
next
  case (Cons f fs)
  obtain t v where f: "f = (t, v)" by fastforce
  obtain r rs' where rs: "rs = r # rs'" and c: "fval_compile v = Inr r"
      and cs: "map (\<lambda>(t, v). fval_compile v) fs = map Inr rs'"
    using Cons.prems(1) f by (cases rs) auto
  have s: "list_all (field_is_str t) d" using Cons.prems(2) f by (simp add: list_all_iff)
  have "apply_filters fs (filter (field_matches t r) d) =
          Inr (filter (\<lambda>x. list_all (\<lambda>(t, r). field_matches t r x) (zip (map fst fs) rs')) (filter (field_matches t r) d))"
    using Cons.IH [OF cs] Cons.prems(2) by simp
  then show ?case using f rs c s by (simp add: filter_term_eq filter_filter conj_commute)
qed

theorem list_clients_mac_exact_witness:
  "fst (api_list_clients [(''mac'', FStr ''aa:bb:cc:dd:ee:ff'')] example_api
        \<lparr>responses = [Response 200 (JsonData [example_near_miss, example_phone])],
         sent = [], live_sessions = 1\<rparr>) = Inr [example_phone]"
proof -
  have "re_plain ''aa:bb:cc:dd:ee:ff''" by (simp add: re_plain_def)
  moreover have "list_all (field_is_str ''mac'') [example_near_miss, example_phone]"
    by (simp add: example_near_miss_def example_phone_def)
  ultimately show ?thesis
    using list_clients_mac_exact [of "\<lparr>responses = [Response 200 (JsonData [example_near_miss, example_phone])],
         sent = [], live_sessions = 1\<rparr>" 200 "[example_near_miss, example_phone]" "[]" "''aa:bb:cc:dd:ee:ff''" example_api]
    by (simp add: example_near_miss_def example_phone_def)
qed

theorem api_login_status_witness:
  "fst (api_login example_api \<lparr>responses = [Response 500 NotJson], sent = [], live_sessions = 0\<rparr>) = Inr ()"
  using api_login_status [of "\<lparr>responses = [Response 500 NotJson], sent = [], live_sessions = 0\<rparr>" 500 NotJson "[]" example_api]
  by simp


theorem api_with_closes_on_error_witness:
  "\<exists>a' n'. api_with (api_list_clients [(''mac'', FStr ''aa:bb:cc:dd:ee:ff'')]) example_api
            \<lparr>responses = [Response 200 NotJson, Response 401 NotJson, Response 200 NotJson],
             sent = [], live_sessions = 0\<rparr> =
            (Inl (LoggedInException ''Invalid login, or login has expired''), a', n')
          \<and> live_sessions n' = 0 \<and> closed a'"
  using api_with_closes_on_error [of "\<lparr>responses = [Response 200 NotJson, Response 401 NotJson, Response 200 NotJson],
             sent = [], live_sessions = 0\<rparr>" NotJson NotJson 200 NotJson "[]"
      "[(''mac'', FStr ''aa:bb:cc:dd:ee:ff'')]" "''admin''" "''secret''" "''default''" "''https://10.0.0.1:8443''"]
  by (simp add: example_api_def)

theorem apply_filters_conj_witness:
  "apply_filters [(''mac'', FPat (lit_regex ''aa:bb:cc:dd:ee:ff'')), (''hostname'', FPat (Times (Lit CHR ''p'') (Star AnyNL)))]
     [example_near_miss, example_phone] = Inr [example_phone]"
proof -
  have h: "re_fullmatch (Times (Lit CHR ''p'') (Star AnyNL)) ''phone''"
    "\<not> re_fullmatch (Times (Lit CHR ''p'') (Star AnyNL)) ''laptop''"
    by (simp_all add: re_fullmatch_def newline_def)
  show ?thesis
    using apply_filters_conj [of "[(''mac'', FPat (lit_regex ''aa:bb:cc:dd:ee:ff'')), (''hostname'', FPat (Times (Lit CHR ''p'') (Star AnyNL)))]"
        "[lit_regex ''aa:bb:cc:dd:ee:ff'', Times (Lit CHR ''p'') (Star AnyNL)]" "[example_near_miss, example_phone]"] h
    by (simp add: fval_compile_def example_near_miss_def example_phone_def field_is_str_def field_matches_def
        re_fullmatch_lit_regex del: apply_filters.simps)
qed

end
