(* ===== verification/UniFiNode.thy ===== *)
theory UniFiNode
  imports UnifiAPI
begin

text \<open>
  The presence tracker, class \<^verbatim>\<open>UniFiNode\<close> of \<^verbatim>\<open>src/unifi-presence-poly.py\<close>
  (lines 196--242). A node is the record \<open>node\<close>: its Polyglot address, the hardware
  address it tracks (\<^verbatim>\<open>macaddr\<close>, the configuration key), its name and the value of
  its only driver \<^verbatim>\<open>ST\<close> (1 on network, 0 off). The credentials are the module
  globals \<^verbatim>\<open>uc_user\<close>, \<^verbatim>\<open>uc_password\<close>, \<^verbatim>\<open>uc_ip\<close>, \<^verbatim>\<open>uc_port\<close> that
  \<^verbatim>\<open>Controller.check_params\<close> assigns; an unassigned global is \<open>None\<close> and reading
  it raises \<open>NameError\<close>. Operations take the node, the network and the list of
  messages sent to Polyglot, and return them updated.

  \<^verbatim>\<open>setDriver\<close> belongs to the \<^verbatim>\<open>polyinterface\<close> framework, not to this repository;
  it is modelled from the spec's reporting contract: the value is stored, and a status
  report is sent only when it differs from the stored one.
\<close>

section \<open>Nodes and drivers\<close>

record node =
  n_address :: string
  n_macaddr :: string
  n_name :: string
  n_st :: int

text \<open>
  The class attribute \<^verbatim>\<open>drivers\<close> of \<^verbatim>\<open>UniFiNode\<close>: each driver with its initial value
  and unit of measure; the framework starts a node's drivers at these values.
\<close>

definition unode_drivers :: "(string \<times> int \<times> int) list" where
  "unode_drivers = [(''ST'', 0, 2)]"

definition driver_init :: "(string \<times> int \<times> int) list \<Rightarrow> int" where
  "driver_init ds = fst (the (map_of ds ''ST''))"

declare unode_drivers_def [simp] driver_init_def [simp]

text \<open>\<^verbatim>\<open>UniFiNode(controller, primary, address, macaddr, name)\<close>: \<^verbatim>\<open>ST\<close> starts at its declared value.\<close>

definition new_unifi_node :: "string \<Rightarrow> string \<Rightarrow> string \<Rightarrow> node" where
  "new_unifi_node address macaddr name =
     \<lparr>n_address = address, n_macaddr = macaddr, n_name = name, n_st = driver_init unode_drivers\<rparr>"

definition set_driver_st :: "int \<Rightarrow> node \<Rightarrow> msg list \<Rightarrow> node \<times> msg list" where
  "set_driver_st v n ms =
     (if n_st n = v then (n, ms)
      else (n\<lparr>n_st := v\<rparr>, ms @ [Status (n_address n) ''ST'' v]))"

definition setOnNetwork :: "node \<Rightarrow> msg list \<Rightarrow> node \<times> msg list" where
  "setOnNetwork n ms = set_driver_st 1 n ms"

definition setOffNetwork :: "node \<Rightarrow> msg list \<Rightarrow> node \<times> msg list" where
  "setOffNetwork n ms = set_driver_st 0 n ms"

definition setOn :: "node \<Rightarrow> msg list \<Rightarrow> node \<times> msg list" where
  "setOn n ms = set_driver_st 1 n ms"

definition setOff :: "node \<Rightarrow> msg list \<Rightarrow> node \<times> msg list" where
  "setOff n ms = set_driver_st 0 n ms"

text \<open>\<^verbatim>\<open>reportDrivers\<close> (framework; \<^verbatim>\<open>query\<close> calls it): every driver is reported.\<close>

definition node_report_drivers :: "node \<Rightarrow> msg list \<Rightarrow> msg list" where
  "node_report_drivers n ms = ms @ [Status (n_address n) ''ST'' (n_st n)]"

text \<open>\<^verbatim>\<open>start\<close>, which the framework calls once Polyglot has created the node.\<close>

definition node_start :: "node \<Rightarrow> msg list \<Rightarrow> node \<times> msg list" where
  "node_start n ms = setOn n ms"

text \<open>
  The \<^verbatim>\<open>commands\<close> table (\<^verbatim>\<open>DON\<close>, \<^verbatim>\<open>DOF\<close>); a command not in it is ignored by the
  framework's dispatcher (\<open>None\<close>).
\<close>

definition node_command :: "string \<Rightarrow> node \<Rightarrow> msg list \<Rightarrow> (node \<times> msg list) option" where
  "node_command cmd n ms =
     (if cmd = ''DON'' then Some (setOn n ms)
      else if cmd = ''DOF'' then Some (setOff n ms) else None)"

section \<open>Polling one device\<close>

record creds =
  uc_user :: "string option"
  uc_password :: "string option"
  uc_ip :: "string option"
  uc_port :: "string option"

text \<open>
  The loop of \<^verbatim>\<open>update\<close> over the filtered client list: a record whose
  \<^verbatim>\<open>mac\<close> equals the node's reads \<^verbatim>\<open>hostname\<close> (raising \<open>KeyError\<close> when the field
  is missing); then, for every record, the presence of \<^verbatim>\<open>ap_mac\<close> sets the node on or
  off network.
\<close>

fun update_loop :: "node \<Rightarrow> pydict list \<Rightarrow> msg list \<Rightarrow> (py_error + unit) \<times> node \<times> msg list" where
  "update_loop n [] ms = (Inr (), n, ms)"
| "update_loop n (d # ds) ms =
     (case d ''mac'' of
        None \<Rightarrow> (Inl (KeyError ''mac''), n, ms)
      | Some m \<Rightarrow>
          (if m = JStr (n_macaddr n) \<and> d ''hostname'' = None
           then (Inl (KeyError ''hostname''), n, ms)
           else (case (if d ''ap_mac'' \<noteq> None then setOnNetwork n ms else setOffNetwork n ms) of
                   (n', ms') \<Rightarrow> update_loop n' ds ms')))"

text \<open>
  \<^verbatim>\<open>update\<close>: build the API object from the globals (in the order Python evaluates
  the arguments), \<^verbatim>\<open>login()\<close>, \<^verbatim>\<open>list_clients(filters={'mac': self.macaddr})\<close>,
  \<^verbatim>\<open>logout()\<close>, then the loop. The calls are not in a \<^verbatim>\<open>with\<close> block or a
  \<^verbatim>\<open>try/finally\<close>: an exception of \<^verbatim>\<open>list_clients\<close> skips \<^verbatim>\<open>logout()\<close>.
\<close>

definition unifi_update ::
  "creds \<Rightarrow> node \<Rightarrow> net \<Rightarrow> msg list \<Rightarrow> (py_error + unit) \<times> node \<times> net \<times> msg list" where
  "unifi_update c n nt ms =
     (case uc_user c of None \<Rightarrow> (Inl (NameError ''uc_user''), n, nt, ms) | Some u \<Rightarrow>
      case uc_password c of None \<Rightarrow> (Inl (NameError ''uc_password''), n, nt, ms) | Some p \<Rightarrow>
      case uc_ip c of None \<Rightarrow> (Inl (NameError ''uc_ip''), n, nt, ms) | Some ip \<Rightarrow>
      case uc_port c of None \<Rightarrow> (Inl (NameError ''uc_port''), n, nt, ms) | Some port \<Rightarrow>
      (case api_login (unifi_api_init u p ''default'' (''https://'' @ ip @ '':'' @ port)) nt of
         (Inl e, _, nt1) \<Rightarrow> (Inl e, n, nt1, ms)
       | (Inr _, a1, nt1) \<Rightarrow>
           (case api_list_clients [(''mac'', FStr (n_macaddr n))] a1 nt1 of
              (Inl e, _, nt2) \<Rightarrow> (Inl e, n, nt2, ms)
            | (Inr device_list, a2, nt2) \<Rightarrow>
                (case api_logout a2 nt2 of
                   (Inl e, _, nt3) \<Rightarrow> (Inl e, n, nt3, ms)
                 | (Inr _, _, nt3) \<Rightarrow>
                     (case update_loop n device_list ms of
                        (r, n', ms') \<Rightarrow> (r, n', nt3, ms'))))))"

abbreviation creds_all :: "string \<Rightarrow> string \<Rightarrow> string \<Rightarrow> string \<Rightarrow> creds" where
  "creds_all u p ip port \<equiv> \<lparr>uc_user = Some u, uc_password = Some p, uc_ip = Some ip, uc_port = Some port\<rparr>"

section \<open>Example data\<close>

definition example_node :: node where
  "example_node = new_unifi_node ''aabbccddeeff'' ''aa:bb:cc:dd:ee:ff'' ''Phone''"

definition example_net :: "pydict list \<Rightarrow> net" where
  "example_net d = \<lparr>responses = [Response 200 NotJson, Response 200 (JsonData d), Response 200 NotJson],
                    sent = [], live_sessions = 0\<rparr>"

section \<open>Lemmas\<close>

lemma unifi_update_cycle:
  assumes "responses nt = Response 200 b1 # Response st2 (JsonData d) # Response st3 b3 # rs"
    and "st2 \<noteq> 401" and "apply_filters [(''mac'', FStr (n_macaddr n))] d = Inr dl"
  shows "\<exists>nt'. unifi_update (creds_all u p ip port) n nt ms =
           (fst (update_loop n dl ms), fst (snd (update_loop n dl ms)), nt', snd (snd (update_loop n dl ms)))
         \<and> live_sessions nt' = live_sessions nt \<and> responses nt' = rs"
  using assms
  by (simp add: unifi_update_def api_login_def api_post_login_def login_data_def api_list_clients_def api_logout_def unifi_api_init_def
      split: prod.splits)

lemma filter_single_mac:
  "filter (\<lambda>x. x ''mac'' = Some (JStr m)) d = [x] \<Longrightarrow> x ''mac'' = Some (JStr m)"
proof -
  assume "filter (\<lambda>x. x ''mac'' = Some (JStr m)) d = [x]"
  then have "x \<in> set (filter (\<lambda>x. x ''mac'' = Some (JStr m)) d)" by simp
  then show ?thesis by simp
qed

lemma update_loop_present:
  assumes "x ''mac'' = Some (JStr (n_macaddr n))" and "x ''hostname'' \<noteq> None" and "x ''ap_mac'' \<noteq> None"
  shows "update_loop n [x] ms =
           (Inr (), n\<lparr>n_st := 1\<rparr>, ms @ (if n_st n = 1 then [] else [Status (n_address n) ''ST'' 1]))"
  using assms by (simp add: setOnNetwork_def set_driver_st_def)

text \<open>
  C1. One poll of a tracked device that the controller lists once, with an
  access-point association, over a network that answers every request: the node ends
  on network (\<open>ST = 1\<close>), a status report is sent exactly when the value changed,
  and the controller session opened by the login is closed again.
\<close>

theorem update_present:
  assumes "responses nt = Response 200 b1 # Response 200 (JsonData d) # Response st3 b3 # rs"
    and "re_plain (n_macaddr n)" and "list_all (field_is_str ''mac'') d"
    and "filter (\<lambda>x. x ''mac'' = Some (JStr (n_macaddr n))) d = [x]"
    and "x ''hostname'' \<noteq> None" and "x ''ap_mac'' \<noteq> None"
  shows "\<exists>nt'. unifi_update (creds_all u p ip port) n nt ms =
            (Inr (), n\<lparr>n_st := 1\<rparr>, nt', ms @ (if n_st n = 1 then [] else [Status (n_address n) ''ST'' 1]))
          \<and> live_sessions nt' = live_sessions nt \<and> responses nt' = rs"
proof -
  have f: "apply_filters [(''mac'', FStr (n_macaddr n))] d = Inr [x]"
    using apply_filters_plain [OF assms(2,3)] assms(4) by simp
  have "update_loop n [x] ms =
          (Inr (), n\<lparr>n_st := 1\<rparr>, ms @ (if n_st n = 1 then [] else [Status (n_address n) ''ST'' 1]))"
    using update_loop_present [OF filter_single_mac [OF assms(4)] assms(5,6)] .
  then show ?thesis using unifi_update_cycle [OF assms(1) _ f, of u p ip port ms] by simp
qed

text \<open>
  C6. When the client table has no record with the device's address, the poll
  leaves the node's state as it was and sends no report (the code does not set it
  off network, which the spec's policy asks for).
\<close>

theorem update_absent_keeps_state:
  assumes "responses nt = Response 200 b1 # Response 200 (JsonData d) # Response st3 b3 # rs"
    and "re_plain (n_macaddr n)" and "list_all (field_is_str ''mac'') d"
    and "\<forall>x \<in> set d. x ''mac'' \<noteq> Some (JStr (n_macaddr n))"
  shows "\<exists>nt'. unifi_update (creds_all u p ip port) n nt ms = (Inr (), n, nt', ms)
          \<and> live_sessions nt' = live_sessions nt \<and> responses nt' = rs"
proof -
  have "filter (\<lambda>x. x ''mac'' = Some (JStr (n_macaddr n))) d = []"
    using assms(4) by (simp add: filter_empty_conv)
  then have f: "apply_filters [(''mac'', FStr (n_macaddr n))] d = Inr []"
    using apply_filters_plain [OF assms(2,3)] by simp
  show ?thesis using unifi_update_cycle [OF assms(1) _ f, of u p ip port ms] by simp
qed

text \<open>
  C2. When \<^verbatim>\<open>list_clients\<close> answers 401 (session expired) after a successful
  login, the poll raises, leaves node and reports unchanged, and the controller session
  stays open: \<^verbatim>\<open>logout()\<close> is never called on this path.
\<close>

theorem update_expired_leaks_session:
  assumes "responses nt = Response 200 b1 # Response 401 b2 # rs"
  shows "\<exists>nt'. unifi_update (creds_all u p ip port) n nt ms =
            (Inl (LoggedInException ''Invalid login, or login has expired''), n, nt', ms)
          \<and> live_sessions nt' = Suc (live_sessions nt) \<and> responses nt' = rs"
  using assms
  by (simp add: unifi_update_def api_login_def api_post_login_def login_data_def api_list_clients_def unifi_api_init_def)

lemma update_loop_error:
  "\<forall>x \<in> set dl. x ''mac'' \<noteq> None \<Longrightarrow> update_loop n dl ms = (Inl e, n', ms') \<Longrightarrow> e = KeyError ''hostname''"
proof (induction dl arbitrary: n ms)
  case (Cons d ds)
  then show ?case
    by (auto simp: setOnNetwork_def setOffNetwork_def set_driver_st_def split: option.splits if_splits)
qed simp

lemma unifi_update_cases:
  "unifi_update c n nt ms = (r, n', nt', ms') \<Longrightarrow>
     (n' = n \<and> ms' = ms)
     \<or> (\<exists>d dl. apply_filters [(''mac'', FStr (n_macaddr n))] d = Inr dl \<and> update_loop n dl ms = (r, n', ms'))"
  unfolding unifi_update_def
  by (auto simp del: apply_filters.simps split: option.splits prod.splits sum.splits
      dest!: api_list_clients_Inr)

lemma unifi_update_sessions:
  "unifi_update cr n nt ms = (r, n', nt', ms') \<Longrightarrow>
   live_sessions nt' = live_sessions nt \<or> (live_sessions nt' = Suc (live_sessions nt) \<and> (\<exists>e. r = Inl e))"
  unfolding unifi_update_def
  by (auto simp: unifi_api_init_def split: option.splits prod.splits sum.splits if_splits
      dest!: api_login_sessions api_list_clients_sessions api_logout_sessions)

text \<open>
  C5. A poll that fails for any reason other than a matching record without a
  \<open>hostname\<close> field (missing credentials, login rejected, network failure, expired
  session, malformed answer, bad pattern) neither changes the node's state nor sends
  a report.
\<close>

theorem update_error_keeps_node:
  assumes "unifi_update c n nt ms = (Inl e, n', nt', ms')" and "e \<noteq> KeyError ''hostname''"
  shows "n' = n \<and> ms' = ms"
  using unifi_update_cases [OF assms(1)]
proof
  assume "\<exists>d dl. apply_filters [(''mac'', FStr (n_macaddr n))] d = Inr dl \<and> update_loop n dl ms = (Inl e, n', ms')"
  then obtain d dl where "apply_filters [(''mac'', FStr (n_macaddr n))] d = Inr dl"
    and "update_loop n dl ms = (Inl e, n', ms')" by blast
  with assms(2) show ?thesis using apply_filters_field_present update_loop_error by blast
qed simp



text \<open>
  C11. A poll sends exactly three requests, in order: the login POST with
  certificate verification off, then the client-table GET and the logout GET, both
  with certificate verification on, because \<^verbatim>\<open>verify\<close> is passed to
  \<^verbatim>\<open>str.format\<close> and not to \<^verbatim>\<open>get\<close>.
\<close>

theorem update_requests:
  assumes "responses nt = Response 200 b1 # Response st2 (JsonData d) # Response st3 b3 # rs"
    and "st2 \<noteq> 401" and "apply_filters [(''mac'', FStr (n_macaddr n))] d = Inr dl"
  shows "sent (fst (snd (snd (unifi_update (creds_all u p ip port) n nt ms)))) =
           sent nt @
           [\<lparr>rq_method = HPost, rq_url = ''https://'' @ ip @ '':'' @ port @ ''/api/login'',
             rq_body = RawBody (json_dumps_obj [(''username'', u), (''password'', p)]), rq_verify = False\<rparr>,
            \<lparr>rq_method = HGet, rq_url = ''https://'' @ ip @ '':'' @ port @ ''/api/s/default/stat/sta'',
             rq_body = RawBody ''json={}'', rq_verify = True\<rparr>,
            \<lparr>rq_method = HGet, rq_url = ''https://'' @ ip @ '':'' @ port @ ''/logout'',
             rq_body = NoBody, rq_verify = True\<rparr>]"
  using assms
  by (simp add: unifi_update_def api_login_def api_post_login_def login_data_def api_list_clients_def api_logout_def unifi_api_init_def
      split: prod.splits)

text \<open>
  C13. A matching record without a \<open>hostname\<close> field makes the poll raise
  \<open>KeyError\<close> before the presence is evaluated, even when the device is associated:
  the spec treats the hostname as optional.
\<close>

theorem update_missing_hostname:
  assumes "responses nt = Response 200 b1 # Response 200 (JsonData d) # Response st3 b3 # rs"
    and "re_plain (n_macaddr n)" and "list_all (field_is_str ''mac'') d"
    and "filter (\<lambda>x. x ''mac'' = Some (JStr (n_macaddr n))) d = [x]"
    and "x ''hostname'' = None"
  shows "\<exists>nt'. unifi_update (creds_all u p ip port) n nt ms = (Inl (KeyError ''hostname''), n, nt', ms)"
proof -
  have f: "apply_filters [(''mac'', FStr (n_macaddr n))] d = Inr [x]"
    using apply_filters_plain [OF assms(2,3)] assms(4) by simp
  have "update_loop n [x] ms = (Inl (KeyError ''hostname''), n, ms)"
    using filter_single_mac [OF assms(4)] assms(5) by simp
  then show ?thesis using unifi_update_cycle [OF assms(1) _ f, of u p ip port ms] by auto
qed

section \<open>Witnesses\<close>

lemma example_facts:
  "re_plain ''aa:bb:cc:dd:ee:ff''"
  "list_all (field_is_str ''mac'') [example_near_miss, example_phone]"
  "filter (\<lambda>x. x ''mac'' = Some (JStr ''aa:bb:cc:dd:ee:ff'')) [example_near_miss, example_phone] = [example_phone]"
  "filter (\<lambda>x. x ''mac'' = Some (JStr ''aa:bb:cc:dd:ee:ff'')) [example_near_miss] = []"
  by (simp_all add: re_plain_def example_near_miss_def example_phone_def)

theorem update_present_witness:
  "\<exists>nt'. unifi_update (creds_all ''admin'' ''secret'' ''10.0.0.1'' ''8443'') example_node
           (example_net [example_near_miss, example_phone]) [] =
         (Inr (), example_node\<lparr>n_st := 1\<rparr>, nt', [Status ''aabbccddeeff'' ''ST'' 1])
       \<and> live_sessions nt' = 0 \<and> responses nt' = []"
  using update_present [of "example_net [example_near_miss, example_phone]" NotJson
      "[example_near_miss, example_phone]" 200 NotJson "[]" example_node example_phone
      "''admin''" "''secret''" "''10.0.0.1''" "''8443''" "[]"] example_facts
  by (simp add: example_net_def example_node_def new_unifi_node_def example_phone_def)

theorem update_absent_keeps_state_witness:
  "\<exists>nt'. unifi_update (creds_all ''admin'' ''secret'' ''10.0.0.1'' ''8443'') (example_node\<lparr>n_st := 1\<rparr>)
           (example_net [example_near_miss]) [] = (Inr (), example_node\<lparr>n_st := 1\<rparr>, nt', [])
       \<and> live_sessions nt' = 0 \<and> responses nt' = []"
  using update_absent_keeps_state [of "example_net [example_near_miss]" NotJson "[example_near_miss]" 200 NotJson "[]"
      "example_node\<lparr>n_st := 1\<rparr>" "''admin''" "''secret''" "''10.0.0.1''" "''8443''" "[]"] example_facts
  by (simp add: example_net_def example_node_def new_unifi_node_def example_near_miss_def)

theorem update_expired_leaks_session_witness:
  "\<exists>nt'. unifi_update (creds_all ''admin'' ''secret'' ''10.0.0.1'' ''8443'') example_node
           \<lparr>responses = [Response 200 NotJson, Response 401 NotJson], sent = [], live_sessions = 0\<rparr> [] =
         (Inl (LoggedInException ''Invalid login, or login has expired''), example_node, nt', [])
       \<and> live_sessions nt' = 1 \<and> responses nt' = []"
  using update_expired_leaks_session [of "\<lparr>responses = [Response 200 NotJson, Response 401 NotJson], sent = [], live_sessions = 0\<rparr>"
      NotJson NotJson "[]" "''admin''" "''secret''" "''10.0.0.1''" "''8443''" example_node "[]"]
  by simp

theorem update_error_keeps_node_witness:
  "fst (snd (unifi_update (creds_all ''admin'' ''wrong'' ''10.0.0.1'' ''8443'') example_node
      \<lparr>responses = [Response 400 NotJson], sent = [], live_sessions = 0\<rparr> [])) = example_node
   \<and> snd (snd (snd (unifi_update (creds_all ''admin'' ''wrong'' ''10.0.0.1'' ''8443'') example_node
      \<lparr>responses = [Response 400 NotJson], sent = [], live_sessions = 0\<rparr> []))) = []"
proof -
  let ?r = "unifi_update (creds_all ''admin'' ''wrong'' ''10.0.0.1'' ''8443'') example_node
      \<lparr>responses = [Response 400 NotJson], sent = [], live_sessions = 0\<rparr> []"
  have e: "fst ?r = Inl (LoggedInException ''Failed to log in to api with provided credentials'')"
    by (simp add: unifi_update_def api_login_def api_post_login_def login_data_def unifi_api_init_def)
  obtain n' nt' ms' where "?r = (Inl (LoggedInException ''Failed to log in to api with provided credentials''), n', nt', ms')"
    using e by (cases ?r) auto
  with update_error_keeps_node [OF this] show ?thesis by simp
qed

theorem update_requests_witness:
  "sent (fst (snd (snd (unifi_update (creds_all ''admin'' ''secret'' ''10.0.0.1'' ''8443'') example_node
           (example_net [example_phone]) [])))) =
     [\<lparr>rq_method = HPost, rq_url = ''https://10.0.0.1:8443/api/login'',
       rq_body = RawBody (json_dumps_obj [(''username'', ''admin''), (''password'', ''secret'')]),
       rq_verify = False\<rparr>,
      \<lparr>rq_method = HGet, rq_url = ''https://10.0.0.1:8443/api/s/default/stat/sta'',
       rq_body = RawBody ''json={}'', rq_verify = True\<rparr>,
      \<lparr>rq_method = HGet, rq_url = ''https://10.0.0.1:8443/logout'',
       rq_body = NoBody, rq_verify = True\<rparr>]"
proof -
  have f: "apply_filters [(''mac'', FStr (n_macaddr example_node))] [example_phone] = Inr [example_phone]"
    using apply_filters_plain [of "''aa:bb:cc:dd:ee:ff''" "''mac''" "[example_phone]"] example_facts
    by (simp add: example_node_def new_unifi_node_def example_phone_def)
  show ?thesis
    using update_requests [of "example_net [example_phone]" NotJson 200 "[example_phone]" 200 NotJson "[]"
        example_node "[example_phone]" "''admin''" "''secret''" "''10.0.0.1''" "''8443''" "[]"] f
    by (simp add: example_net_def)
qed

theorem update_missing_hostname_witness:
  "\<exists>nt'. unifi_update (creds_all ''admin'' ''secret'' ''10.0.0.1'' ''8443'') example_node
           (example_net [example_phone(''hostname'' := None)]) [] =
         (Inl (KeyError ''hostname''), example_node, nt', [])"
proof -
  have h: "re_plain (n_macaddr example_node)"
    "list_all (field_is_str ''mac'') [example_phone(''hostname'' := None)]"
    "filter (\<lambda>x. x ''mac'' = Some (JStr (n_macaddr example_node))) [example_phone(''hostname'' := None)]
       = [example_phone(''hostname'' := None)]"
    "(example_phone(''hostname'' := None)) ''hostname'' = None"
    by (simp_all add: re_plain_def example_node_def new_unifi_node_def example_phone_def)
  show ?thesis
    using update_missing_hostname [of "example_net [example_phone(''hostname'' := None)]" NotJson
        "[example_phone(''hostname'' := None)]" 200 NotJson "[]" example_node
        "example_phone(''hostname'' := None)"] h
    by (simp add: example_net_def)
qed


end
