(* ===== verification/Controller.thy ===== *)
theory Controller
  imports UniFiNode
begin

text \<open>
  The node server's controller, class \<^verbatim>\<open>Controller\<close> of
  \<^verbatim>\<open>src/unifi-presence-poly.py\<close> (lines 20--150), and the scheduler that drives it.
  The state is the record \<open>ctrl\<close>: the controller's own fields (\<^verbatim>\<open>firstRun\<close>,
  \<^verbatim>\<open>hb\<close>, its driver \<^verbatim>\<open>ST\<close>), the framework's \<^verbatim>\<open>self.nodes\<close> dictionary (an
  association list in insertion order, holding the controller itself and the
  \<^verbatim>\<open>UniFiNode\<close>s), the configuration \<^verbatim>\<open>customParams\<close>, the module globals set by
  \<^verbatim>\<open>check_params\<close>, the notices, the network and the messages sent to Polyglot, and
  the exceptions the framework logged.

  The framework (\<^verbatim>\<open>polyinterface\<close>) is not part of the repository; its parts that the
  code calls are modelled from the spec: \<^verbatim>\<open>addNode\<close> stores the node under its
  address (replacing an existing entry in place) and asks Polyglot to create it,
  \<^verbatim>\<open>addNotice\<close> and \<^verbatim>\<open>removeNoticesAll\<close> edit the notices, \<^verbatim>\<open>removeNotice\<close>
  sends the removal of a notice by key, a handler's exception
  is logged and the next event is processed. The scheduler is the event type
  \<open>event\<close> and the step function \<open>ctrl_step\<close>; \<open>reachable\<close> is the set of states
  after \<^verbatim>\<open>start\<close> and any sequence of later events.
\<close>

section \<open>State\<close>

datatype pnode = CtrlNode | UNode node

record ctrl =
  c_address :: string
  nodes :: "(string \<times> pnode) list"
  first_run :: bool
  hb :: "int option"
  ctrl_st :: int
  custom_params :: "(string \<times> string) list"
  globals :: creds
  notices :: "string list"
  cnet :: net
  msgs :: "msg list"
  errors :: "py_error list"

text \<open>
  \<^verbatim>\<open>Controller.__init__\<close>: \<^verbatim>\<open>firstRun = True\<close>, \<^verbatim>\<open>hb\<close> not yet an attribute,
  \<^verbatim>\<open>ST\<close> at its value 1 declared in \<^verbatim>\<open>drivers\<close> (\<open>ctrl_drivers\<close>); the framework has put the controller in
  \<^verbatim>\<open>self.nodes\<close>; no global is assigned yet.
\<close>

definition ctrl_drivers :: "(string \<times> int \<times> int) list" where
  "ctrl_drivers = [(''ST'', 1, 2)]"

declare ctrl_drivers_def [simp]

definition ctrl_init :: "string \<Rightarrow> (string \<times> string) list \<Rightarrow> net \<Rightarrow> ctrl" where
  "ctrl_init addr params nt =
     \<lparr>c_address = addr, nodes = [(addr, CtrlNode)], first_run = True, hb = None,
      ctrl_st = driver_init ctrl_drivers,
      custom_params = params,
      globals = \<lparr>uc_user = None, uc_password = None, uc_ip = None, uc_port = None\<rparr>,
      notices = [], cnet = nt, msgs = [], errors = []\<rparr>"

section \<open>Framework services\<close>

definition add_notice :: "string \<Rightarrow> ctrl \<Rightarrow> ctrl" where
  "add_notice s c = c\<lparr>notices := notices c @ [s], msgs := msgs c @ [NoticeAdd s]\<rparr>"

definition remove_notices_all :: "ctrl \<Rightarrow> ctrl" where
  "remove_notices_all c = c\<lparr>notices := [], msgs := msgs c @ [NoticesClear]\<rparr>"

text \<open>
  \<^verbatim>\<open>removeNotice(key)\<close> sends the removal of the notice stored under \<open>key\<close>.
  The notices are kept without their keys; the ones this program adds get keys of
  the framework's choosing, so the list is left unchanged.
\<close>

definition remove_notice :: "string \<Rightarrow> ctrl \<Rightarrow> ctrl" where
  "remove_notice k c = c\<lparr>msgs := msgs c @ [NoticeRemove k]\<rparr>"

definition add_node :: "node \<Rightarrow> ctrl \<Rightarrow> ctrl" where
  "add_node n c =
     c\<lparr>nodes := AList.update (n_address n) (UNode n) (nodes c),
       msgs := msgs c @ [AddNodeMsg (n_address n) (n_name n)]\<rparr>"

definition ctrl_set_st :: "int \<Rightarrow> ctrl \<Rightarrow> ctrl" where
  "ctrl_set_st v c =
     (if ctrl_st c = v then c
      else c\<lparr>ctrl_st := v, msgs := msgs c @ [Status (c_address c) ''ST'' v]\<rparr>)"

section \<open>Controller operations\<close>

text \<open>
  \<^verbatim>\<open>heartbeat(init=False)\<close>: \<open>None\<close> is the default \<^verbatim>\<open>False\<close>; any other argument
  (\<^verbatim>\<open>start\<close> passes 0, and \<^verbatim>\<open>0 is not False\<close>) resets \<^verbatim>\<open>hb\<close>. Reading \<^verbatim>\<open>hb\<close>
  before it was ever set raises \<open>AttributeError\<close>.
\<close>

definition ctrl_heartbeat :: "int option \<Rightarrow> ctrl \<Rightarrow> (py_error + unit) \<times> ctrl" where
  "ctrl_heartbeat init c =
     (let c1 = (case init of None \<Rightarrow> c | Some v \<Rightarrow> c\<lparr>hb := Some v\<rparr>)
      in case hb c1 of
           None \<Rightarrow> (Inl (AttributeError ''hb''), c1)
         | Some h \<Rightarrow>
             (if h = 0
              then (Inr (), c1\<lparr>msgs := msgs c1 @ [Cmd (c_address c1) ''DON'' (Some 2)], hb := Some 1\<rparr>)
              else (Inr (), c1\<lparr>msgs := msgs c1 @ [Cmd (c_address c1) ''DOF'' (Some 2)], hb := Some 0\<rparr>)))"

definition missing_notice :: "string \<Rightarrow> string" where
  "missing_notice k =
     ''Please set proper '' @ [CHR 0x22] @ k @ [CHR 0x22] @
     '' key and value in the configuration page, then restart this nodeserver''"

text \<open>One \<^verbatim>\<open>if '<key>' in customParams\<close> block of \<^verbatim>\<open>check_params\<close>.\<close>

definition check_param :: "string \<Rightarrow> (string \<Rightarrow> creds \<Rightarrow> creds) \<Rightarrow> ctrl \<Rightarrow> ctrl" where
  "check_param k assign c =
     (case map_of (custom_params c) k of
        Some v \<Rightarrow> c\<lparr>globals := assign v (globals c)\<rparr>
      | None \<Rightarrow> add_notice (missing_notice k) c)"

definition check_params :: "ctrl \<Rightarrow> ctrl" where
  "check_params c =
     check_param ''uc_port'' (\<lambda>v g. g\<lparr>uc_port := Some v\<rparr>)
      (check_param ''uc_ip'' (\<lambda>v g. g\<lparr>uc_ip := Some v\<rparr>)
        (check_param ''uc_password'' (\<lambda>v g. g\<lparr>uc_password := Some v\<rparr>)
          (check_param ''uc_user'' (\<lambda>v g. g\<lparr>uc_user := Some v\<rparr>)
            (remove_notices_all c))))"

text \<open>
  \<^verbatim>\<open>discover\<close>: every configuration entry whose key contains a colon is a device;
  its node address is the key without colons, lower-cased; the key itself is the
  hardware address the node filters on, and the value its name.
\<close>

fun discover_params :: "(string \<times> string) list \<Rightarrow> ctrl \<Rightarrow> ctrl" where
  "discover_params [] c = c"
| "discover_params ((k, v) # ps) c =
     discover_params ps
       (if py_has_colon k then add_node (new_unifi_node (py_lower (py_remove_colons k)) k v) c else c)"

definition discover :: "ctrl \<Rightarrow> ctrl" where
  "discover c = discover_params (custom_params c) c"

definition ctrl_start :: "ctrl \<Rightarrow> (py_error + unit) \<times> ctrl" where
  "ctrl_start c =
     (case ctrl_heartbeat (Some 0) c of
        (Inl e, c1) \<Rightarrow> (Inl e, c1)
      | (Inr _, c1) \<Rightarrow> (Inr (), ctrl_set_st 1 (discover (check_params c1))))"

text \<open>\<^verbatim>\<open>query\<close>: \<^verbatim>\<open>reportDrivers\<close> of every node of \<^verbatim>\<open>self.nodes\<close>, in order.\<close>

fun report_all :: "(string \<times> pnode) list \<Rightarrow> ctrl \<Rightarrow> ctrl" where
  "report_all [] c = c"
| "report_all ((a, CtrlNode) # ns) c =
     report_all ns (c\<lparr>msgs := msgs c @ [Status (c_address c) ''ST'' (ctrl_st c)]\<rparr>)"
| "report_all ((a, UNode n) # ns) c = report_all ns (c\<lparr>msgs := node_report_drivers n (msgs c)\<rparr>)"

definition ctrl_query :: "ctrl \<Rightarrow> ctrl" where
  "ctrl_query c = report_all (nodes c) c"

text \<open>
  The loop of \<^verbatim>\<open>shortPoll\<close>: \<^verbatim>\<open>self.nodes[node].update()\<close> for every key, in
  order. \<^verbatim>\<open>Controller.update\<close> does nothing; a \<^verbatim>\<open>UniFiNode\<close> is updated in place.
  An exception leaves the loop, and the rest of \<^verbatim>\<open>shortPoll\<close>, at once.
\<close>

fun poll_nodes :: "string list \<Rightarrow> ctrl \<Rightarrow> (py_error + unit) \<times> ctrl" where
  "poll_nodes [] c = (Inr (), c)"
| "poll_nodes (a # as) c =
     (case map_of (nodes c) a of
        None \<Rightarrow> (Inl (KeyError a), c)
      | Some CtrlNode \<Rightarrow> poll_nodes as c
      | Some (UNode n) \<Rightarrow>
          (case unifi_update (globals c) n (cnet c) (msgs c) of
             (r, n', nt', ms') \<Rightarrow>
               (let c' = c\<lparr>nodes := AList.update a (UNode n') (nodes c), cnet := nt', msgs := ms'\<rparr>
                in case r of Inl e \<Rightarrow> (Inl e, c') | Inr _ \<Rightarrow> poll_nodes as c')))"

definition short_poll :: "ctrl \<Rightarrow> (py_error + unit) \<times> ctrl" where
  "short_poll c =
     (case poll_nodes (map fst (nodes c)) c of
        (Inl e, c') \<Rightarrow> (Inl e, c')
      | (Inr _, c') \<Rightarrow> (Inr (), if first_run c' then (ctrl_query c')\<lparr>first_run := False\<rparr> else c'))"

definition long_poll :: "ctrl \<Rightarrow> (py_error + unit) \<times> ctrl" where
  "long_poll c = ctrl_heartbeat None c"

text \<open>The \<^verbatim>\<open>commands\<close> table of the controller; other commands are ignored.\<close>

definition ctrl_command :: "string \<Rightarrow> ctrl \<Rightarrow> ctrl" where
  "ctrl_command cmd c =
     (if cmd = ''DISCOVER'' then discover c
      else if cmd = ''UPDATE_PROFILE'' then c\<lparr>msgs := msgs c @ [InstallProfile]\<rparr>
      else if cmd = ''REMOVE_NOTICES_ALL'' then remove_notices_all c
      else c)"

text \<open>
  \<^verbatim>\<open>remove_notice_test(command)\<close> removes the notice with key \<^verbatim>\<open>test\<close>. It is not
  in the \<^verbatim>\<open>commands\<close> table, so no event of the framework calls it.
\<close>

definition remove_notice_test :: "string \<Rightarrow> ctrl \<Rightarrow> ctrl" where
  "remove_notice_test command c = remove_notice ''test'' c"

text \<open>
  \<^verbatim>\<open>delete\<close> and \<^verbatim>\<open>stop\<close>, which the framework calls when Polyglot deletes the
  node server or stops it, only log; \<^verbatim>\<open>process_config\<close>, the callback registered
  with \<^verbatim>\<open>onConfig\<close>, does nothing.
\<close>

definition ctrl_delete :: "ctrl \<Rightarrow> ctrl" where
  "ctrl_delete c = c"

definition ctrl_stop :: "ctrl \<Rightarrow> ctrl" where
  "ctrl_stop c = c"

definition process_config :: "(string \<times> string) list \<Rightarrow> ctrl \<Rightarrow> ctrl" where
  "process_config cfg c = c"

section \<open>The scheduler\<close>

text \<open>
  The events the framework delivers: the start, the two poll timers, an on-demand
  query, a controller command, the start of a node Polyglot has created, a command
  sent to a node, and the deletion and stop of the node server. A change of the
  configuration is not an event of this type: the spec leaves reconfiguration out of
  scope, and \<open>ctrl_config\<close> below models what the framework does on one.
\<close>

datatype event =
    Start
  | ShortPoll
  | LongPoll
  | Query
  | Command string
  | NodeStart string
  | NodeCommand string string
  | Delete
  | Stop

definition log_result :: "(py_error + unit) \<times> ctrl \<Rightarrow> ctrl" where
  "log_result rc = (case rc of (Inl e, c) \<Rightarrow> c\<lparr>errors := errors c @ [e]\<rparr> | (Inr _, c) \<Rightarrow> c)"

definition with_unode :: "string \<Rightarrow> (node \<Rightarrow> msg list \<Rightarrow> (node \<times> msg list) option) \<Rightarrow> ctrl \<Rightarrow> ctrl" where
  "with_unode a f c =
     (case map_of (nodes c) a of
        Some (UNode n) \<Rightarrow>
          (case f n (msgs c) of
             Some (n', ms) \<Rightarrow> c\<lparr>nodes := AList.update a (UNode n') (nodes c), msgs := ms\<rparr>
           | None \<Rightarrow> c)
      | _ \<Rightarrow> c)"

fun ctrl_step :: "ctrl \<Rightarrow> event \<Rightarrow> ctrl" where
  "ctrl_step c Start = log_result (ctrl_start c)"
| "ctrl_step c ShortPoll = log_result (short_poll c)"
| "ctrl_step c LongPoll = log_result (long_poll c)"
| "ctrl_step c Query = ctrl_query c"
| "ctrl_step c (Command cmd) = ctrl_command cmd c"
| "ctrl_step c (NodeStart a) = with_unode a (\<lambda>n ms. Some (node_start n ms)) c"
| "ctrl_step c (NodeCommand a cmd) = with_unode a (node_command cmd) c"
| "ctrl_step c Delete = ctrl_delete c"
| "ctrl_step c Stop = ctrl_stop c"

fun ctrl_run :: "ctrl \<Rightarrow> event list \<Rightarrow> ctrl" where
  "ctrl_run c [] = c"
| "ctrl_run c (e # es) = ctrl_run (ctrl_step c e) es"

text \<open>
  A new configuration from Polyglot: the framework replaces \<^verbatim>\<open>polyConfig\<close> and calls
  the \<^verbatim>\<open>onConfig\<close> callbacks, here \<^verbatim>\<open>process_config\<close>.
\<close>

definition ctrl_config :: "(string \<times> string) list \<Rightarrow> ctrl \<Rightarrow> ctrl" where
  "ctrl_config ps c = process_config ps (c\<lparr>custom_params := ps\<rparr>)"

inductive reachable :: "ctrl \<Rightarrow> bool" where
  boot: "reachable (ctrl_step (ctrl_init addr params nt) Start)"
| step: "reachable c \<Longrightarrow> e \<noteq> Start \<Longrightarrow> reachable (ctrl_step c e)"

section \<open>Observations\<close>

text \<open>The heartbeat commands among the messages, in order.\<close>

fun pulses :: "msg list \<Rightarrow> string list" where
  "pulses [] = []"
| "pulses (Cmd a x v # ms) = x # pulses ms"
| "pulses (m # ms) = pulses ms"

fun pulses_alternate :: "bool \<Rightarrow> string list \<Rightarrow> bool" where
  "pulses_alternate b [] = True"
| "pulses_alternate b (x # xs) = (x = (if b then ''DON'' else ''DOF'') \<and> pulses_alternate (\<not> b) xs)"

section \<open>Invariant of the heartbeat\<close>

text \<open>
  A step is \<open>quiet\<close> when it leaves \<^verbatim>\<open>hb\<close>, the heartbeat commands already sent,
  the controller's address, the credentials and the configuration alone; \<open>hb_inv\<close> is
  the heartbeat invariant, \<open>params_creds\<close> the credentials \<^verbatim>\<open>check_params\<close> reads from
  a configuration.
\<close>

definition quiet :: "ctrl \<Rightarrow> ctrl \<Rightarrow> bool" where
  "quiet c c' \<longleftrightarrow>
     hb c' = hb c \<and> pulses (msgs c') = pulses (msgs c) \<and> c_address c' = c_address c
     \<and> globals c' = globals c \<and> custom_params c' = custom_params c"

definition hb_inv :: "ctrl \<Rightarrow> bool" where
  "hb_inv c \<longleftrightarrow> hb c = Some (int (length (pulses (msgs c)) mod 2)) \<and> pulses_alternate True (pulses (msgs c))"

definition params_creds :: "(string \<times> string) list \<Rightarrow> creds" where
  "params_creds ps =
     \<lparr>uc_user = map_of ps ''uc_user'', uc_password = map_of ps ''uc_password'',
      uc_ip = map_of ps ''uc_ip'', uc_port = map_of ps ''uc_port''\<rparr>"

text \<open>The shape of the node table that the framework keeps.\<close>

definition nodes_ok :: "(string \<times> pnode) list \<Rightarrow> bool" where
  "nodes_ok ns \<longleftrightarrow> distinct (map fst ns) \<and> (\<forall>a n. (a, UNode n) \<in> set ns \<longrightarrow> n_address n = a)"

section \<open>Lemmas\<close>

text \<open>The definitions a concrete run of the controller unfolds.\<close>

lemmas run_simps = ctrl_init_def ctrl_start_def ctrl_heartbeat_def log_result_def check_params_def
  check_param_def add_notice_def remove_notices_all_def discover_def ctrl_set_st_def
  missing_notice_def add_node_def new_unifi_node_def py_has_colon_def py_lower_def
  py_remove_colons_def lower_char_def is_upper_def short_poll_def ctrl_query_def
  node_report_drivers_def unifi_update_def api_login_def api_post_login_def login_data_def api_list_clients_def api_logout_def
  unifi_api_init_def http_send_def fval_compile_def re_compile_def re_fullmatch_def
  is_quant_def out_of_fragment_def seq_of_def setOnNetwork_def setOffNetwork_def set_driver_st_def


lemma log_only_handlers [simp]: "ctrl_delete c = c" "ctrl_stop c = c"
  by (simp_all add: ctrl_delete_def ctrl_stop_def)

lemma pulses_append [simp]: "pulses (xs @ ys) = pulses xs @ pulses ys"
  by (induction xs rule: pulses.induct) simp_all

lemma pulses_alternate_snoc:
  "pulses_alternate b (xs @ [x]) \<longleftrightarrow>
     pulses_alternate b xs \<and> x = (if even (length xs) = b then ''DON'' else ''DOF'')"
  by (induction xs arbitrary: b) auto

lemma quiet_refl [simp]: "quiet c c"
  by (simp add: quiet_def)

lemma quiet_trans: "quiet c c' \<Longrightarrow> quiet c' c'' \<Longrightarrow> quiet c c''"
  by (simp add: quiet_def)

lemma set_driver_st_pulses: "set_driver_st v n ms = (n', ms') \<Longrightarrow> pulses ms' = pulses ms"
  by (auto simp: set_driver_st_def split: if_splits)

lemma update_loop_pulses: "update_loop n dl ms = (r, n', ms') \<Longrightarrow> pulses ms' = pulses ms"
proof (induction dl arbitrary: n ms)
  case (Cons d ds)
  then show ?case
    by (auto simp: setOnNetwork_def setOffNetwork_def split: option.splits if_splits prod.splits
        dest!: set_driver_st_pulses)
qed simp

lemma unifi_update_pulses: "unifi_update cr n nt ms = (r, n', nt', ms') \<Longrightarrow> pulses ms' = pulses ms"
  by (auto dest!: unifi_update_cases update_loop_pulses)

lemma poll_nodes_quiet: "poll_nodes as c = (r, c') \<Longrightarrow> quiet c c'"
proof (induction as arbitrary: c)
  case (Cons a as)
  show ?case
  proof (cases "map_of (nodes c) a")
    case (Some p)
    show ?thesis
    proof (cases p)
      case CtrlNode
      with Some Cons show ?thesis by simp
    next
      case (UNode n)
      obtain r1 n1 nt1 ms1 where u: "unifi_update (globals c) n (cnet c) (msgs c) = (r1, n1, nt1, ms1)"
        by (cases "unifi_update (globals c) n (cnet c) (msgs c)") auto
      let ?c1 = "c\<lparr>nodes := AList.update a (UNode n1) (nodes c), cnet := nt1, msgs := ms1\<rparr>"
      have q1: "quiet c ?c1" using unifi_update_pulses [OF u] by (simp add: quiet_def)
      show ?thesis
      proof (cases r1)
        case (Inl e)
        with Cons.prems Some UNode u q1 show ?thesis by simp
      next
        case (Inr x)
        with Cons.prems Some UNode u have "poll_nodes as ?c1 = (r, c')" by simp
        with q1 Cons.IH show ?thesis by (blast intro: quiet_trans)
      qed
    qed
  qed (use Cons.prems in simp)
qed (simp)

lemma report_all_quiet: "quiet c (report_all ns c)"
  by (induction ns c rule: report_all.induct)
     (auto simp: quiet_def node_report_drivers_def intro: quiet_trans)

lemma discover_params_quiet: "quiet c (discover_params ps c)"
  by (induction ps c rule: discover_params.induct)
     (auto simp: quiet_def add_node_def intro: quiet_trans)



lemma remove_notices_all_quiet: "quiet c (remove_notices_all c)"
  by (simp add: quiet_def remove_notices_all_def)

lemma ctrl_set_st_quiet: "quiet c c' \<Longrightarrow> quiet c (ctrl_set_st v c')"
  by (simp add: quiet_def ctrl_set_st_def)

lemma ctrl_query_quiet: "quiet c (ctrl_query c)"
  by (simp add: ctrl_query_def report_all_quiet)

lemma discover_quiet: "quiet c (discover c)"
  by (simp add: discover_def discover_params_quiet)

lemma ctrl_command_quiet: "quiet c (ctrl_command cmd c)"
  by (simp add: ctrl_command_def discover_quiet remove_notices_all_quiet)
     (simp add: quiet_def)

lemma node_command_pulses: "node_command cmd n ms = Some (n', ms') \<Longrightarrow> pulses ms' = pulses ms"
  by (auto simp: node_command_def setOn_def setOff_def split: if_splits dest: set_driver_st_pulses)

lemma with_unode_quiet:
  "(\<And>n ms n' ms'. f n ms = Some (n', ms') \<Longrightarrow> pulses ms' = pulses ms) \<Longrightarrow> quiet c (with_unode a f c)"
  by (auto simp: with_unode_def quiet_def split: option.splits pnode.splits)



lemma short_poll_quiet: "short_poll c = (r, c') \<Longrightarrow> quiet c c'"
proof -
  assume sp: "short_poll c = (r, c')"
  obtain r1 c1 where p: "poll_nodes (map fst (nodes c)) c = (r1, c1)" by fastforce
  have q1: "quiet c c1" by (rule poll_nodes_quiet [OF p])
  have q2: "quiet c1 ((ctrl_query c1)\<lparr>first_run := False\<rparr>)"
    using ctrl_query_quiet [of c1] by (simp add: quiet_def)
  show ?thesis
    using sp p q1 q2 by (auto simp: short_poll_def split: sum.splits if_splits intro: quiet_trans)
qed

lemma log_result_quiet: "quiet c (snd rc) \<Longrightarrow> quiet c (log_result rc)"
  by (auto simp: log_result_def quiet_def split: prod.splits sum.splits)

lemma hb_inv_quiet: "hb_inv c \<Longrightarrow> quiet c c' \<Longrightarrow> hb_inv c'"
  by (simp add: hb_inv_def quiet_def)

lemma long_poll_hb_inv: "hb_inv c \<Longrightarrow> hb_inv (log_result (long_poll c))"
  by (auto simp: hb_inv_def long_poll_def ctrl_heartbeat_def log_result_def pulses_alternate_snoc
      odd_iff_mod_2_eq_one)



lemma check_param_hb_inv: "hb_inv c \<Longrightarrow> hb_inv (check_param k f c)"
  by (simp add: hb_inv_def check_param_def add_notice_def split: option.splits)

lemma check_params_hb_inv: "hb_inv c \<Longrightarrow> hb_inv (check_params c)"
proof -
  assume "hb_inv c"
  then have "hb_inv (remove_notices_all c)" using hb_inv_quiet remove_notices_all_quiet by blast
  then show ?thesis unfolding check_params_def by (intro check_param_hb_inv)
qed

lemma step_quiet: "e \<noteq> Start \<Longrightarrow> e \<noteq> LongPoll \<Longrightarrow> quiet c (ctrl_step c e)"
proof (cases e)
  case ShortPoll
  have "quiet c (log_result (short_poll c))"
    by (rule log_result_quiet) (metis prod.collapse short_poll_quiet)
  with ShortPoll show ?thesis by simp
next
  case (NodeStart a)
  have "quiet c (with_unode a (\<lambda>n ms. Some (node_start n ms)) c)"
    by (rule with_unode_quiet) (auto simp: node_start_def setOn_def dest: set_driver_st_pulses)
  with NodeStart show ?thesis by simp
next
  case (NodeCommand a cmd)
  have "quiet c (with_unode a (node_command cmd) c)"
    by (rule with_unode_quiet) (rule node_command_pulses)
  with NodeCommand show ?thesis by simp
qed (simp_all add: ctrl_query_quiet ctrl_command_quiet)

lemma step_hb_inv: "hb_inv c \<Longrightarrow> e \<noteq> Start \<Longrightarrow> hb_inv (ctrl_step c e)"
  by (cases "e = LongPoll") (auto intro: hb_inv_quiet step_quiet long_poll_hb_inv)

lemma ctrl_boot_eq:
  "ctrl_step (ctrl_init addr params nt) Start =
     ctrl_set_st 1 (discover (check_params ((ctrl_init addr params nt)\<lparr>hb := Some 1, msgs := [Cmd addr ''DON'' (Some 2)]\<rparr>)))"
  by (simp add: ctrl_start_def ctrl_heartbeat_def ctrl_init_def log_result_def)

lemma boot_hb_inv: "hb_inv (ctrl_step (ctrl_init addr params nt) Start)"
proof -
  let ?c1 = "(ctrl_init addr params nt)\<lparr>hb := Some 1, msgs := [Cmd addr ''DON'' (Some 2)]\<rparr>"
  have i: "hb_inv (check_params ?c1)" by (rule check_params_hb_inv) (simp add: hb_inv_def ctrl_init_def)
  have q: "quiet (check_params ?c1) (ctrl_set_st 1 (discover (check_params ?c1)))"
    by (intro ctrl_set_st_quiet discover_quiet)
  show ?thesis using hb_inv_quiet [OF i q] ctrl_boot_eq [of addr params nt] by simp
qed

text \<open>
  C7. In every state reachable from \<^verbatim>\<open>start\<close>, the liveness pulses sent so far
  alternate strictly \<open>DON\<close>, \<open>DOF\<close>, \<open>DON\<close>, \<dots>, starting with \<open>DON\<close>, and
  \<^verbatim>\<open>hb\<close> is the parity of their number, whatever device polls, commands and
  failures happened in between.
\<close>

theorem reachable_heartbeat:
  "reachable c \<Longrightarrow> hb c = Some (int (length (pulses (msgs c)) mod 2)) \<and> pulses_alternate True (pulses (msgs c))"
proof (induction rule: reachable.induct)
  case (boot addr params nt)
  show ?case using boot_hb_inv [of addr params nt] by (simp add: hb_inv_def)
next
  case (step c e)
  then show ?case using step_hb_inv [of c e] by (simp add: hb_inv_def)
qed


lemma poll_nodes_first_run: "poll_nodes as c = (r, c') \<Longrightarrow> first_run c' = first_run c"
proof (induction as arbitrary: c)
  case (Cons a as)
  then show ?case
    by (auto simp: Let_def split: option.splits pnode.splits prod.splits sum.splits)
qed simp

lemma report_all_first_run [simp]: "first_run (report_all ns c) = first_run c"
  by (induction ns c rule: report_all.induct) simp_all

text \<open>
  C8. The one-time snapshot flag \<^verbatim>\<open>firstRun\<close> is cleared by the first short poll
  that completes, and only by it: a short poll that raises (one device's failure)
  keeps it, so the snapshot is postponed to the next complete poll.
\<close>

theorem short_poll_first_run:
  "short_poll c = (r, c') \<Longrightarrow> first_run c' \<longleftrightarrow> first_run c \<and> r \<noteq> Inr ()"
  by (auto simp: short_poll_def ctrl_query_def split: prod.splits sum.splits if_splits
      dest!: poll_nodes_first_run)

lemma alist_update_set: "x \<in> set (AList.update k v al) \<Longrightarrow> x = (k, v) \<or> x \<in> set al"
  by (induction al) (auto split: if_splits)

lemma discover_params_new:
  "(a, UNode n) \<in> set (nodes (discover_params ps c)) \<Longrightarrow> (a, UNode n) \<notin> set (nodes c) \<Longrightarrow>
   a = n_address n \<and> a = py_lower (py_remove_colons (n_macaddr n)) \<and> py_has_colon (n_macaddr n)
   \<and> (n_macaddr n, n_name n) \<in> set ps \<and> n_st n = 0"
proof (induction ps c rule: discover_params.induct)
  case (2 k v ps c)
  show ?case
  proof (cases "(a, UNode n) \<in> set (nodes (if py_has_colon k then add_node (new_unifi_node (py_lower (py_remove_colons k)) k v) c else c))")
    case True
    with "2.prems"(2) show ?thesis
      by (auto simp: add_node_def new_unifi_node_def split: if_splits dest!: alist_update_set)
  next
    case False
    with "2.IH" "2.prems"(1) show ?thesis by auto
  qed
qed simp

text \<open>
  C9. Every node that \<^verbatim>\<open>discover\<close> adds comes from a configuration entry whose key
  contains a colon: it is stored under its own address, the key without colons in lower
  case; it filters on the key as written, is named by the value, and starts off
  network.
\<close>

theorem discover_nodes_sound:
  "(a, UNode n) \<in> set (nodes (discover c)) \<Longrightarrow> (a, UNode n) \<notin> set (nodes c) \<Longrightarrow>
   a = n_address n \<and> a = py_lower (py_remove_colons (n_macaddr n)) \<and> py_has_colon (n_macaddr n)
   \<and> (n_macaddr n, n_name n) \<in> set (custom_params c) \<and> n_st n = 0"
  unfolding discover_def by (rule discover_params_new)

lemma unifi_update_no_creds:
  "uc_user cr = None \<or> uc_password cr = None \<or> uc_ip cr = None \<or> uc_port cr = None \<Longrightarrow>
   \<exists>e. unifi_update cr n nt ms = (Inl e, n, nt, ms)"
  by (auto simp: unifi_update_def split: option.splits)

lemma report_all_cnet [simp]: "cnet (report_all ns c) = cnet c"
  by (induction ns c rule: report_all.induct) simp_all

lemma discover_params_cnet [simp]: "cnet (discover_params ps c) = cnet c"
  by (induction ps c rule: discover_params.induct) (simp_all add: add_node_def)

lemma discover_params_custom_params [simp]: "custom_params (discover_params ps c) = custom_params c"
  by (induction ps c rule: discover_params.induct) (simp_all add: add_node_def)

lemma with_unode_cnet [simp]: "cnet (with_unode a f c) = cnet c"
  by (auto simp: with_unode_def split: option.splits pnode.splits prod.splits)

lemma check_param_frame [simp]:
  "custom_params (check_param k f c) = custom_params c"
  "cnet (check_param k f c) = cnet c"
  "nodes (check_param k f c) = nodes c"
  "globals (check_param k f c) = (case map_of (custom_params c) k of Some v \<Rightarrow> f v (globals c) | None \<Rightarrow> globals c)"
  by (simp_all add: check_param_def add_notice_def split: option.splits)

lemma check_params_globals:
  "globals c = \<lparr>uc_user = None, uc_password = None, uc_ip = None, uc_port = None\<rparr> \<Longrightarrow>
   globals (check_params c) = params_creds (custom_params c) \<and> custom_params (check_params c) = custom_params c"
  by (simp add: check_params_def remove_notices_all_def params_creds_def option.case_eq_if)

lemma boot_frame:
  "custom_params (ctrl_step (ctrl_init addr params nt) Start) = params
   \<and> cnet (ctrl_step (ctrl_init addr params nt) Start) = nt"
  unfolding ctrl_boot_eq
  by (simp add: ctrl_set_st_def discover_def check_params_def remove_notices_all_def ctrl_init_def)

lemma step_config:
  "e \<noteq> Start \<Longrightarrow> globals (ctrl_step c e) = globals c \<and> custom_params (ctrl_step c e) = custom_params c"
proof (cases "e = LongPoll")
  case True
  then show ?thesis
    by (auto simp: long_poll_def ctrl_heartbeat_def log_result_def Let_def split: option.splits prod.splits sum.splits)
next
  case False
  assume "e \<noteq> Start"
  with False show ?thesis using step_quiet [of e c] by (simp add: quiet_def)
qed

lemma reachable_config: "reachable c \<Longrightarrow> globals c = params_creds (custom_params c)"
proof (induction rule: reachable.induct)
  case (boot addr params nt)
  let ?c1 = "(ctrl_init addr params nt)\<lparr>hb := Some 1, msgs := [Cmd addr ''DON'' (Some 2)]\<rparr>"
  have g: "globals (check_params ?c1) = params_creds params \<and> custom_params (check_params ?c1) = params"
    using check_params_globals [of ?c1] by (simp add: ctrl_init_def)
  have q: "quiet (check_params ?c1) (ctrl_set_st 1 (discover (check_params ?c1)))"
    by (intro ctrl_set_st_quiet discover_quiet)
  show ?case using g q ctrl_boot_eq [of addr params nt] by (simp add: quiet_def)
next
  case (step c e)
  then show ?case using step_config by simp
qed

lemma poll_nodes_no_creds:
  assumes "uc_user (globals c) = None \<or> uc_password (globals c) = None \<or> uc_ip (globals c) = None
           \<or> uc_port (globals c) = None"
  shows "cnet (snd (poll_nodes as c)) = cnet c"
  using assms
proof (induction as arbitrary: c)
  case (Cons a as)
  show ?case
  proof (cases "map_of (nodes c) a")
    case (Some p)
    show ?thesis
    proof (cases p)
      case (UNode n)
      obtain e where "unifi_update (globals c) n (cnet c) (msgs c) = (Inl e, n, cnet c, msgs c)"
        using unifi_update_no_creds [OF Cons.prems] by blast
      with Some UNode show ?thesis by simp
    qed (use Some Cons in simp)
  qed simp
qed simp

lemma short_poll_no_creds:
  assumes "uc_user (globals c) = None \<or> uc_password (globals c) = None \<or> uc_ip (globals c) = None
           \<or> uc_port (globals c) = None"
  shows "cnet (snd (short_poll c)) = cnet c"
proof -
  obtain r1 c1 where p: "poll_nodes (map fst (nodes c)) c = (r1, c1)" by fastforce
  have "cnet c1 = cnet c" using poll_nodes_no_creds [OF assms, of "map fst (nodes c)"] p by simp
  then show ?thesis using p by (simp add: short_poll_def ctrl_query_def split: sum.splits)
qed

lemma step_no_creds:
  assumes g: "uc_user (globals c) = None \<or> uc_password (globals c) = None \<or> uc_ip (globals c) = None
           \<or> uc_port (globals c) = None"
    and "e \<noteq> Start"
  shows "cnet (ctrl_step c e) = cnet c"
proof (cases e)
  case ShortPoll
  then show ?thesis using short_poll_no_creds [OF g]
    by (auto simp: log_result_def split: prod.splits sum.splits)
next
  case LongPoll
  then show ?thesis
    by (auto simp: long_poll_def ctrl_heartbeat_def log_result_def Let_def split: option.splits prod.splits sum.splits)
next
  case Query
  then show ?thesis by (simp add: ctrl_query_def)
next
  case (Command cmd)
  then show ?thesis by (simp add: ctrl_command_def discover_def remove_notices_all_def)
qed (use assms(2) in simp_all)

lemma reachable_missing_creds:
  assumes "reachable c"
    and "k \<in> set [''uc_user'', ''uc_password'', ''uc_ip'', ''uc_port'']" and "map_of (custom_params c) k = None"
  shows "uc_user (globals c) = None \<or> uc_password (globals c) = None \<or> uc_ip (globals c) = None
           \<or> uc_port (globals c) = None"
  using reachable_config [OF assms(1)] assms(2,3) by (auto simp: params_creds_def)

text \<open>
  C15. When the configuration lacks one of the four connection parameters,
  \<^verbatim>\<open>check_params\<close> leaves its global unassigned, every device poll stops at the
  \<open>NameError\<close> before building the API object, and no event after \<^verbatim>\<open>start\<close> ever
  sends a request or opens a controller session: the degraded, non-polling mode of the
  spec.
\<close>

theorem missing_config_no_requests:
  assumes "reachable c" and "e \<noteq> Start"
    and "k \<in> set [''uc_user'', ''uc_password'', ''uc_ip'', ''uc_port'']" and "map_of (custom_params c) k = None"
  shows "cnet (ctrl_step c e) = cnet c"
  using step_no_creds [OF reachable_missing_creds [OF assms(1,3,4)] assms(2)] .

lemma nodes_ok_update:
  assumes "nodes_ok ns" and "map_of ns a = Some (UNode n)" and "n_address n' = n_address n"
  shows "nodes_ok (AList.update a (UNode n') ns)"
proof -
  have "(a, UNode n) \<in> set ns" using assms(2) by (rule map_of_SomeD)
  then have "n_address n = a" using assms(1) by (simp add: nodes_ok_def)
  then show ?thesis using assms(1,3)
    by (auto simp: nodes_ok_def distinct_update dest!: alist_update_set)
qed

lemma nodes_ok_add_node: "nodes_ok (nodes c) \<Longrightarrow> nodes_ok (nodes (add_node n c))"
  by (auto simp: nodes_ok_def add_node_def distinct_update dest!: alist_update_set)

lemma report_all_nodes [simp]: "nodes (report_all ns c) = nodes c"
  by (induction ns c rule: report_all.induct) simp_all

section \<open>Witnesses\<close>

theorem reachable_heartbeat_witness:
  "hb (ctrl_step (ctrl_step (ctrl_init ''controller'' [] \<lparr>responses = [], sent = [], live_sessions = 0\<rparr>) Start) LongPoll)
     = Some 0
   \<and> pulses_alternate True
       (pulses (msgs (ctrl_step (ctrl_step (ctrl_init ''controller'' [] \<lparr>responses = [], sent = [], live_sessions = 0\<rparr>) Start) LongPoll)))"
proof -
  let ?c = "ctrl_step (ctrl_step (ctrl_init ''controller'' [] \<lparr>responses = [], sent = [], live_sessions = 0\<rparr>) Start) LongPoll"
  have r: "reachable ?c" by (rule reachable.step [OF reachable.boot]) simp
  have "pulses (msgs ?c) = [''DON'', ''DOF'']"
    by (simp add: ctrl_init_def ctrl_start_def ctrl_heartbeat_def log_result_def check_params_def
        check_param_def add_notice_def remove_notices_all_def discover_def ctrl_set_st_def
        long_poll_def missing_notice_def)
  then show ?thesis using reachable_heartbeat [OF r] by simp
qed


theorem short_poll_first_run_witness:
  "\<not> first_run (snd (short_poll (ctrl_init ''controller'' [] \<lparr>responses = [], sent = [], live_sessions = 0\<rparr>)))"
proof -
  let ?c = "ctrl_init ''controller'' [] \<lparr>responses = [], sent = [], live_sessions = 0\<rparr>"
  have "short_poll ?c = (Inr (), snd (short_poll ?c))"
    by (simp add: short_poll_def ctrl_init_def)
  then show ?thesis using short_poll_first_run [of ?c "Inr ()" "snd (short_poll ?c)"] by simp
qed

theorem discover_nodes_sound_witness:
  "(''aabbccddeeff'', UNode (new_unifi_node ''aabbccddeeff'' ''aa:bb:cc:dd:ee:ff'' ''Phone''))
      \<in> set (nodes (discover (ctrl_init ''controller'' [(''aa:bb:cc:dd:ee:ff'', ''Phone'')]
                                 \<lparr>responses = [], sent = [], live_sessions = 0\<rparr>)))
   \<and> (''aa:bb:cc:dd:ee:ff'', ''Phone'') \<in> set [(''aa:bb:cc:dd:ee:ff'', ''Phone'')]"
proof -
  let ?c = "ctrl_init ''controller'' [(''aa:bb:cc:dd:ee:ff'', ''Phone'')] \<lparr>responses = [], sent = [], live_sessions = 0\<rparr>"
  let ?n = "new_unifi_node ''aabbccddeeff'' ''aa:bb:cc:dd:ee:ff'' ''Phone''"
  have i: "(''aabbccddeeff'', UNode ?n) \<in> set (nodes (discover ?c))"
    by (simp add: discover_def ctrl_init_def add_node_def py_has_colon_def py_lower_def
        py_remove_colons_def lower_char_def is_upper_def new_unifi_node_def)
  have o: "(''aabbccddeeff'', UNode ?n) \<notin> set (nodes ?c)" by (simp add: ctrl_init_def)
  show ?thesis using discover_nodes_sound [OF i o] i by (simp add: ctrl_init_def new_unifi_node_def)
qed


theorem missing_config_no_requests_witness:
  "cnet (ctrl_step (ctrl_step (ctrl_init ''controller'' [(''aa:bb:cc:dd:ee:ff'', ''Phone'')]
           \<lparr>responses = [Response 200 NotJson], sent = [], live_sessions = 0\<rparr>) Start) ShortPoll)
   = \<lparr>responses = [Response 200 NotJson], sent = [], live_sessions = 0\<rparr>"
proof -
  let ?c = "ctrl_step (ctrl_init ''controller'' [(''aa:bb:cc:dd:ee:ff'', ''Phone'')]
           \<lparr>responses = [Response 200 NotJson], sent = [], live_sessions = 0\<rparr>) Start"
  have r: "reachable ?c" by (rule reachable.boot)
  have f: "custom_params ?c = [(''aa:bb:cc:dd:ee:ff'', ''Phone'')]
           \<and> cnet ?c = \<lparr>responses = [Response 200 NotJson], sent = [], live_sessions = 0\<rparr>"
    by (rule boot_frame)
  have k: "map_of (custom_params ?c) ''uc_user'' = None" using f by simp
  show ?thesis
    using missing_config_no_requests [OF r _ _ k, of ShortPoll] f by simp
qed


end
