(* ===== verification/Polling.thy ===== *)
theory Polling
  imports Controller
begin

text \<open>
  Sequences of events on the controller: the spec's properties of poll sequences,
  sessions over whole runs, snapshots, a failing device, rediscovery. Repeated polling: the scheduler's
  short-poll timer fires again and again (\<open>ctrl_run\<close> over \<open>ShortPoll\<close> events) on a
  controller that tracks one device, and the controller answers every poll the same
  way. \<open>poll_answers d\<close> is the controller's answers to one \<^verbatim>\<open>update\<close>: the login, the
  client table \<open>d\<close> and the logout. The results are stated for any number of polls,
  by induction on it, over a state after the first poll (the one-time snapshot done).
\<close>

section \<open>Answers of the controller and example state\<close>

definition poll_answers :: "pydict list \<Rightarrow> response list" where
  "poll_answers d = [Response 200 NotJson, Response 200 (JsonData d), Response 200 NotJson]"

definition example_ctrl :: "response list \<Rightarrow> ctrl" where
  "example_ctrl rs =
     \<lparr>c_address = ''controller'', nodes = [(''controller'', CtrlNode), (''aabbccddeeff'', UNode example_node)],
      first_run = False, hb = Some 1, ctrl_st = 1, custom_params = [],
      globals = creds_all ''admin'' ''secret'' ''10.0.0.1'' ''8443'', notices = [],
      cnet = \<lparr>responses = rs, sent = [], live_sessions = 0\<rparr>, msgs = [], errors = []\<rparr>"

text \<open>
  The snapshot that \<^verbatim>\<open>query\<close> sends (the spec's \<open>ReportAll\<close>): one \<^verbatim>\<open>ST\<close>
  report per entry of the node table, in its order.
\<close>

fun snapshot :: "(string \<times> pnode) list \<Rightarrow> ctrl \<Rightarrow> msg list" where
  "snapshot [] c = []"
| "snapshot ((a, CtrlNode) # ns) c = Status (c_address c) ''ST'' (ctrl_st c) # snapshot ns c"
| "snapshot ((a, UNode n) # ns) c = Status (n_address n) ''ST'' (n_st n) # snapshot ns c"

section \<open>One poll and a fixed point\<close>

lemma short_poll_single:
  assumes "nodes c = [(ca, CtrlNode), (a, UNode n)]" and "ca \<noteq> a" and "\<not> first_run c"
    and "globals c = creds_all u p ip port"
    and "responses (cnet c) = poll_answers d @ rs"
    and "apply_filters [(''mac'', FStr (n_macaddr n))] d = Inr dl"
    and "update_loop n dl (msgs c) = (Inr (), n', ms')"
  shows "\<exists>nt'. ctrl_step c ShortPoll = c\<lparr>nodes := [(ca, CtrlNode), (a, UNode n')], cnet := nt', msgs := ms'\<rparr>
           \<and> live_sessions nt' = live_sessions (cnet c) \<and> responses nt' = rs"
proof -
  obtain nt' where u: "unifi_update (creds_all u p ip port) n (cnet c) (msgs c) = (Inr (), n', nt', ms')"
      and l: "live_sessions nt' = live_sessions (cnet c)" and r: "responses nt' = rs"
    using unifi_update_cycle [of "cnet c" "NotJson" 200 d 200 NotJson rs n dl u p ip port "msgs c"] assms(5,6,7)
    by (auto simp: poll_answers_def)
  have "ctrl_step c ShortPoll = c\<lparr>nodes := [(ca, CtrlNode), (a, UNode n')], cnet := nt', msgs := ms'\<rparr>"
    using assms(1-4) u by (simp add: short_poll_def log_result_def)
  then show ?thesis using l r by blast
qed

lemma short_polls_fixed:
  assumes "nodes c = [(ca, CtrlNode), (a, UNode n)]" and "ca \<noteq> a" and "\<not> first_run c"
    and "globals c = creds_all u p ip port"
    and "responses (cnet c) = concat (replicate k (poll_answers d)) @ rs"
    and "apply_filters [(''mac'', FStr (n_macaddr n))] d = Inr dl"
    and "\<And>ms. update_loop n dl ms = (Inr (), n, ms)"
  shows "\<exists>nt'. ctrl_run c (replicate k ShortPoll) = c\<lparr>cnet := nt'\<rparr>
           \<and> live_sessions nt' = live_sessions (cnet c) \<and> responses nt' = rs"
  using assms(1,3,4,5)
proof (induction k arbitrary: c)
  case 0
  then show ?case by (intro exI [of _ "cnet c"]) simp
next
  case (Suc k)
  obtain nt1 where s: "ctrl_step c ShortPoll = c\<lparr>nodes := [(ca, CtrlNode), (a, UNode n)], cnet := nt1, msgs := msgs c\<rparr>"
      and l1: "live_sessions nt1 = live_sessions (cnet c)"
      and r1: "responses nt1 = concat (replicate k (poll_answers d)) @ rs"
    using short_poll_single [OF Suc.prems(1) assms(2) Suc.prems(2,3) _ assms(6) assms(7)] Suc.prems(4)
    by fastforce
  let ?c1 = "c\<lparr>cnet := nt1\<rparr>"
  have "ctrl_step c ShortPoll = ?c1" using s Suc.prems(1) by simp
  moreover obtain nt' where "ctrl_run ?c1 (replicate k ShortPoll) = ?c1\<lparr>cnet := nt'\<rparr>"
      and "live_sessions nt' = live_sessions nt1" and "responses nt' = rs"
    using Suc.IH [of ?c1] Suc.prems r1 by auto
  ultimately show ?case using l1 by auto
qed

section \<open>Convergence\<close>

text \<open>
  C21. If the device's address is in the controller's client table with an
  access-point association at every poll, then after any positive number of polls the
  device is on network and stays so, every controller session opened was closed, and
  the only message sent is one status report, when the device was off network before
  the first poll: the state changed event fires exactly once.
\<close>

theorem polls_converge_on_network:
  assumes "nodes c = [(ca, CtrlNode), (a, UNode n)]" and "ca \<noteq> a" and "\<not> first_run c"
    and "globals c = creds_all u p ip port"
    and "responses (cnet c) = concat (replicate k (poll_answers d)) @ rs" and "0 < k"
    and "re_plain (n_macaddr n)" and "list_all (field_is_str ''mac'') d"
    and "filter (\<lambda>x. x ''mac'' = Some (JStr (n_macaddr n))) d = [x]"
    and "x ''hostname'' \<noteq> None" and "x ''ap_mac'' \<noteq> None"
  shows "\<exists>nt'. ctrl_run c (replicate k ShortPoll) =
            c\<lparr>nodes := [(ca, CtrlNode), (a, UNode (n\<lparr>n_st := 1\<rparr>))], cnet := nt',
              msgs := msgs c @ (if n_st n = 1 then [] else [Status (n_address n) ''ST'' 1])\<rparr>
          \<and> live_sessions nt' = live_sessions (cnet c) \<and> responses nt' = rs"
proof -
  obtain k' where k: "k = Suc k'" using assms(6) by (cases k) auto
  have f: "apply_filters [(''mac'', FStr (n_macaddr n))] d = Inr [x]"
    using apply_filters_plain [OF assms(7,8)] assms(9) by simp
  have m: "x ''mac'' = Some (JStr (n_macaddr n))" using assms(9) by (rule filter_single_mac)
  let ?n1 = "n\<lparr>n_st := 1\<rparr>"
  let ?ms1 = "msgs c @ (if n_st n = 1 then [] else [Status (n_address n) ''ST'' 1])"
  obtain nt1 where s: "ctrl_step c ShortPoll = c\<lparr>nodes := [(ca, CtrlNode), (a, UNode ?n1)], cnet := nt1, msgs := ?ms1\<rparr>"
      and l1: "live_sessions nt1 = live_sessions (cnet c)"
      and r1: "responses nt1 = concat (replicate k' (poll_answers d)) @ rs"
    using short_poll_single [OF assms(1,2,3,4) _ f update_loop_present [OF m assms(10,11)]] assms(5) k
    by fastforce
  let ?c1 = "c\<lparr>nodes := [(ca, CtrlNode), (a, UNode ?n1)], cnet := nt1, msgs := ?ms1\<rparr>"
  have fix1: "\<And>ms. update_loop ?n1 [x] ms = (Inr (), ?n1, ms)"
    using update_loop_present [of x ?n1] m assms(10,11) by simp
  obtain nt' where "ctrl_run ?c1 (replicate k' ShortPoll) = ?c1\<lparr>cnet := nt'\<rparr>"
      and "live_sessions nt' = live_sessions nt1" and "responses nt' = rs"
    using short_polls_fixed [of ?c1 ca a ?n1 u p ip port k' d rs "[x]"] assms(2,3,4) r1 f fix1 by auto
  then show ?thesis using s l1 k by (intro exI [of _ nt']) simp
qed

text \<open>
  C22. If the device's address never appears in the client table, any number of
  polls leaves the node table, the state and the messages exactly as they were: a
  device off network stays off and no event is ever sent. (A device that was on
  network also stays on, as C6 records.)
\<close>

theorem polls_absent_no_events:
  assumes "nodes c = [(ca, CtrlNode), (a, UNode n)]" and "ca \<noteq> a" and "\<not> first_run c"
    and "globals c = creds_all u p ip port"
    and "responses (cnet c) = concat (replicate k (poll_answers d)) @ rs"
    and "re_plain (n_macaddr n)" and "list_all (field_is_str ''mac'') d"
    and "\<forall>x \<in> set d. x ''mac'' \<noteq> Some (JStr (n_macaddr n))"
  shows "\<exists>nt'. ctrl_run c (replicate k ShortPoll) = c\<lparr>cnet := nt'\<rparr>
          \<and> live_sessions nt' = live_sessions (cnet c) \<and> responses nt' = rs"
proof -
  have "filter (\<lambda>x. x ''mac'' = Some (JStr (n_macaddr n))) d = []"
    using assms(8) by (simp add: filter_empty_conv)
  then have f: "apply_filters [(''mac'', FStr (n_macaddr n))] d = Inr []"
    using apply_filters_plain [OF assms(6,7)] by simp
  show ?thesis using short_polls_fixed [OF assms(1-5) f] by simp
qed

section \<open>Sessions\<close>

lemma poll_nodes_sessions:
  "poll_nodes as c = (r, c') \<Longrightarrow> errors c' = errors c \<and>
   (live_sessions (cnet c') = live_sessions (cnet c)
    \<or> (live_sessions (cnet c') = Suc (live_sessions (cnet c)) \<and> (\<exists>e. r = Inl e)))"
proof (induction as arbitrary: c)
  case (Cons a as)
  show ?case
  proof (cases "map_of (nodes c) a")
    case (Some p)
    show ?thesis
    proof (cases p)
      case (UNode n)
      obtain r1 n1 nt1 ms1 where u: "unifi_update (globals c) n (cnet c) (msgs c) = (r1, n1, nt1, ms1)"
        by (cases "unifi_update (globals c) n (cnet c) (msgs c)") auto
      let ?c1 = "c\<lparr>nodes := AList.update a (UNode n1) (nodes c), cnet := nt1, msgs := ms1\<rparr>"
      have s1: "live_sessions nt1 = live_sessions (cnet c) \<or> (live_sessions nt1 = Suc (live_sessions (cnet c)) \<and> (\<exists>e. r1 = Inl e))"
        by (rule unifi_update_sessions [OF u])
      show ?thesis
      proof (cases r1)
        case (Inl e)
        with Cons.prems Some UNode u s1 show ?thesis by auto
      next
        case (Inr x)
        with Cons.prems Some UNode u have "poll_nodes as ?c1 = (r, c')" by simp
        with Cons.IH [of ?c1] s1 Inr show ?thesis by auto
      qed
    qed (use Some Cons in simp)
  qed (use Cons.prems in simp)
qed simp

lemma report_all_errors [simp]: "errors (report_all ns c) = errors c"
  by (induction ns c rule: report_all.induct) simp_all

lemma discover_params_errors [simp]: "errors (discover_params ps c) = errors c"
  by (induction ps c rule: discover_params.induct) (simp_all add: add_node_def)

lemma check_param_errors [simp]: "errors (check_param k f c) = errors c"
  by (simp add: check_param_def add_notice_def split: option.splits)

lemma with_unode_errors [simp]: "errors (with_unode a g c) = errors c"
  by (simp add: with_unode_def split: option.splits pnode.splits prod.splits)

lemma short_poll_sessions:
  "short_poll c = (r, c') \<Longrightarrow> errors c' = errors c \<and>
   (live_sessions (cnet c') = live_sessions (cnet c)
    \<or> (live_sessions (cnet c') = Suc (live_sessions (cnet c)) \<and> (\<exists>e. r = Inl e)))"
  by (auto simp: short_poll_def ctrl_query_def split: prod.splits sum.splits if_splits
      dest!: poll_nodes_sessions)

lemma ctrl_start_frame: "cnet (snd (ctrl_start c)) = cnet c \<and> errors (snd (ctrl_start c)) = errors c"
  by (simp add: ctrl_start_def ctrl_heartbeat_def check_params_def remove_notices_all_def discover_def
      ctrl_set_st_def Let_def split: option.splits prod.splits sum.splits)

lemma step_sessions:
  "length (errors c) \<le> length (errors (ctrl_step c e))
   \<and> live_sessions (cnet (ctrl_step c e)) \<le> live_sessions (cnet c) + (length (errors (ctrl_step c e)) - length (errors c))"
proof (cases e)
  case Start
  then show ?thesis using ctrl_start_frame [of c]
    by (auto simp: log_result_def split: prod.splits sum.splits)
next
  case ShortPoll
  obtain r c' where sp: "short_poll c = (r, c')" by fastforce
  then show ?thesis using ShortPoll short_poll_sessions [OF sp]
    by (auto simp: log_result_def split: sum.splits)
next
  case LongPoll
  then show ?thesis
    by (auto simp: long_poll_def ctrl_heartbeat_def log_result_def Let_def split: option.splits prod.splits sum.splits)
next
  case (Command cmd)
  then show ?thesis by (simp add: ctrl_command_def discover_def remove_notices_all_def)
qed (simp_all add: ctrl_query_def)

text \<open>
  C28. In any run, from any state, the number of open controller sessions grows by at
  most the number of exceptions the framework logged: a poll leaks at most one
  session (\<^verbatim>\<open>update\<close> skips \<^verbatim>\<open>logout\<close> when \<^verbatim>\<open>list_clients\<close> raises), a
  leaking poll always raises, and \<^verbatim>\<open>shortPoll\<close> stops at the first exception; so a
  leak is never silent and a run without logged exceptions leaks no session.
\<close>

theorem run_sessions_bounded:
  "live_sessions (cnet (ctrl_run c es)) \<le> live_sessions (cnet c) + (length (errors (ctrl_run c es)) - length (errors c))
   \<and> length (errors c) \<le> length (errors (ctrl_run c es))"
proof (induction es arbitrary: c)
  case (Cons e es)
  have "length (errors c) \<le> length (errors (ctrl_step c e))
   \<and> live_sessions (cnet (ctrl_step c e)) \<le> live_sessions (cnet c) + (length (errors (ctrl_step c e)) - length (errors c))"
    by (rule step_sessions)
  with Cons.IH [of "ctrl_step c e"] show ?case by auto
qed simp

section \<open>Snapshots\<close>

lemma snapshot_msgs [simp]: "snapshot ns (c\<lparr>msgs := ms\<rparr>) = snapshot ns c"
  by (induction ns c rule: snapshot.induct) simp_all

lemma report_all_snapshot: "report_all ns c = c\<lparr>msgs := msgs c @ snapshot ns c\<rparr>"
  by (induction ns c rule: report_all.induct) (simp_all add: node_report_drivers_def)

text \<open>
  C29. Two on-demand queries in a row, with no state change in between, send two
  identical snapshots, each with one \<^verbatim>\<open>ST\<close> report per node, and change nothing
  else (the spec's idempotent \<^verbatim>\<open>reportCurrent\<close>).
\<close>

theorem query_twice_identical:
  "ctrl_step (ctrl_step c Query) Query = c\<lparr>msgs := msgs c @ snapshot (nodes c) c @ snapshot (nodes c) c\<rparr>
   \<and> length (snapshot (nodes c) c) = length (nodes c)"
proof -
  have l: "length (snapshot ns c) = length ns" for ns
    by (induction ns c rule: snapshot.induct) simp_all
  show ?thesis by (simp add: ctrl_query_def report_all_snapshot l)
qed

section \<open>A failing device\<close>

text \<open>
  C30. When the update of the first device in the node table raises (whatever the
  exception), \<^verbatim>\<open>shortPoll\<close> stops there: no later device is polled in this cycle,
  the one-time snapshot is not sent and \<^verbatim>\<open>firstRun\<close> stays as it was; only the
  failing device's update has taken effect. The spec contains errors to one device's
  poll.
\<close>

theorem short_poll_stops_at_failure:
  assumes "nodes c = (ca, CtrlNode) # (a, UNode n) # ns" and "ca \<noteq> a"
    and "unifi_update (globals c) n (cnet c) (msgs c) = (Inl e, n', nt', ms')"
  shows "short_poll c = (Inl e, c\<lparr>nodes := (ca, CtrlNode) # (a, UNode n') # ns, cnet := nt', msgs := ms'\<rparr>)"
  using assms by (simp add: short_poll_def)

section \<open>A device configured in upper case\<close>

text \<open>
  C10. A device whose configuration key has an upper-case letter (such as
  \<open>AA:BB:\<dots>\<close>) is never detected. \<^verbatim>\<open>DISCOVER\<close> creates its node with the key as
  written as the hardware address (line 61), which \<^verbatim>\<open>update\<close> passes to the filter.
  The controller reports lower-case addresses, so however many polls follow, with
  the device associated under its lower-case address, the node stays off network
  and no report is sent.
\<close>

theorem upper_case_key_never_seen:
  assumes "nodes c = [(ca, CtrlNode)]" and "custom_params c = [(k, v)]" and "py_has_colon k"
    and "ca \<noteq> py_lower (py_remove_colons k)" and "\<not> first_run c"
    and "globals c = creds_all u p ip port"
    and "responses (cnet c) = concat (replicate j (poll_answers d)) @ rs"
    and "re_plain k" and "ch \<in> set k" and "is_upper ch"
    and "list_all (field_is_str ''mac'') d"
    and "\<forall>x \<in> set d. \<forall>s. x ''mac'' = Some (JStr s) \<longrightarrow> py_lower s = s"
    and "\<exists>x \<in> set d. x ''mac'' = Some (JStr (py_lower k)) \<and> x ''hostname'' \<noteq> None \<and> x ''ap_mac'' \<noteq> None"
  shows "\<exists>nt'. ctrl_run c (Command ''DISCOVER'' # replicate j ShortPoll) =
            c\<lparr>nodes := [(ca, CtrlNode), (py_lower (py_remove_colons k),
                          UNode (new_unifi_node (py_lower (py_remove_colons k)) k v))],
              cnet := nt', msgs := msgs c @ [AddNodeMsg (py_lower (py_remove_colons k)) v]\<rparr>
          \<and> live_sessions nt' = live_sessions (cnet c) \<and> responses nt' = rs"
proof -
  let ?a = "py_lower (py_remove_colons k)"
  let ?n = "new_unifi_node ?a k v"
  let ?c1 = "c\<lparr>nodes := [(ca, CtrlNode), (?a, UNode ?n)], msgs := msgs c @ [AddNodeMsg ?a v]\<rparr>"
  have d: "ctrl_step c (Command ''DISCOVER'') = ?c1"
    using assms(1-4) by (simp add: ctrl_command_def discover_def add_node_def new_unifi_node_def)
  have "filter (\<lambda>x. x ''mac'' = Some (JStr k)) d = []"
    using assms(9,10,12) py_lower_fixed_no_upper by (fastforce simp: filter_empty_conv)
  then have f: "apply_filters [(''mac'', FStr (n_macaddr ?n))] d = Inr []"
    using apply_filters_plain [OF assms(8,11)] by (simp add: new_unifi_node_def)
  obtain nt' where r: "ctrl_run ?c1 (replicate j ShortPoll) = ?c1\<lparr>cnet := nt'\<rparr>"
      "live_sessions nt' = live_sessions (cnet ?c1)" "responses nt' = rs"
    using short_polls_fixed [of ?c1 ca ?a ?n u p ip port j d rs "[]"] f assms(4-7) by auto
  show ?thesis using d r by (intro exI [of _ nt']) simp
qed

section \<open>Witnesses\<close>

theorem polls_converge_on_network_witness:
  "\<exists>nt'. ctrl_run (example_ctrl (concat (replicate 3 (poll_answers [example_near_miss, example_phone]))))
            (replicate 3 ShortPoll) =
          (example_ctrl (concat (replicate 3 (poll_answers [example_near_miss, example_phone]))))
            \<lparr>nodes := [(''controller'', CtrlNode), (''aabbccddeeff'', UNode (example_node\<lparr>n_st := 1\<rparr>))],
             cnet := nt', msgs := [Status ''aabbccddeeff'' ''ST'' 1]\<rparr>
        \<and> live_sessions nt' = 0 \<and> responses nt' = []"
  using polls_converge_on_network
      [of "example_ctrl (concat (replicate 3 (poll_answers [example_near_miss, example_phone])))"
        "''controller''" "''aabbccddeeff''" example_node "''admin''" "''secret''" "''10.0.0.1''" "''8443''"
        3 "[example_near_miss, example_phone]" "[]" example_phone]
    example_facts
  by (simp add: example_ctrl_def example_node_def new_unifi_node_def example_phone_def)

theorem polls_absent_no_events_witness:
  "\<exists>nt'. ctrl_run (example_ctrl (concat (replicate 2 (poll_answers [example_near_miss]))))
            (replicate 2 ShortPoll) =
          (example_ctrl (concat (replicate 2 (poll_answers [example_near_miss])))) \<lparr>cnet := nt'\<rparr>
        \<and> live_sessions nt' = 0 \<and> responses nt' = []"
  using polls_absent_no_events
      [of "example_ctrl (concat (replicate 2 (poll_answers [example_near_miss])))"
        "''controller''" "''aabbccddeeff''" example_node "''admin''" "''secret''" "''10.0.0.1''" "''8443''"
        2 "[example_near_miss]" "[]"]
    example_facts
  by (simp add: example_ctrl_def example_node_def new_unifi_node_def example_near_miss_def)

theorem upper_case_key_never_seen_witness:
  "\<exists>nt'. ctrl_run ((example_ctrl (concat (replicate 2 (poll_answers [example_phone]))))
                   \<lparr>nodes := [(''controller'', CtrlNode)], custom_params := [(''AA:bb:cc:dd:ee:ff'', ''Phone'')]\<rparr>)
            (Command ''DISCOVER'' # replicate 2 ShortPoll) =
          ((example_ctrl (concat (replicate 2 (poll_answers [example_phone]))))
                   \<lparr>nodes := [(''controller'', CtrlNode)], custom_params := [(''AA:bb:cc:dd:ee:ff'', ''Phone'')]\<rparr>)
            \<lparr>nodes := [(''controller'', CtrlNode),
                       (''aabbccddeeff'', UNode (new_unifi_node ''aabbccddeeff'' ''AA:bb:cc:dd:ee:ff'' ''Phone''))],
             cnet := nt', msgs := [AddNodeMsg ''aabbccddeeff'' ''Phone'']\<rparr>
        \<and> live_sessions nt' = 0 \<and> responses nt' = []"
proof -
  have h: "py_has_colon ''AA:bb:cc:dd:ee:ff''" "re_plain ''AA:bb:cc:dd:ee:ff''"
    "CHR ''A'' \<in> set ''AA:bb:cc:dd:ee:ff''" "is_upper (CHR ''A'')"
    "list_all (field_is_str ''mac'') [example_phone]"
    "\<forall>x \<in> set [example_phone]. \<forall>s. x ''mac'' = Some (JStr s) \<longrightarrow> py_lower s = s"
    by (simp_all add: py_has_colon_def re_plain_def is_upper_def example_phone_def py_lower_def lower_char_def)
  have l: "py_lower (py_remove_colons ''AA:bb:cc:dd:ee:ff'') = ''aabbccddeeff''"
    "py_lower ''AA:bb:cc:dd:ee:ff'' = ''aa:bb:cc:dd:ee:ff''"
    by code_simp+
  have x: "\<exists>x \<in> set [example_phone]. x ''mac'' = Some (JStr (py_lower ''AA:bb:cc:dd:ee:ff''))
             \<and> x ''hostname'' \<noteq> None \<and> x ''ap_mac'' \<noteq> None"
    unfolding l by (simp add: example_phone_def)
  show ?thesis
    using upper_case_key_never_seen [of "(example_ctrl (concat (replicate 2 (poll_answers [example_phone]))))
                   \<lparr>nodes := [(''controller'', CtrlNode)], custom_params := [(''AA:bb:cc:dd:ee:ff'', ''Phone'')]\<rparr>"
        "''controller''" "''AA:bb:cc:dd:ee:ff''" "''Phone''" "''admin''" "''secret''" "''10.0.0.1''" "''8443''"
        2 "[example_phone]" "[]" "CHR ''A''"] h x l(1)
    by (simp add: example_ctrl_def)
qed

theorem short_poll_stops_at_failure_witness:
  "short_poll ((example_ctrl [])\<lparr>globals := \<lparr>uc_user = None, uc_password = None, uc_ip = None, uc_port = None\<rparr>,
       nodes := [(''controller'', CtrlNode), (''aabbccddeeff'', UNode example_node),
                 (''001122334455'', UNode (new_unifi_node ''001122334455'' ''00:11:22:33:44:55'' ''Tablet''))]\<rparr>)
   = (Inl (NameError ''uc_user''),
      (example_ctrl [])\<lparr>globals := \<lparr>uc_user = None, uc_password = None, uc_ip = None, uc_port = None\<rparr>,
       nodes := [(''controller'', CtrlNode), (''aabbccddeeff'', UNode example_node),
                 (''001122334455'', UNode (new_unifi_node ''001122334455'' ''00:11:22:33:44:55'' ''Tablet''))]\<rparr>)"
proof -
  let ?c = "(example_ctrl [])\<lparr>globals := \<lparr>uc_user = None, uc_password = None, uc_ip = None, uc_port = None\<rparr>,
       nodes := [(''controller'', CtrlNode), (''aabbccddeeff'', UNode example_node),
                 (''001122334455'', UNode (new_unifi_node ''001122334455'' ''00:11:22:33:44:55'' ''Tablet''))]\<rparr>"
  have u: "unifi_update (globals ?c) example_node (cnet ?c) (msgs ?c) = (Inl (NameError ''uc_user''), example_node, cnet ?c, msgs ?c)"
    by (simp add: unifi_update_def)
  show ?thesis
    using short_poll_stops_at_failure [of ?c "''controller''" "''aabbccddeeff''" example_node, OF _ _ u]
    by simp
qed

end
