(* ===== verification/Invariants.thy ===== *)
theory Invariants
  imports Controller
begin

text \<open>
  Invariants of the reachable states of the controller (\<open>reachable\<close>, theory
  \<open>Controller\<close>), proved by rule induction through one preservation lemma per
  operation. \<open>ctrl_wf\<close> bundles the shape of the framework's node table
  (\<open>nodes_ok\<close>), the controller's own entry in it, the bounds of the driver values
  (\<open>drivers_ok\<close>: \<^verbatim>\<open>ST\<close> is 0 or 1) and the well-formedness of every message sent
  to Polyglot (\<open>msgs_ok\<close>: a report names a node of the table, the driver \<^verbatim>\<open>ST\<close>
  and a value 0 or 1; a heartbeat command is \<^verbatim>\<open>DON\<close> or \<^verbatim>\<open>DOF\<close> with unit 2;
  no notice is removed by key, which only the unreachable \<^verbatim>\<open>remove_notice_test\<close>
  would do).
  \<open>grows c c'\<close> says that an operation only appends messages that are well formed
  for the table after it, and never removes an address; \<open>node_out a ms ms'\<close> is the
  same for a node's own reports.
\<close>

section \<open>Well-formed states\<close>

definition st_ok :: "int \<Rightarrow> bool" where
  "st_ok v \<longleftrightarrow> v = 0 \<or> v = 1"

definition node_keys :: "ctrl \<Rightarrow> string set" where
  "node_keys c = fst ` set (nodes c)"

fun msg_ok :: "string set \<Rightarrow> msg \<Rightarrow> bool" where
  "msg_ok K (Status a d v) \<longleftrightarrow> a \<in> K \<and> d = ''ST'' \<and> st_ok v"
| "msg_ok K (Cmd a x v) \<longleftrightarrow> a \<in> K \<and> (x = ''DON'' \<or> x = ''DOF'') \<and> v = Some 2"
| "msg_ok K (AddNodeMsg a nm) \<longleftrightarrow> a \<in> K"
| "msg_ok K (NoticeAdd s) \<longleftrightarrow> True"
| "msg_ok K (NoticeRemove k) \<longleftrightarrow> False"
| "msg_ok K NoticesClear \<longleftrightarrow> True"
| "msg_ok K InstallProfile \<longleftrightarrow> True"

definition drivers_ok :: "ctrl \<Rightarrow> bool" where
  "drivers_ok c \<longleftrightarrow> st_ok (ctrl_st c) \<and> (\<forall>a n. (a, UNode n) \<in> set (nodes c) \<longrightarrow> st_ok (n_st n))"

definition msgs_ok :: "ctrl \<Rightarrow> bool" where
  "msgs_ok c \<longleftrightarrow> (\<forall>m \<in> set (msgs c). msg_ok (node_keys c) m)"

definition ctrl_wf :: "ctrl \<Rightarrow> bool" where
  "ctrl_wf c \<longleftrightarrow> nodes_ok (nodes c) \<and> c_address c \<in> node_keys c \<and> drivers_ok c \<and> msgs_ok c"

definition example_boot :: ctrl where
  "example_boot = ctrl_step (ctrl_init ''controller'' [(''aa:bb:cc:dd:ee:ff'', ''Phone'')]
                     \<lparr>responses = [], sent = [], live_sessions = 0\<rparr>) Start"

definition grows :: "ctrl \<Rightarrow> ctrl \<Rightarrow> bool" where
  "grows c c' \<longleftrightarrow> c_address c' = c_address c \<and> node_keys c \<subseteq> node_keys c'
     \<and> (\<exists>new. msgs c' = msgs c @ new \<and> (\<forall>m \<in> set new. msg_ok (node_keys c') m))"

definition node_out :: "string \<Rightarrow> msg list \<Rightarrow> msg list \<Rightarrow> bool" where
  "node_out a ms ms' \<longleftrightarrow> (\<exists>new. ms' = ms @ new \<and> (\<forall>m \<in> set new. \<exists>v. st_ok v \<and> m = Status a ''ST'' v))"

section \<open>Lemmas\<close>

lemma msg_ok_mono: "msg_ok K m \<Longrightarrow> K \<subseteq> K' \<Longrightarrow> msg_ok K' m"
  by (cases m) auto

lemma grows_refl [simp]: "grows c c"
  by (auto simp: grows_def)

lemma grows_trans: "grows c c' \<Longrightarrow> grows c' c'' \<Longrightarrow> grows c c''"
  unfolding grows_def by (fastforce intro: msg_ok_mono)

lemma msgs_ok_grows: "msgs_ok c \<Longrightarrow> grows c c' \<Longrightarrow> msgs_ok c'"
  unfolding grows_def msgs_ok_def by (fastforce intro: msg_ok_mono)

lemma node_out_refl [simp]: "node_out a ms ms"
  by (auto simp: node_out_def)

lemma node_out_trans: "node_out a ms ms' \<Longrightarrow> node_out a ms' ms'' \<Longrightarrow> node_out a ms ms''"
  unfolding node_out_def by fastforce

lemma set_driver_st_ok:
  "set_driver_st v n ms = (n', ms') \<Longrightarrow> st_ok v \<Longrightarrow> st_ok (n_st n) \<Longrightarrow>
   node_out (n_address n) ms ms' \<and> n_address n' = n_address n \<and> st_ok (n_st n')"
  by (auto simp: set_driver_st_def node_out_def split: if_splits)

lemma st_ok_01 [simp]: "st_ok 0" "st_ok 1"
  by (simp_all add: st_ok_def)

lemma update_loop_ok:
  "update_loop n dl ms = (r, n', ms') \<Longrightarrow> st_ok (n_st n) \<Longrightarrow>
   node_out (n_address n) ms ms' \<and> n_address n' = n_address n \<and> st_ok (n_st n')"
proof (induction dl arbitrary: n ms)
  case (Cons d ds)
  show ?case
  proof (cases "d ''mac''")
    case (Some m)
    show ?thesis
    proof (cases "m = JStr (n_macaddr n) \<and> d ''hostname'' = None")
      case False
      obtain n1 ms1 where s: "(if d ''ap_mac'' \<noteq> None then setOnNetwork n ms else setOffNetwork n ms) = (n1, ms1)"
        by fastforce
      have o1: "node_out (n_address n) ms ms1 \<and> n_address n1 = n_address n \<and> st_ok (n_st n1)"
        using s Cons.prems(2)
        by (auto simp: setOnNetwork_def setOffNetwork_def split: if_splits dest!: set_driver_st_ok)
      have "update_loop n1 ds ms1 = (r, n', ms')" using Cons.prems(1) Some False s by simp
      then have "node_out (n_address n1) ms1 ms' \<and> n_address n' = n_address n1 \<and> st_ok (n_st n')"
        using o1 by (intro Cons.IH) simp_all
      then show ?thesis using o1 by (auto intro: node_out_trans)
    qed (use Cons.prems Some in auto)
  qed (use Cons.prems in auto)
qed simp

lemma unifi_update_ok:
  "unifi_update cr n nt ms = (r, n', nt', ms') \<Longrightarrow> st_ok (n_st n) \<Longrightarrow>
   node_out (n_address n) ms ms' \<and> n_address n' = n_address n \<and> st_ok (n_st n')"
  by (auto dest!: unifi_update_cases update_loop_ok)

lemma ctrl_wf_grows:
  "ctrl_wf c \<Longrightarrow> grows c c' \<Longrightarrow> nodes_ok (nodes c') \<Longrightarrow> drivers_ok c' \<Longrightarrow> ctrl_wf c'"
  unfolding ctrl_wf_def using msgs_ok_grows by (auto simp: grows_def)

lemma ctrl_wf_nodes_ok: "ctrl_wf c \<Longrightarrow> nodes_ok (nodes c)"
  by (simp add: ctrl_wf_def)

lemma ctrl_wf_UNode:
  "ctrl_wf c \<Longrightarrow> (a, UNode n) \<in> set (nodes c) \<Longrightarrow> n_address n = a \<and> a \<in> node_keys c \<and> st_ok (n_st n)"
  by (force simp: ctrl_wf_def nodes_ok_def drivers_ok_def node_keys_def)

lemma node_step_wf:
  assumes wf: "ctrl_wf c" and m: "map_of (nodes c) a = Some (UNode n)"
    and o: "node_out (n_address n) (msgs c) ms'" and addr: "n_address n' = n_address n" and st: "st_ok (n_st n')"
  shows "ctrl_wf (c\<lparr>nodes := AList.update a (UNode n') (nodes c), cnet := nt', msgs := ms'\<rparr>)
         \<and> grows c (c\<lparr>nodes := AList.update a (UNode n') (nodes c), cnet := nt', msgs := ms'\<rparr>)"
proof -
  let ?c' = "c\<lparr>nodes := AList.update a (UNode n') (nodes c), cnet := nt', msgs := ms'\<rparr>"
  have i: "n_address n = a \<and> a \<in> node_keys c \<and> st_ok (n_st n)"
    using ctrl_wf_UNode [OF wf map_of_SomeD [OF m]] .
  have k: "node_keys ?c' = node_keys c" using i by (auto simp: node_keys_def dom_update)
  obtain new where ms: "ms' = msgs c @ new"
      and nw: "\<forall>m \<in> set new. \<exists>v. st_ok v \<and> m = Status (n_address n) ''ST'' v"
    using o by (auto simp: node_out_def)
  have "\<forall>m \<in> set new. msg_ok (node_keys ?c') m" using nw i k by fastforce
  then have g: "grows c ?c'" using ms k by (auto simp: grows_def)
  have n: "nodes_ok (nodes ?c')" using nodes_ok_update [OF ctrl_wf_nodes_ok [OF wf] m addr] by simp
  have d: "drivers_ok ?c'" using wf st by (auto simp: ctrl_wf_def drivers_ok_def dest!: alist_update_set)
  show ?thesis using ctrl_wf_grows [OF wf g n d] g by simp
qed

lemma poll_nodes_wf: "ctrl_wf c \<Longrightarrow> poll_nodes as c = (r, c') \<Longrightarrow> ctrl_wf c' \<and> grows c c'"
proof (induction as arbitrary: c)
  case (Cons a as)
  show ?case
  proof (cases "map_of (nodes c) a")
    case (Some p)
    show ?thesis
    proof (cases p)
      case (UNode n)
      obtain r1 n1 nt1 ms1 where u: "unifi_update (globals c) n (cnet c) (msgs c) = (r1, n1, nt1, ms1)"
        by (cases "unifi_update (globals c) n (cnet c) (msgs c)") auto
      let ?c1 = "c\<lparr>nodes := AList.update a (UNode n1) (nodes c), cnet := nt1, msgs := ms1\<rparr>"
      have st: "st_ok (n_st n)" using ctrl_wf_UNode [OF Cons.prems(1) map_of_SomeD] Some UNode by blast
      have w1: "ctrl_wf ?c1 \<and> grows c ?c1"
        using node_step_wf [OF Cons.prems(1)] Some UNode unifi_update_ok [OF u st] by blast
      show ?thesis
      proof (cases r1)
        case (Inl e)
        with Cons.prems(2) Some UNode u w1 show ?thesis by auto
      next
        case (Inr x)
        with Cons.prems(2) Some UNode u have "poll_nodes as ?c1 = (r, c')" by simp
        with w1 Cons.IH show ?thesis by (blast intro: grows_trans)
      qed
    qed (use Some Cons in simp)
  qed (use Cons.prems in simp)
qed simp

lemma report_all_wf:
  "ctrl_wf c \<Longrightarrow> set ns \<subseteq> set (nodes c) \<Longrightarrow> ctrl_wf (report_all ns c) \<and> grows c (report_all ns c)"
proof (induction ns c rule: report_all.induct)
  case (2 a ns c)
  let ?c1 = "c\<lparr>msgs := msgs c @ [Status (c_address c) ''ST'' (ctrl_st c)]\<rparr>"
  have g: "grows c ?c1" using "2.prems"(1) by (auto simp: grows_def ctrl_wf_def drivers_ok_def node_keys_def)
  have w: "ctrl_wf ?c1" using ctrl_wf_grows [OF "2.prems"(1) g] "2.prems"(1)
    by (simp add: ctrl_wf_def drivers_ok_def)
  have "ctrl_wf (report_all ns ?c1) \<and> grows ?c1 (report_all ns ?c1)"
    using w "2.prems"(2) by (intro "2.IH") auto
  then show ?case using g by (auto intro: grows_trans)
next
  case (3 a n ns c)
  let ?c1 = "c\<lparr>msgs := node_report_drivers n (msgs c)\<rparr>"
  have "(a, UNode n) \<in> set (nodes c)" using "3.prems"(2) by simp
  then have i: "n_address n = a \<and> a \<in> node_keys c \<and> st_ok (n_st n)"
    by (rule ctrl_wf_UNode [OF "3.prems"(1)])
  have g: "grows c ?c1" using i by (auto simp: grows_def node_report_drivers_def node_keys_def)
  have w: "ctrl_wf ?c1" using ctrl_wf_grows [OF "3.prems"(1) g] "3.prems"(1)
    by (simp add: ctrl_wf_def drivers_ok_def)
  have "ctrl_wf (report_all ns ?c1) \<and> grows ?c1 (report_all ns ?c1)"
    using w "3.prems"(2) by (intro "3.IH") auto
  then show ?case using g by (auto intro: grows_trans)
qed simp

lemma add_node_wf:
  assumes wf: "ctrl_wf c" and st: "st_ok (n_st n)"
  shows "ctrl_wf (add_node n c) \<and> grows c (add_node n c)"
proof -
  have k: "node_keys (add_node n c) = insert (n_address n) (node_keys c)"
    by (auto simp: node_keys_def add_node_def dom_update)
  have g: "grows c (add_node n c)" using k by (auto simp: grows_def add_node_def)
  have d: "drivers_ok (add_node n c)"
    using wf st by (auto simp: ctrl_wf_def drivers_ok_def add_node_def dest!: alist_update_set)
  show ?thesis using ctrl_wf_grows [OF wf g nodes_ok_add_node [OF ctrl_wf_nodes_ok [OF wf]] d] g by simp
qed

lemma discover_params_wf: "ctrl_wf c \<Longrightarrow> ctrl_wf (discover_params ps c) \<and> grows c (discover_params ps c)"
proof (induction ps c rule: discover_params.induct)
  case (2 k v ps c)
  let ?c1 = "if py_has_colon k then add_node (new_unifi_node (py_lower (py_remove_colons k)) k v) c else c"
  have w1: "ctrl_wf ?c1 \<and> grows c ?c1"
    using add_node_wf [OF "2.prems"] "2.prems" by (simp add: new_unifi_node_def)
  then show ?case using "2.IH" by (auto intro: grows_trans)
qed simp

lemma notices_grow:
  "ctrl_wf c \<Longrightarrow> nodes c' = nodes c \<Longrightarrow> c_address c' = c_address c \<Longrightarrow> ctrl_st c' = ctrl_st c \<Longrightarrow>
   msgs c' = msgs c @ new \<Longrightarrow> \<forall>m \<in> set new. msg_ok {} m \<Longrightarrow> ctrl_wf c' \<and> grows c c'"
  unfolding ctrl_wf_def grows_def msgs_ok_def drivers_ok_def node_keys_def
  by (auto intro: msg_ok_mono)

lemma check_param_wf: "ctrl_wf c \<Longrightarrow> ctrl_wf (check_param k f c) \<and> grows c (check_param k f c)"
  by (rule notices_grow [where new = "case map_of (custom_params c) k of None \<Rightarrow> [NoticeAdd (missing_notice k)] | Some v \<Rightarrow> []"])
     (simp_all add: check_param_def add_notice_def split: option.splits)

lemma remove_notices_all_wf: "ctrl_wf c \<Longrightarrow> ctrl_wf (remove_notices_all c) \<and> grows c (remove_notices_all c)"
  by (rule notices_grow [where new = "[NoticesClear]"]) (simp_all add: remove_notices_all_def)

lemma check_params_wf: "ctrl_wf c \<Longrightarrow> ctrl_wf (check_params c) \<and> grows c (check_params c)"
  unfolding check_params_def by (meson check_param_wf remove_notices_all_wf grows_trans)

lemma discover_wf: "ctrl_wf c \<Longrightarrow> ctrl_wf (discover c) \<and> grows c (discover c)"
  by (simp add: discover_def discover_params_wf)

lemma ctrl_wf_address: "ctrl_wf c \<Longrightarrow> c_address c \<in> node_keys c"
  by (simp add: ctrl_wf_def)

lemma ctrl_set_st_wf: "ctrl_wf c \<Longrightarrow> st_ok v \<Longrightarrow> ctrl_wf (ctrl_set_st v c) \<and> grows c (ctrl_set_st v c)"
proof -
  assume wf: "ctrl_wf c" and st: "st_ok v"
  have g: "grows c (ctrl_set_st v c)"
    using ctrl_wf_address [OF wf] st by (auto simp: grows_def ctrl_set_st_def node_keys_def)
  have "drivers_ok (ctrl_set_st v c)" using wf st by (simp add: ctrl_wf_def drivers_ok_def ctrl_set_st_def)
  then show ?thesis using ctrl_wf_grows [OF wf g] g wf by (simp add: ctrl_wf_def ctrl_set_st_def)
qed

lemma ctrl_heartbeat_wf:
  "ctrl_wf c \<Longrightarrow> ctrl_heartbeat init c = (r, c') \<Longrightarrow> ctrl_wf c' \<and> grows c c'"
proof -
  assume wf: "ctrl_wf c" and h: "ctrl_heartbeat init c = (r, c')"
  have "c_address c \<in> node_keys c" by (rule ctrl_wf_address [OF wf])
  then have "\<exists>new. nodes c' = nodes c \<and> c_address c' = c_address c \<and> ctrl_st c' = ctrl_st c
      \<and> msgs c' = msgs c @ new \<and> (\<forall>m \<in> set new. msg_ok (node_keys c) m)"
    using h by (auto simp: ctrl_heartbeat_def Let_def split: option.splits if_splits)
  then show ?thesis using wf
    unfolding ctrl_wf_def grows_def msgs_ok_def drivers_ok_def node_keys_def by auto
qed

lemma with_unode_wf:
  assumes "\<And>n ms n' ms'. f n ms = Some (n', ms') \<Longrightarrow> st_ok (n_st n) \<Longrightarrow>
             node_out (n_address n) ms ms' \<and> n_address n' = n_address n \<and> st_ok (n_st n')"
    and wf: "ctrl_wf c"
  shows "ctrl_wf (with_unode a f c)"
proof (cases "map_of (nodes c) a")
  case (Some p)
  show ?thesis
  proof (cases p)
    case (UNode n)
    have st: "st_ok (n_st n)" using ctrl_wf_UNode [OF wf map_of_SomeD] Some UNode by blast
    show ?thesis
    proof (cases "f n (msgs c)")
      case (Some r)
      obtain n' ms' where r: "r = (n', ms')" by fastforce
      have "ctrl_wf (c\<lparr>nodes := AList.update a (UNode n') (nodes c), cnet := cnet c, msgs := ms'\<rparr>)"
        using node_step_wf [OF wf] \<open>map_of (nodes c) a = Some p\<close> UNode assms(1) [OF _ st] Some r by blast
      then show ?thesis using \<open>map_of (nodes c) a = Some p\<close> UNode Some r by (simp add: with_unode_def)
    qed (use \<open>map_of (nodes c) a = Some p\<close> UNode wf in \<open>simp add: with_unode_def\<close>)
  qed (use Some wf in \<open>simp add: with_unode_def\<close>)
qed (use wf in \<open>simp add: with_unode_def\<close>)

lemma node_command_ok:
  "node_command cmd n ms = Some (n', ms') \<Longrightarrow> st_ok (n_st n) \<Longrightarrow>
   node_out (n_address n) ms ms' \<and> n_address n' = n_address n \<and> st_ok (n_st n')"
  by (auto simp: node_command_def setOn_def setOff_def split: if_splits dest!: set_driver_st_ok)

lemma node_start_ok:
  "Some (node_start n ms) = Some (n', ms') \<Longrightarrow> st_ok (n_st n) \<Longrightarrow>
   node_out (n_address n) ms ms' \<and> n_address n' = n_address n \<and> st_ok (n_st n')"
  by (auto simp: node_start_def setOn_def dest!: set_driver_st_ok)

lemma ctrl_query_wf: "ctrl_wf c \<Longrightarrow> ctrl_wf (ctrl_query c) \<and> grows c (ctrl_query c)"
  by (simp add: ctrl_query_def report_all_wf)

lemma short_poll_wf: "ctrl_wf c \<Longrightarrow> ctrl_wf (snd (short_poll c))"
proof -
  assume wf: "ctrl_wf c"
  obtain r1 c1 where p: "poll_nodes (map fst (nodes c)) c = (r1, c1)" by fastforce
  have w1: "ctrl_wf c1" using poll_nodes_wf [OF wf p] by simp
  have "ctrl_wf ((ctrl_query c1)\<lparr>first_run := False\<rparr>)"
    using ctrl_query_wf [OF w1]
    by (simp add: ctrl_wf_def drivers_ok_def msgs_ok_def node_keys_def)
  then show ?thesis using p w1 by (simp add: short_poll_def split: sum.splits)
qed

lemma ctrl_start_wf: "ctrl_wf c \<Longrightarrow> ctrl_wf (snd (ctrl_start c))"
proof -
  assume wf: "ctrl_wf c"
  obtain r1 c1 where h: "ctrl_heartbeat (Some 0) c = (r1, c1)" by fastforce
  have w1: "ctrl_wf c1" using ctrl_heartbeat_wf [OF wf h] by simp
  have "ctrl_wf (ctrl_set_st 1 (discover (check_params c1)))"
    using w1 by (meson check_params_wf discover_wf ctrl_set_st_wf st_ok_01(2))
  then show ?thesis using h w1 by (simp add: ctrl_start_def split: sum.splits)
qed

lemma node_keys_errors [simp]: "node_keys (c\<lparr>errors := x\<rparr>) = node_keys c"
  by (simp add: node_keys_def)

lemma log_result_wf: "ctrl_wf (snd rc) \<Longrightarrow> ctrl_wf (log_result rc)"
  by (auto simp: log_result_def ctrl_wf_def drivers_ok_def msgs_ok_def split: prod.splits sum.splits)

lemma ctrl_command_wf: "ctrl_wf c \<Longrightarrow> ctrl_wf (ctrl_command cmd c)"
proof -
  assume wf: "ctrl_wf c"
  have "ctrl_wf (c\<lparr>msgs := msgs c @ [InstallProfile]\<rparr>)"
    using notices_grow [OF wf, of "c\<lparr>msgs := msgs c @ [InstallProfile]\<rparr>" "[InstallProfile]"] by simp
  then show ?thesis using wf discover_wf remove_notices_all_wf by (simp add: ctrl_command_def)
qed

lemma step_wf: "ctrl_wf c \<Longrightarrow> ctrl_wf (ctrl_step c e)"
proof (cases e)
  case Start
  assume "ctrl_wf c"
  then show ?thesis using Start by (simp add: log_result_wf ctrl_start_wf)
next
  case ShortPoll
  assume "ctrl_wf c"
  then show ?thesis using ShortPoll by (simp add: log_result_wf short_poll_wf)
next
  case LongPoll
  assume wf: "ctrl_wf c"
  obtain r1 c1 where h: "ctrl_heartbeat None c = (r1, c1)" by fastforce
  then show ?thesis using LongPoll ctrl_heartbeat_wf [OF wf h] by (simp add: log_result_wf long_poll_def)
next
  case Query
  assume "ctrl_wf c"
  then show ?thesis using Query by (simp add: ctrl_query_wf)
next
  case (Command cmd)
  assume "ctrl_wf c"
  then show ?thesis using Command by (simp add: ctrl_command_wf)
next
  case (NodeStart a)
  assume "ctrl_wf c"
  have "ctrl_wf (with_unode a (\<lambda>n ms. Some (node_start n ms)) c)"
    by (rule with_unode_wf [OF node_start_ok \<open>ctrl_wf c\<close>])
  then show ?thesis using NodeStart by simp
next
  case (NodeCommand a cmd)
  assume "ctrl_wf c"
  have "ctrl_wf (with_unode a (node_command cmd) c)"
    by (rule with_unode_wf [OF node_command_ok \<open>ctrl_wf c\<close>])
  then show ?thesis using NodeCommand by simp
qed simp_all

lemma init_wf: "ctrl_wf (ctrl_init addr params nt)"
  by (simp add: ctrl_wf_def ctrl_init_def nodes_ok_def drivers_ok_def msgs_ok_def node_keys_def)

lemma reachable_wf: "reachable c \<Longrightarrow> ctrl_wf c"
proof (induction rule: reachable.induct)
  case (boot addr params nt)
  show ?case by (rule step_wf [OF init_wf])
next
  case (step c e)
  from step.IH show ?case by (rule step_wf)
qed

section \<open>Invariants\<close>

text \<open>
  In every reachable state the framework's node table \<^verbatim>\<open>self.nodes\<close> has one
  entry per address, and every device node is stored under its own address: polls,
  node starts and commands update a node in place, and \<^verbatim>\<open>discover\<close> replaces an entry
  with the same address instead of adding a second one.
\<close>

theorem reachable_nodes_table:
  "reachable c \<Longrightarrow>
   distinct (map fst (nodes c)) \<and> (\<forall>a n. (a, UNode n) \<in> set (nodes c) \<longrightarrow> n_address n = a)"
  using reachable_wf [of c] by (simp add: ctrl_wf_def nodes_ok_def)

text \<open>
  C23. In every reachable state the value of every driver is a valid \<^verbatim>\<open>ST\<close> value:
  the controller's and every device node's \<^verbatim>\<open>ST\<close> is 0 or 1, whatever polls,
  commands (\<^verbatim>\<open>DON\<close>, \<^verbatim>\<open>DOF\<close>), starts and failures happened.
\<close>

theorem reachable_drivers_bounded:
  "reachable c \<Longrightarrow>
   (ctrl_st c = 0 \<or> ctrl_st c = 1) \<and> (\<forall>a n. (a, UNode n) \<in> set (nodes c) \<longrightarrow> n_st n = 0 \<or> n_st n = 1)"
  using reachable_wf [of c] by (simp add: ctrl_wf_def drivers_ok_def st_ok_def)

text \<open>
  C24. Every message sent to Polyglot in a reachable run is well formed: a status
  report names a node of the node table, the driver \<^verbatim>\<open>ST\<close> and the value 0 or 1;
  a command report is the heartbeat's \<^verbatim>\<open>DON\<close> or \<^verbatim>\<open>DOF\<close> with unit 2 for a
  node of the table; a node creation request names an address of the table; and no
  notice is ever removed by key, since \<^verbatim>\<open>remove_notice_test\<close> is unreachable. (The
  framework never removes a node, so an address once in the table stays there.)
\<close>

theorem reachable_msgs_well_formed:
  assumes "reachable c"
  shows "(\<forall>a d v. Status a d v \<in> set (msgs c) \<longrightarrow> a \<in> fst ` set (nodes c) \<and> d = ''ST'' \<and> (v = 0 \<or> v = 1))
       \<and> (\<forall>a x v. Cmd a x v \<in> set (msgs c) \<longrightarrow> a \<in> fst ` set (nodes c) \<and> (x = ''DON'' \<or> x = ''DOF'') \<and> v = Some 2)
       \<and> (\<forall>a nm. AddNodeMsg a nm \<in> set (msgs c) \<longrightarrow> a \<in> fst ` set (nodes c))
       \<and> (\<forall>k. NoticeRemove k \<notin> set (msgs c))"
proof -
  have "\<forall>m \<in> set (msgs c). msg_ok (node_keys c) m"
    using reachable_wf [OF assms] by (simp add: ctrl_wf_def msgs_ok_def)
  then show ?thesis by (force simp: node_keys_def st_ok_def)
qed

section \<open>Witnesses\<close>

lemma example_reachable: "reachable (ctrl_step example_boot (NodeStart ''aabbccddeeff''))"
  unfolding example_boot_def by (rule reachable.step [OF reachable.boot]) simp

theorem reachable_nodes_table_witness:
  "distinct (map fst (nodes (ctrl_step (ctrl_init ''controller'' [(''aa:bb:cc:dd:ee:ff'', ''Phone'')]
      \<lparr>responses = [], sent = [], live_sessions = 0\<rparr>) Start)))"
  using reachable_nodes_table [OF reachable.boot] by simp

lemma example_reachable_state:
  "ctrl_st (ctrl_step example_boot (NodeStart ''aabbccddeeff'')) = 1
   \<and> (''aabbccddeeff'', UNode ((new_unifi_node ''aabbccddeeff'' ''aa:bb:cc:dd:ee:ff'' ''Phone'')\<lparr>n_st := 1\<rparr>))
       \<in> set (nodes (ctrl_step example_boot (NodeStart ''aabbccddeeff'')))
   \<and> Status ''aabbccddeeff'' ''ST'' 1 \<in> set (msgs (ctrl_step example_boot (NodeStart ''aabbccddeeff'')))"
  by (simp add: example_boot_def run_simps with_unode_def node_start_def setOn_def)

theorem reachable_drivers_bounded_witness:
  "ctrl_st (ctrl_step example_boot (NodeStart ''aabbccddeeff'')) = 1
   \<and> (n_st ((new_unifi_node ''aabbccddeeff'' ''aa:bb:cc:dd:ee:ff'' ''Phone'')\<lparr>n_st := 1\<rparr>) = 0
      \<or> n_st ((new_unifi_node ''aabbccddeeff'' ''aa:bb:cc:dd:ee:ff'' ''Phone'')\<lparr>n_st := 1\<rparr>) = 1)"
  using reachable_drivers_bounded [OF example_reachable] example_reachable_state by blast

theorem reachable_msgs_well_formed_witness:
  "''aabbccddeeff'' \<in> fst ` set (nodes (ctrl_step example_boot (NodeStart ''aabbccddeeff'')))"
  using reachable_msgs_well_formed [OF example_reachable] example_reachable_state by blast

end
