(* ===== verification/ApiStore.thy ===== *)
theory ApiStore
  imports UnifiAPI
begin

text \<open>
  The class attribute \<^verbatim>\<open>Unifi_API._login_data = {}\<close> (line 157) is one dictionary
  shared by every instance: \<^verbatim>\<open>__init__\<close> (lines 161--162) writes
  \<^verbatim>\<open>self._login_data['username']\<close> and \<^verbatim>\<open>['password']\<close>, which finds no instance
  attribute and mutates the class's dictionary, and \<^verbatim>\<open>login\<close> (line 176) serialises that
  dictionary when it is called. This theory models the aliasing with an explicit store:
  the class dictionary (an association list in insertion order, as Python's dict) and
  the instances, addressed by their index. \<open>store_new\<close> is the constructor and
  \<open>store_login\<close> runs the body of \<^verbatim>\<open>login\<close> (\<open>api_post_login\<close>) on an instance with
  the dictionary as it is at the call. A reference to an instance that was never
  created does not arise in Python; it is \<open>OutOfModel\<close> here.

  \<open>store_login_refines\<close> shows that the per-instance model of theory \<open>UnifiAPI\<close>
  (where \<open>api_login\<close> reads the credentials of its own constructor) is exact for the
  way \<^verbatim>\<open>UniFiNode.update\<close> uses the class: an instance used right after it was
  constructed. \<open>store_login_last_credentials\<close> shows what the sharing does otherwise.
\<close>

section \<open>The store\<close>

record api_store =
  class_login_data :: "(string \<times> string) list"
  instances :: "api list"

definition store_new :: "string \<Rightarrow> string \<Rightarrow> string \<Rightarrow> string \<Rightarrow> api_store \<Rightarrow> nat \<times> api_store" where
  "store_new username password site_id url h =
     (length (instances h),
      h\<lparr>class_login_data := AList.update ''password'' password
                               (AList.update ''username'' username (class_login_data h)),
        instances := instances h @ [unifi_api_init username password site_id url]\<rparr>)"

definition store_login :: "nat \<Rightarrow> api_store \<Rightarrow> net \<Rightarrow> (py_error + unit) \<times> api_store \<times> net" where
  "store_login i h n =
     (if i < length (instances h) then
        (case api_post_login (class_login_data h) (instances h ! i) n of
           (r, a', n') \<Rightarrow> (r, h\<lparr>instances := (instances h)[i := a']\<rparr>, n'))
      else (Inl (OutOfModel ''dangling reference''), h, n))"

text \<open>The shapes of the class dictionary: empty before any constructor, then both keys.\<close>

definition login_dict_ok :: "(string \<times> string) list \<Rightarrow> bool" where
  "login_dict_ok ld \<longleftrightarrow> ld = [] \<or> (\<exists>x y. ld = [(''username'', x), (''password'', y)])"

section \<open>Lemmas\<close>

lemma store_new_dict:
  "login_dict_ok (class_login_data h) \<Longrightarrow>
   class_login_data (snd (store_new u p s url h)) = [(''username'', u), (''password'', p)]"
  by (auto simp: login_dict_ok_def store_new_def)

lemma store_new_inst:
  "store_new u p s url h = (i, h') \<Longrightarrow>
   i < length (instances h') \<and> instances h' ! i = unifi_api_init u p s url
   \<and> (\<forall>j < i. instances h' ! j = instances h ! j) \<and> i = length (instances h) \<and> length (instances h') = Suc i"
  by (auto simp: store_new_def nth_append)

text \<open>
  Refinement of the per-instance model: an instance that logs in right after its
  construction (as in \<^verbatim>\<open>update\<close>) sends the credentials it was constructed with, and
  the store's login gives the same result, the same instance state and the same
  network as \<open>api_login\<close> of \<open>UnifiAPI\<close> on \<open>unifi_api_init\<close>.
\<close>

theorem store_login_refines:
  assumes "login_dict_ok (class_login_data h)" and "store_new u p s url h = (i, h')"
  shows "(fst (store_login i h' n), instances (fst (snd (store_login i h' n))) ! i, snd (snd (store_login i h' n)))
         = api_login (unifi_api_init u p s url) n"
proof -
  have d: "class_login_data h' = login_data (unifi_api_init u p s url)"
    using store_new_dict [OF assms(1), of u p s url] assms(2) by (simp add: login_data_def unifi_api_init_def)
  have i: "i < length (instances h')" "instances h' ! i = unifi_api_init u p s url"
    using store_new_inst [OF assms(2)] by auto
  show ?thesis using d i
    by (simp add: store_login_def api_login_def split: prod.splits)
qed

text \<open>
  C26. Because the login dictionary is a class attribute, an instance constructed for
  one controller and user logs in, after a second instance was constructed, with the
  second instance's user name and password, sending them to the first instance's
  controller: the credentials of one account are disclosed to another controller.
\<close>

theorem store_login_last_credentials:
  assumes "login_dict_ok (class_login_data h)"
    and "store_new u1 p1 s1 url1 h = (i, h1)" and "store_new u2 p2 s2 url2 h1 = (j, h2)"
  shows "\<exists>b. sent (snd (snd (store_login i h2 n))) =
            sent n @ [\<lparr>rq_method = HPost, rq_url = url1 @ ''/api/login'', rq_body = RawBody b, rq_verify = False\<rparr>]
          \<and> json_loads_obj b = Some [(''username'', u2), (''password'', p2)]"
proof -
  have ok1: "login_dict_ok (class_login_data h1)"
    using store_new_dict [OF assms(1), of u1 p1 s1 url1] assms(2) by (simp add: login_dict_ok_def)
  have d: "class_login_data h2 = [(''username'', u2), (''password'', p2)]"
    using store_new_dict [OF ok1, of u2 p2 s2 url2] assms(3) by simp
  have i1: "i < length (instances h1)" "instances h1 ! i = unifi_api_init u1 p1 s1 url1"
    using store_new_inst [OF assms(2)] by auto
  have i2: "i < length (instances h2)" "instances h2 ! i = unifi_api_init u1 p1 s1 url1"
    using store_new_inst [OF assms(3)] i1 by auto
  show ?thesis using d i2
    by (simp add: store_login_def api_post_login_def unifi_api_init_def http_send_def json_loads_dumps Let_def
        split: list.splits response.splits prod.splits)
qed

section \<open>Witnesses\<close>

theorem store_login_refines_witness:
  "(fst (store_login 0 (snd (store_new ''admin'' ''secret'' ''default'' ''https://10.0.0.1:8443''
                           \<lparr>class_login_data = [], instances = []\<rparr>))
          \<lparr>responses = [Response 200 NotJson], sent = [], live_sessions = 0\<rparr>),
    instances (fst (snd (store_login 0 (snd (store_new ''admin'' ''secret'' ''default'' ''https://10.0.0.1:8443''
                           \<lparr>class_login_data = [], instances = []\<rparr>))
          \<lparr>responses = [Response 200 NotJson], sent = [], live_sessions = 0\<rparr>))) ! 0,
    snd (snd (store_login 0 (snd (store_new ''admin'' ''secret'' ''default'' ''https://10.0.0.1:8443''
                           \<lparr>class_login_data = [], instances = []\<rparr>))
          \<lparr>responses = [Response 200 NotJson], sent = [], live_sessions = 0\<rparr>)))
   = api_login (unifi_api_init ''admin'' ''secret'' ''default'' ''https://10.0.0.1:8443'')
       \<lparr>responses = [Response 200 NotJson], sent = [], live_sessions = 0\<rparr>"
proof -
  have "store_new ''admin'' ''secret'' ''default'' ''https://10.0.0.1:8443'' \<lparr>class_login_data = [], instances = []\<rparr>
        = (0, snd (store_new ''admin'' ''secret'' ''default'' ''https://10.0.0.1:8443''
                    \<lparr>class_login_data = [], instances = []\<rparr>))"
    by (simp add: store_new_def)
  then show ?thesis
    by (rule store_login_refines [rotated]) (simp add: login_dict_ok_def)
qed

theorem store_login_last_credentials_witness:
  "\<exists>b. sent (snd (snd (store_login 0
          (snd (store_new ''bob'' ''pw2'' ''default'' ''https://10.0.0.2:8443''
            (snd (store_new ''alice'' ''pw1'' ''default'' ''https://10.0.0.1:8443''
               \<lparr>class_login_data = [], instances = []\<rparr>))))
          \<lparr>responses = [Response 200 NotJson], sent = [], live_sessions = 0\<rparr>))) =
        [\<lparr>rq_method = HPost, rq_url = ''https://10.0.0.1:8443/api/login'', rq_body = RawBody b, rq_verify = False\<rparr>]
      \<and> json_loads_obj b = Some [(''username'', ''bob''), (''password'', ''pw2'')]"
proof -
  let ?h1 = "snd (store_new ''alice'' ''pw1'' ''default'' ''https://10.0.0.1:8443'' \<lparr>class_login_data = [], instances = []\<rparr>)"
  have s1: "store_new ''alice'' ''pw1'' ''default'' ''https://10.0.0.1:8443'' \<lparr>class_login_data = [], instances = []\<rparr> = (0, ?h1)"
    by (simp add: store_new_def)
  have s2: "store_new ''bob'' ''pw2'' ''default'' ''https://10.0.0.2:8443'' ?h1
            = (1, snd (store_new ''bob'' ''pw2'' ''default'' ''https://10.0.0.2:8443'' ?h1))"
    by (simp add: store_new_def)
  show ?thesis
    using store_login_last_credentials [OF _ s1 s2, of "\<lparr>responses = [Response 200 NotJson], sent = [], live_sessions = 0\<rparr>"]
    by (simp add: login_dict_ok_def)
qed

end
