(* ===== verification/Program.thy ===== *)
theory Program
  imports Controller
begin

text \<open>
  The process: the \<^verbatim>\<open>__main__\<close> block of \<^verbatim>\<open>src/unifi-presence-poly.py\<close>
  (lines 244--255) and reconfiguration. \<^verbatim>\<open>main\<close> creates the Polyglot interface,
  starts it, constructs the \<^verbatim>\<open>Controller\<close> and hands control to the framework's
  \<^verbatim>\<open>runForever\<close>, which delivers events to the controller until the process is
  interrupted (\<^verbatim>\<open>KeyboardInterrupt\<close>, \<^verbatim>\<open>SystemExit\<close>) or an exception escapes the
  framework. Exceptions of the controller's handlers do not escape: the framework
  logs them (\<open>log_result\<close>). The two ways out are \<open>run_end\<close>; the process record
  holds the controller at exit, the exceptions \<^verbatim>\<open>main\<close> logged, whether it called
  \<^verbatim>\<open>polyglot.stop()\<close>, and the exit status of \<^verbatim>\<open>sys.exit(0)\<close>.
\<close>

section \<open>The main block\<close>

datatype run_end = Interrupted | Crashed py_error

record process =
  p_ctrl :: ctrl
  p_logged :: "py_error list"
  polyglot_stopped :: bool
  exit_code :: int

definition py_main ::
  "string \<Rightarrow> (string \<times> string) list \<Rightarrow> net \<Rightarrow> event list \<Rightarrow> run_end \<Rightarrow> process" where
  "py_main addr params nt es e =
     (let c = ctrl_run (ctrl_init addr params nt) es
      in case e of
           Interrupted \<Rightarrow> \<lparr>p_ctrl = c, p_logged = [], polyglot_stopped = True, exit_code = 0\<rparr>
         | Crashed err \<Rightarrow> \<lparr>p_ctrl = c, p_logged = [err], polyglot_stopped = False, exit_code = 0\<rparr>)"

section \<open>Lemmas\<close>

lemma reachable_run: "reachable c \<Longrightarrow> Start \<notin> set es \<Longrightarrow> reachable (ctrl_run c es)"
proof (induction es arbitrary: c)
  case (Cons e es)
  then have "reachable (ctrl_step c e)" by (auto intro: reachable.step)
  with Cons show ?case by simp
qed simp

lemma ctrl_config_frame [simp]:
  "globals (ctrl_config ps c) = globals c" "custom_params (ctrl_config ps c) = ps"
  "nodes (ctrl_config ps c) = nodes c" "cnet (ctrl_config ps c) = cnet c"
  by (simp_all add: ctrl_config_def process_config_def)

text \<open>
  Whatever way \<^verbatim>\<open>runForever\<close> ends, the process exits with status 0, so a
  crash cannot be told from a requested stop by its exit status; only an interrupt
  stops the Polyglot interface; and the controller it leaves is a reachable state
  (so the invariants of theories \<open>Controller\<close> and \<open>Invariants\<close> hold at exit).
\<close>

theorem main_exit:
  assumes "Start \<notin> set es"
  shows "reachable (p_ctrl (py_main addr params nt (Start # es) e))
         \<and> exit_code (py_main addr params nt (Start # es) e) = 0
         \<and> (polyglot_stopped (py_main addr params nt (Start # es) e) \<longleftrightarrow> e = Interrupted)"
proof -
  have "reachable (ctrl_run (ctrl_step (ctrl_init addr params nt) Start) es)"
    using reachable_run [OF reachable.boot assms] .
  then show ?thesis by (cases e) (simp_all add: py_main_def)
qed

lemma run_no_creds:
  assumes "uc_user (globals c) = None \<or> uc_password (globals c) = None \<or> uc_ip (globals c) = None
           \<or> uc_port (globals c) = None"
    and "Start \<notin> set es"
  shows "cnet (ctrl_run c es) = cnet c"
  using assms
proof (induction es arbitrary: c)
  case (Cons e es)
  then have "e \<noteq> Start" "Start \<notin> set es" by auto
  moreover have "globals (ctrl_step c e) = globals c" using step_config [OF \<open>e \<noteq> Start\<close>] by simp
  ultimately show ?case using Cons.IH [of "ctrl_step c e"] Cons.prems(1) step_no_creds [OF Cons.prems(1)] by simp
qed simp

text \<open>
  C27. A configuration change does not bring a controller with missing connection
  parameters out of its degraded mode: \<^verbatim>\<open>process_config\<close> ignores the new
  configuration, and the credentials stay those \<^verbatim>\<open>check_params\<close> read at start, so
  after a new configuration, even a complete one, no sequence of later events without
  a restart sends a request. Correcting the configuration takes effect only at the
  next start, as the spec's notice says.
\<close>

theorem config_needs_restart:
  assumes "reachable c" and "Start \<notin> set es"
    and "k \<in> set [''uc_user'', ''uc_password'', ''uc_ip'', ''uc_port'']" and "map_of (custom_params c) k = None"
  shows "cnet (ctrl_run (ctrl_config ps c) es) = cnet c"
proof -
  have "uc_user (globals (ctrl_config ps c)) = None \<or> uc_password (globals (ctrl_config ps c)) = None
        \<or> uc_ip (globals (ctrl_config ps c)) = None \<or> uc_port (globals (ctrl_config ps c)) = None"
    using reachable_missing_creds [OF assms(1,3,4)] by simp
  then show ?thesis using run_no_creds [OF _ assms(2)] by simp
qed

section \<open>Witnesses\<close>

theorem main_exit_witness:
  "reachable (p_ctrl (py_main ''controller'' [] \<lparr>responses = [], sent = [], live_sessions = 0\<rparr>
                [Start, LongPoll, ShortPoll] (Crashed ConnectionError)))
   \<and> exit_code (py_main ''controller'' [] \<lparr>responses = [], sent = [], live_sessions = 0\<rparr>
                [Start, LongPoll, ShortPoll] (Crashed ConnectionError)) = 0
   \<and> \<not> polyglot_stopped (py_main ''controller'' [] \<lparr>responses = [], sent = [], live_sessions = 0\<rparr>
                [Start, LongPoll, ShortPoll] (Crashed ConnectionError))"
  using main_exit [of "[LongPoll, ShortPoll]" "''controller''" "[]"
      "\<lparr>responses = [], sent = [], live_sessions = 0\<rparr>" "Crashed ConnectionError"]
  by simp

theorem config_needs_restart_witness:
  "cnet (ctrl_run (ctrl_config [(''uc_user'', ''admin''), (''uc_password'', ''secret''),
                                 (''uc_ip'', ''10.0.0.1''), (''uc_port'', ''8443''),
                                 (''aa:bb:cc:dd:ee:ff'', ''Phone'')]
            (ctrl_step (ctrl_init ''controller'' [(''aa:bb:cc:dd:ee:ff'', ''Phone'')]
               \<lparr>responses = [Response 200 NotJson], sent = [], live_sessions = 0\<rparr>) Start))
          [Command ''DISCOVER'', ShortPoll, LongPoll, ShortPoll])
   = \<lparr>responses = [Response 200 NotJson], sent = [], live_sessions = 0\<rparr>"
proof -
  let ?c = "ctrl_step (ctrl_init ''controller'' [(''aa:bb:cc:dd:ee:ff'', ''Phone'')]
               \<lparr>responses = [Response 200 NotJson], sent = [], live_sessions = 0\<rparr>) Start"
  have f: "custom_params ?c = [(''aa:bb:cc:dd:ee:ff'', ''Phone'')]
           \<and> cnet ?c = \<lparr>responses = [Response 200 NotJson], sent = [], live_sessions = 0\<rparr>"
    by (rule boot_frame)
  have k: "map_of (custom_params ?c) ''uc_user'' = None" using f by simp
  show ?thesis
    using config_needs_restart [OF reachable.boot _ _ k, of "[Command ''DISCOVER'', ShortPoll, LongPoll, ShortPoll]"] f
    by simp
qed

end
