(* ===== verification/SreMatch.thy ===== *)
theory SreMatch
  imports PyRegex
begin

text \<open>
  CPython's matching engine (\<^verbatim>\<open>_sre\<close>, called by \<^verbatim>\<open>re.fullmatch(value_re, x[term])\<close>
  in \<^verbatim>\<open>Unifi_API.list_clients\<close>, line 193) is a backtracking matcher. It is modelled
  here, from the engine's documented behaviour, as \<open>sre_ends\<close>: the list of the
  rests of the subject left by the ways the pattern can match a prefix of it, in the
  order the engine tries them (left alternative first, concatenation by trying the
  second part after each end of the first, \<open>*\<close> greedily: one more iteration
  before the empty one). An iteration of \<open>*\<close> that consumed nothing is not
  repeated, which is the engine's zero-width protection in \<^verbatim>\<open>MAX_UNTIL\<close>; it is
  what makes the recursion end. \<open>sre_fullmatch\<close> succeeds when some way leaves the
  empty rest, as the engine's full match succeeds when one branch of its search
  reaches the end of the subject. The regex syntax keeps no lazy flag, so the order
  of \<open>?\<close> and lazy quantifiers is not the engine's; only the set of rests matters
  for a full match.

  The recursion is a \<open>function (domintros)\<close>: its domain \<open>sre_ends_dom\<close> is shown to
  hold everywhere by induction with the introduction rules of the domain, and
  termination is proved by the lexicographic measure on the size of the pattern
  and the length of the subject. The rests are then characterised by the matching
  semantics \<open>rmatch\<close>, and the engine is shown to agree with the derivative matcher
  \<open>re_fullmatch\<close> the rest of the development uses.
\<close>

section \<open>The backtracking engine\<close>

function (domintros) sre_ends :: "regex \<Rightarrow> string \<Rightarrow> string list" where
  "sre_ends Zero s = []"
| "sre_ends One s = [s]"
| "sre_ends (Lit c) s = (case s of [] \<Rightarrow> [] | d # s' \<Rightarrow> if d = c then [s'] else [])"
| "sre_ends AnyNL s = (case s of [] \<Rightarrow> [] | d # s' \<Rightarrow> if d = newline then [] else [s'])"
| "sre_ends (Times r t) s = concat (map (sre_ends t) (sre_ends r s))"
| "sre_ends (Plus r t) s = sre_ends r s @ sre_ends t s"
| "sre_ends (Star r) s =
     concat (map (\<lambda>s'. if length s' < length s then sre_ends (Star r) s' else []) (sre_ends r s))
     @ [s]"
| "sre_ends (Cls neg its) s = (case s of [] \<Rightarrow> [] | d # s' \<Rightarrow> if in_class neg its d then [s'] else [])"
  by pat_completeness auto

termination sre_ends
  by (relation "inv_image (less_than <*lex*> less_than) (\<lambda>(r, s). (size r, length s))") auto

definition sre_fullmatch :: "regex \<Rightarrow> string \<Rightarrow> bool" where
  "sre_fullmatch r s \<longleftrightarrow> [] \<in> set (sre_ends r s)"

text \<open>
  The equation of \<open>*\<close> calls \<open>sre_ends\<close> on the same pattern under a \<open>\<lambda>\<close>, where
  the simplifier would unfold it without end; it is used through
  \<open>sre_ends_Star_set\<close>, or by evaluation on concrete input.
\<close>

declare sre_ends.simps(7) [simp del]

section \<open>The rests and the matching semantics\<close>

lemma rmatch_Star_split:
  "rmatch (Star r) p \<longleftrightarrow> p = [] \<or> (\<exists>u v. u \<noteq> [] \<and> p = u @ v \<and> rmatch r u \<and> rmatch (Star r) v)"
proof (cases p)
  case (Cons c s)
  have "(\<exists>u v. u \<noteq> [] \<and> c # s = u @ v \<and> rmatch r u \<and> rmatch (Star r) v) \<longleftrightarrow>
        (\<exists>u v. s = u @ v \<and> rmatch r (c # u) \<and> rmatch (Star r) v)"
    by (auto simp: Cons_eq_append_conv)
  with Cons show ?thesis by (simp add: rmatch_Star_Cons)
qed simp

lemma sre_ends_Star_set:
  "s' \<in> set (sre_ends (Star r) s) \<longleftrightarrow>
     s' = s \<or> (\<exists>m. m \<in> set (sre_ends r s) \<and> length m < length s \<and> s' \<in> set (sre_ends (Star r) m))"
  by (subst sre_ends.simps(7)) auto

lemma sre_ends_iff: "s' \<in> set (sre_ends r s) \<longleftrightarrow> (\<exists>p. s = p @ s' \<and> rmatch r p)"
proof (induction r s arbitrary: s' rule: sre_ends.induct)
  case (3 c s)
  then show ?case by (cases s) auto
next
  case (4 s)
  then show ?case by (cases s) (auto simp: newline_def)
next
  case (8 neg its s)
  then show ?case by (cases s) auto
next
  case (5 r t s)
  show ?case
  proof
    assume "s' \<in> set (sre_ends (Times r t) s)"
    then obtain m where m: "m \<in> set (sre_ends r s)" "s' \<in> set (sre_ends t m)" by auto
    obtain u where "s = u @ m" "rmatch r u" using m(1) "5.IH"(1) by blast
    moreover obtain v where "m = v @ s'" "rmatch t v" using m "5.IH"(2) by blast
    ultimately show "\<exists>p. s = p @ s' \<and> rmatch (Times r t) p"
      by (intro exI [of _ "u @ v"]) (simp add: rmatch.times)
  next
    assume "\<exists>p. s = p @ s' \<and> rmatch (Times r t) p"
    then obtain u v where uv: "s = u @ v @ s'" "rmatch r u" "rmatch t v"
      by (auto simp: rmatch_Times)
    then have m: "v @ s' \<in> set (sre_ends r s)" using "5.IH"(1) by blast
    then have "s' \<in> set (sre_ends t (v @ s'))" using uv(3) "5.IH"(2) by blast
    with m show "s' \<in> set (sre_ends (Times r t) s)" by auto
  qed
next
  case (6 r t s)
  then show ?case by auto
next
  case (7 r s)
  let ?iter = "\<lambda>m. m \<in> set (sre_ends r s) \<and> length m < length s \<and> s' \<in> set (sre_ends (Star r) m)"
  have ends: "s' \<in> set (sre_ends (Star r) s) \<longleftrightarrow> s' = s \<or> (\<exists>m. ?iter m)"
    by (rule sre_ends_Star_set)
  show ?case
  proof
    assume "s' \<in> set (sre_ends (Star r) s)"
    then consider "s' = s" | m where "?iter m" using ends by blast
    then show "\<exists>p. s = p @ s' \<and> rmatch (Star r) p"
    proof cases
      case 2
      obtain u where "s = u @ m" "rmatch r u" using 2 "7.IH"(1) by blast
      moreover obtain v where "m = v @ s'" "rmatch (Star r) v" using 2 "7.IH"(2) by blast
      ultimately show ?thesis
        by (intro exI [of _ "u @ v"]) (simp add: rmatch.star_app)
    qed (intro exI [of _ "[]"], simp)
  next
    assume "\<exists>p. s = p @ s' \<and> rmatch (Star r) p"
    then obtain p where p: "s = p @ s'" "rmatch (Star r) p" by blast
    show "s' \<in> set (sre_ends (Star r) s)"
    proof (cases "p = []")
      case False
      with p obtain u v where uv: "u \<noteq> []" "s = u @ v @ s'" "rmatch r u" "rmatch (Star r) v"
        using rmatch_Star_split [of r p] by auto
      then have "v @ s' \<in> set (sre_ends r s)" using "7.IH"(1) by blast
      moreover have "length (v @ s') < length s" using uv(1,2) by simp
      moreover note "7.IH"(2) [OF calculation] uv(4)
      ultimately have "?iter (v @ s')" by blast
      then show ?thesis using ends by blast
    next
      case True
      with p have "s' = s" by simp
      then show ?thesis using ends by blast
    qed
  qed
qed auto

section \<open>Termination\<close>

text \<open>
  The backtracking engine terminates on every pattern and subject: the domain of
  the recursion \<open>sre_ends\<close> is total, and every end it reports is a rest of the
  subject. A \<open>*\<close> iterates only on a strictly shorter rest of the subject, so the
  recursion descends in the pattern or in the subject.
\<close>

theorem sre_ends_terminates: "sre_ends_dom (r, s) \<and> set (sre_ends r s) \<subseteq> {s'. \<exists>p. s = p @ s'}"
proof
  show "sre_ends_dom (r, s)"
  proof (induction r arbitrary: s)
    case (Star r)
    show ?case
    proof (induction s rule: length_induct)
      case (1 s)
      show ?case
      proof (rule sre_ends.domintros(7))
        fix s' assume "s' \<in> set (sre_ends r s)" "length s' < length s"
        then show "sre_ends_dom (Star r, s')" using 1 by blast
      qed (rule Star.IH)
    qed
  qed (auto intro: sre_ends.domintros)
  show "set (sre_ends r s) \<subseteq> {s'. \<exists>p. s = p @ s'}"
    using sre_ends_iff by blast
qed


text \<open>
  CPython's backtracking engine and the derivative matcher agree: a pattern
  fully matches a subject under \<open>sre_fullmatch\<close> exactly when \<open>re_fullmatch\<close>, which
  models \<^verbatim>\<open>re.fullmatch\<close> in the filter of \<^verbatim>\<open>list_clients\<close>, accepts it.
\<close>

theorem sre_fullmatch_derivs: "sre_fullmatch r s \<longleftrightarrow> re_fullmatch r s"
  using rmatch_derivs [of s r "[]"]
  by (simp add: sre_fullmatch_def sre_ends_iff re_fullmatch_def nullable_iff)

section \<open>Examples\<close>

text \<open>
  The greedy order of the rests, and an empty iteration of \<open>*\<close> cut by the
  zero-width protection.
\<close>

lemma sre_ends_greedy: "sre_ends (Star (Lit CHR ''a'')) ''aab'' = [''b'', ''ab'', ''aab'']"
  by code_simp

lemma sre_ends_zero_width: "sre_ends (Star (Plus One (Lit CHR ''a''))) ''a'' = [[], ''a'']"
  by code_simp

end
