(* ===== verification/Spec2Isabelle.thy ===== *)
theory Spec2Isabelle
  imports Polling Invariants ApiStore Program SreMatch
begin

text \<open>
  \<^bold>\<open>A verification model of the UniFi presence node server.\<close>

  The program, \<^verbatim>\<open>src/unifi-presence-poly.py\<close>, is a Polyglot node server that
  reports whether configured wireless clients are associated with a UniFi controller.
  It has three parts, which call each other in one direction:
  \<^item> the API client \<^verbatim>\<open>Unifi_API\<close> (lines 156--194) logs in to the controller, reads
    the client table and filters it with regular expressions, logs out;
  \<^item> the presence tracker \<^verbatim>\<open>UniFiNode\<close> (lines 196--242), one per device, runs one
    login / \<^verbatim>\<open>list_clients\<close> / logout cycle per poll and sets its driver \<^verbatim>\<open>ST\<close>;
  \<^item> the \<^verbatim>\<open>Controller\<close> (lines 20--150) reads the configuration, creates the trackers
    (\<^verbatim>\<open>discover\<close>), polls them on the short timer (\<^verbatim>\<open>shortPoll\<close>, with a one-time
    snapshot \<^verbatim>\<open>query\<close> after the first poll), sends the liveness pulse on the long
    timer (\<^verbatim>\<open>heartbeat\<close>) and serves three commands.
  The \<^verbatim>\<open>polyinterface\<close> framework, \<^verbatim>\<open>requests\<close>, Python's \<^verbatim>\<open>re\<close> and
  \<^verbatim>\<open>json\<close> are not part
  of the repository; what the code uses of them is modelled from the spec and the
  libraries' documented behaviour, and marked so in the manifest.

  \<^bold>\<open>Theories.\<close>
  \<^item> \<open>Prelude\<close>: the Python exceptions (\<open>py_error\<close>), JSON values and dictionaries,
    the messages to Polyglot (\<open>msg\<close>), \<^verbatim>\<open>str.lower\<close> and friends, shared lemmas.
  \<^item> \<open>PyRegex\<close>: the regular expressions of \<^verbatim>\<open>re\<close> the filter uses: syntax \<open>regex\<close>
    (with character sets), the semantics \<open>rmatch\<close> of full matching, and the
    executable derivative matcher \<open>re_fullmatch\<close> with its correctness.
  \<^item> \<open>ReParse\<close>: \<^verbatim>\<open>re.compile\<close> as \<open>re_compile\<close>, a scanner modelled on
    \<^verbatim>\<open>sre_parse\<close> of Python 3.7--3.10 (a \<open>function\<close> with a termination proof): literals,
    \<open>.\<close>, escaped punctuation, alternation, groups, character sets with ranges and
    negation, and the repetitions \<open>* + ?\<close> and \<open>{m,n}\<close> (as \<open>rep_of\<close>), with the
    errors \<^verbatim>\<open>sre_parse\<close> raises there; what plain strings, dots, braces, sets and
    groups compile to and match.
  \<^item> \<open>SreMatch\<close>: CPython's backtracking engine as the recursion \<open>sre_ends\<close> (the rests
    of the subject a pattern can leave, in the engine's order, with the zero-width
    protection of \<open>*\<close>), a \<open>function (domintros)\<close> whose domain is proved total, and
    its full match \<open>sre_fullmatch\<close> proved equal to \<open>re_fullmatch\<close>.
  \<^item> \<open>PyJson\<close>: \<^verbatim>\<open>json.dumps\<close> of a dictionary of strings (\<open>json_dumps_obj\<close>, with
    the escapes of \<^verbatim>\<open>ensure_ascii\<close>), a decoder for the controller's side
    (\<open>json_loads_obj\<close>, a \<open>function\<close> with a termination proof) and their round trip.
  \<^item> \<open>UnifiAPI\<close>: the network as a script of responses with a log of requests and a
    count of open controller sessions (\<open>net\<close>, \<open>http_send\<close>); the API object
    (\<open>api\<close>) and \<open>api_login\<close> (the body \<open>api_post_login\<close> on the login dictionary),
    \<open>api_logout\<close>, \<open>api_list_clients\<close> with the filter (\<open>apply_filters\<close>,
    \<open>filter_term\<close>) and the unused context manager (\<open>api_with\<close>).
  \<^item> \<open>ApiStore\<close>: the class-level \<^verbatim>\<open>_login_data\<close> shared by all instances, as an
    explicit store of instances (\<open>store_new\<close>, \<open>store_login\<close>); the per-instance
    view of \<open>UnifiAPI\<close> is proved exact for an instance used right after its
    construction, which is how \<^verbatim>\<open>update\<close> uses the class.
  \<^item> \<open>UniFiNode\<close>: the node record, \<^verbatim>\<open>setDriver\<close> (\<open>set_driver_st\<close>), the
    \<^verbatim>\<open>setOn\<close>/\<^verbatim>\<open>setOff\<close> handlers, \<^verbatim>\<open>start\<close>, the commands, and \<^verbatim>\<open>update\<close>
    (\<open>unifi_update\<close>, its loop \<open>update_loop\<close>) with its behaviour on every branch.
  \<^item> \<open>Controller\<close>: the controller state (\<open>ctrl\<close>), \<^verbatim>\<open>heartbeat\<close>,
    \<^verbatim>\<open>check_params\<close>, \<^verbatim>\<open>discover\<close>, \<^verbatim>\<open>start\<close>, \<^verbatim>\<open>query\<close>, \<^verbatim>\<open>shortPoll\<close>,
    \<^verbatim>\<open>longPoll\<close>, the command table; the scheduler's events, the step function
    \<open>ctrl_step\<close>, runs \<open>ctrl_run\<close> and reachable states \<open>reachable\<close>, and the
    invariants proved by rule induction over them (heartbeat, configuration), built
    on frame lemmas that say which fields each handler can change (\<open>quiet\<close>).
  \<^item> \<open>Invariants\<close>: the well-formedness \<open>ctrl_wf\<close> of reachable states (node table
    keyed by address, driver values 0 or 1, every message well formed), one
    preservation lemma per operation, over the relation \<open>grows\<close> (messages only
    appended, addresses never removed).
  \<^item> \<open>Polling\<close>: sequences of events: short polls of one device, by induction on
    their number (convergence when the device is present at every poll, no event at
    all when it never is), the sessions left open over any run, the snapshots of
    \<^verbatim>\<open>query\<close>, a failing device in \<^verbatim>\<open>shortPoll\<close>, and a device configured in upper
    case.
  \<^item> \<open>Program\<close>: the \<^verbatim>\<open>__main__\<close> block (\<open>py_main\<close>) and a configuration change
    (\<open>ctrl_config\<close>, \<^verbatim>\<open>process_config\<close>).
  \<^item> this theory: concrete runs of the whole model (the spec's end-to-end scenario
    and three variations), evaluated by the simplifier with the bundle \<open>scenario_simps\<close>.

  \<^bold>\<open>Modelling choices.\<close> Python exceptions are \<open>Inl\<close> values; every operation
  returns its result with the updated object, network and message list, so a
  partially executed handler keeps the effects made before its exception, as in
  Python. The network is a finite script of answers, so no loop needs fuel: every
  loop of the code runs over a finite list (clients, filters, nodes, configuration
  entries) and is structural recursion. The one recursion that is not structural is
  the matching engine's \<open>*\<close>, which iterates on the rest of the subject; it ends
  because an iteration is repeated only on a strictly shorter rest. The scheduler is a deterministic step
  function over an explicit event list: the code is single-threaded, and the
  framework delivers one event at a time.

  Strings are lists of Isabelle characters (code points 0--255), so the JSON escapes
  of larger code points do not arise. Sequences of polls are stated for any number of
  polls and proved by induction, with a controller that answers each poll the same
  way; no bound is chosen.

  \<^bold>\<open>Not modelled.\<close> Logging; \<^verbatim>\<open>get_server_data\<close>, whose \<^verbatim>\<open>version\<close> key
  \<^verbatim>\<open>start\<close> reads (line 31) only for a log message that does not print it (a
  server file without that key would raise \<open>KeyError\<close> there; \<open>ctrl_start\<close> assumes
  it is present); the
  node-definition metadata \<^verbatim>\<open>id\<close> and \<^verbatim>\<open>hint\<close> (read by Polyglot, not by the code),
  the keys of notices (\<^verbatim>\<open>remove_notice_test\<close>'s removal is only a message), the
  driver values Polyglot may keep for a node that \<^verbatim>\<open>addNode\<close> adds again (\<open>add_node\<close>
  stores a fresh node; no property depends on it), the
  profile upload beyond its message, the inside of the
  framework's \<^verbatim>\<open>Interface\<close> and \<^verbatim>\<open>runForever\<close> (the events they deliver are the
  input of the model), TLS itself (a failed certificate check is a \<open>NetFail\<close>
  answer), the parts of the regular-expression syntax outside the model (anchors
  \<open>^ $\<close>, the \<open>(?\<close> extensions other than \<open>(?:\<close>, letter and digit escapes such
  as \<open>\d\<close>: \<open>OutOfModel\<close>; inline flags; the warnings \<^verbatim>\<open>sre_parse\<close> prints), the
  possessive repetitions of Python 3.11, and the
  order in which the engine tries lazy quantifiers (the syntax keeps no lazy flag;
  a full match depends only on the set of rests).
  Reconfiguration is not an event of \<open>reachable\<close>: the spec leaves it out of scope,
  and \<open>ctrl_config\<close> is treated on its own.

  \<^bold>\<open>What is shown.\<close> Each property is a theorem after a text naming its claim
  (C1--C32, in the manifest's order of importance).
  \<^item> API client and filter: exact matching of a hardware address in
    \<^verbatim>\<open>list_clients\<close> (C3), a plain string compiles and matches only itself (C4),
    only status 400 is a rejected login (C12), the unused context manager would close
    the session (C16), the parse errors of quantifiers (C19) and of sets, groups and
    braces (C31), a group delimits an alternation (C14), braces count repetitions
    (C17), a set range matches the characters between its bounds (C18), the login
    body carries the credentials unchanged (C20, a round trip through JSON), the
    filter loop equals one conjunctive pass (C25), a filter value is a pattern, so a
    dot in an address matches any character (C32).
  \<^item> Shared login dictionary: an instance sends the last constructed instance's
    credentials to its own controller (C26).
  \<^item> Presence tracker: the poll of a present device (C1), the session leaked on an
    expired session (C2), failures other than the \<open>hostname\<close> \<open>KeyError\<close> change
    nothing (C5), an absent device keeps its state (C6), the three requests and their
    certificate checks (C11), the \<open>hostname\<close> \<open>KeyError\<close> (C13).
  \<^item> Controller and scheduler, by rule induction over \<open>reachable\<close>: the heartbeat
    alternates and \<^verbatim>\<open>hb\<close> tracks it (C7), a missing connection parameter means no
    request is ever sent (C15), driver values stay 0 or 1 (C23), every message is well
    formed and no notice is removed by key, as \<^verbatim>\<open>remove_notice_test\<close> is
    unreachable (C24); and \<^verbatim>\<open>firstRun\<close> (C8), \<^verbatim>\<open>discover\<close> (C9).
  \<^item> Poll sequences: a device configured in upper case is never detected, however many
    polls follow \<^verbatim>\<open>DISCOVER\<close> (C10); a device present at every poll converges to on
    network with exactly one state report (C21); one never present causes no event
    (C22); open sessions grow by at most the number of logged exceptions in any run
    (C28); two queries send identical snapshots (C29); a failing device stops the
    poll of the others (C30).
  \<^item> Configuration: a new configuration does not end the degraded mode before a
    restart, whatever events follow (C27).
  Further lemmas that are not properties of the manifest: the derivative matcher
  equals the matching semantics (\<open>re_fullmatch_correct\<close>), the backtracking engine
  terminates and agrees with it (\<open>sre_ends_terminates\<close>, \<open>sre_fullmatch_derivs\<close>), the
  per-instance login model is exact right after construction (\<open>store_login_refines\<close>),
  the node table stays keyed by address (\<open>reachable_nodes_table\<close>), the exit status
  of \<^verbatim>\<open>__main__\<close> (\<open>main_exit\<close>), and concrete runs of the whole model: the spec's
  scenario, the same with the framework starting the node, one device's failure
  stopping the poll, and a device entry in the spec's \<open>name:address\<close> form never
  detected.
  Several of these record where the code differs from the spec; the manifest's
  findings list them.
\<close>

section \<open>End-to-end scenario\<close>

definition scenario_params :: "(string \<times> string) list" where
  "scenario_params =
     [(''uc_user'', ''admin''), (''uc_password'', ''secret''), (''uc_ip'', ''10.0.0.1''),
      (''uc_port'', ''8443''), (''aa:bb:cc:dd:ee:ff'', ''Phone'')]"

text \<open>
  Two polls: in the first the controller lists only a laptop whose address differs from
  the phone's in one character, in the second it also lists the associated phone.
\<close>

definition scenario_net :: net where
  "scenario_net =
     \<lparr>responses =
        [Response 200 NotJson, Response 200 (JsonData [example_near_miss]), Response 200 NotJson,
         Response 200 NotJson, Response 200 (JsonData [example_near_miss, example_phone]),
         Response 200 NotJson],
      sent = [], live_sessions = 0\<rparr>"

text \<open>
  Two devices, where the controller's record of the first (a tablet) has no
  \<open>hostname\<close> field.
\<close>

definition tablet_record :: pydict where
  "tablet_record = [''mac'' \<mapsto> JStr ''aa:bb:cc:dd:ee:01'', ''ap_mac'' \<mapsto> JStr ''f0:9f:c2:00:00:01'']"

definition two_device_params :: "(string \<times> string) list" where
  "two_device_params =
     [(''uc_user'', ''admin''), (''uc_password'', ''secret''), (''uc_ip'', ''10.0.0.1''),
      (''uc_port'', ''8443''), (''aa:bb:cc:dd:ee:01'', ''Tablet''), (''aa:bb:cc:dd:ee:ff'', ''Phone'')]"

definition two_device_net :: net where
  "two_device_net =
     \<lparr>responses =
        [Response 200 NotJson, Response 200 (JsonData [tablet_record]), Response 200 NotJson,
         Response 200 NotJson, Response 200 (JsonData [example_phone]), Response 200 NotJson],
      sent = [], live_sessions = 0\<rparr>"

text \<open>
  A device entry written as the spec describes it, \<open><device-name><delimiter><address>\<close>.
\<close>

definition named_key_params :: "(string \<times> string) list" where
  "named_key_params =
     [(''uc_user'', ''admin''), (''uc_password'', ''secret''), (''uc_ip'', ''10.0.0.1''),
      (''uc_port'', ''8443''), (''Phone:aa:bb:cc:dd:ee:ff'', ''Phone'')]"

lemmas scenario_simps = run_simps example_near_miss_def example_phone_def scenario_net_def scenario_params_def

text \<open>
  The spec's end-to-end scenario, without the framework starting the node: start
  creates the tracker from the configuration, the first short poll finds no matching
  record and keeps the device off network, then sends the one-time snapshot; the second
  poll sees the associated phone and sends exactly one state change.
\<close>

theorem scenario_first_polls:
  "msgs (ctrl_run (ctrl_init ''controller'' scenario_params scenario_net) [Start, ShortPoll, ShortPoll]) =
     [Cmd ''controller'' ''DON'' (Some 2), NoticesClear, AddNodeMsg ''aabbccddeeff'' ''Phone'',
      Status ''controller'' ''ST'' 1, Status ''aabbccddeeff'' ''ST'' 0,
      Status ''aabbccddeeff'' ''ST'' 1]"
  by (simp add: scenario_simps)

text \<open>
  The same scenario when Polyglot confirms the node and the framework calls
  \<^verbatim>\<open>UniFiNode.start\<close>: \<^verbatim>\<open>setOn\<close> marks the device on network before any poll, the
  snapshot reports it on network although the controller never listed it, and the
  phone's arrival in the second poll sends no state change.
\<close>

theorem scenario_node_started:
  "msgs (ctrl_run (ctrl_init ''controller'' scenario_params scenario_net)
           [Start, NodeStart ''aabbccddeeff'', ShortPoll, ShortPoll]) =
     [Cmd ''controller'' ''DON'' (Some 2), NoticesClear, AddNodeMsg ''aabbccddeeff'' ''Phone'',
      Status ''aabbccddeeff'' ''ST'' 1,
      Status ''controller'' ''ST'' 1, Status ''aabbccddeeff'' ''ST'' 1]"
  by (simp add: scenario_simps with_unode_def node_start_def setOn_def)


text \<open>
  One device's failure is not contained: the tablet's record has no hostname, its
  update raises \<open>KeyError\<close>, and \<^verbatim>\<open>shortPoll\<close> ends there; the phone is not
  polled in this cycle (its three answers are still unused) and the one-time snapshot
  is postponed. The spec contains errors to a single device's poll.
\<close>

theorem scenario_failure_stops_poll:
  "errors (ctrl_run (ctrl_init ''controller'' two_device_params two_device_net) [Start, ShortPoll])
     = [KeyError ''hostname'']
   \<and> responses (cnet (ctrl_run (ctrl_init ''controller'' two_device_params two_device_net) [Start, ShortPoll]))
     = [Response 200 NotJson, Response 200 (JsonData [example_phone]), Response 200 NotJson]
   \<and> first_run (ctrl_run (ctrl_init ''controller'' two_device_params two_device_net) [Start, ShortPoll])"
  by (simp add: scenario_simps tablet_record_def two_device_params_def two_device_net_def)

text \<open>
  A device entry in the spec's form \<open><device-name><delimiter><address>\<close>
  (\<open>Phone:aa:bb:cc:dd:ee:ff\<close>) is never detected: \<^verbatim>\<open>discover\<close> takes the whole
  key as the hardware address, names the node \<open>phoneaabbccddeeff\<close>, and the filter on
  the whole key never matches the phone's record, so the two polls of the spec's
  scenario leave it off network although the phone is associated in the second.
\<close>

theorem scenario_named_key_never_seen:
  "msgs (ctrl_run (ctrl_init ''controller'' named_key_params scenario_net) [Start, ShortPoll, ShortPoll]) =
     [Cmd ''controller'' ''DON'' (Some 2), NoticesClear, AddNodeMsg ''phoneaabbccddeeff'' ''Phone'',
      Status ''controller'' ''ST'' 1, Status ''phoneaabbccddeeff'' ''ST'' 0]"
proof -
  have "char_of (112::nat) = CHR ''p''" by code_simp
  then show ?thesis by (simp add: scenario_simps named_key_params_def)
qed

end
